(* ===== verification/Prelude.thy ===== *)
theory Prelude
  imports Main "HOL-Library.Word" "HOL-Library.AList"
begin

text \<open>
  Shared vocabulary of the development: results of fallible Rust functions, the
  unsigned machine integers and their saturating operations, hash maps, and the
  lemma collections the component theories extend.

  \<^item> A Rust \<open>Result<T, E>\<close> is the sum type \<open>'e + 'a\<close>: \<open>Err e\<close> is \<open>Inl e\<close> and
    \<open>Ok x\<close> is \<open>Inr x\<close>. A method that mutates state and may fail returns the new state beside
    the result, because in Rust a failing method may already have written.
  \<^item> A \<open>HashMap<K, V>\<close> is an association list with distinct keys. Lookups and updates go through
    \<open>hget\<close>, \<open>hput\<close> and \<open>hdel\<close>; iteration walks the list, whose order stands for the
    unspecified iteration order of the Rust map.
  \<^item> An instant (\<open>chrono::DateTime<Utc>\<close>) is an integer number of nanoseconds.
\<close>

section \<open>Results\<close>

abbreviation Err :: "'e \<Rightarrow> 'e + 'a" where
  "Err \<equiv> Inl"

abbreviation Ok :: "'a \<Rightarrow> 'e + 'a" where
  "Ok \<equiv> Inr"

definition is_ok :: "'e + 'a \<Rightarrow> bool" where
  "is_ok r = (case r of Inl _ \<Rightarrow> False | Inr _ \<Rightarrow> True)"

fun rbind :: "'e + 'a \<Rightarrow> ('a \<Rightarrow> 'e + 'b) \<Rightarrow> 'e + 'b" where
  "rbind (Inl e) f = Inl e"
| "rbind (Inr x) f = f x"

definition map_err :: "('e \<Rightarrow> 'f) \<Rightarrow> 'e + 'a \<Rightarrow> 'f + 'a" where
  "map_err f r = (case r of Inl e \<Rightarrow> Inl (f e) | Inr x \<Rightarrow> Inr x)"

definition ensure :: "bool \<Rightarrow> 'e \<Rightarrow> 'e + unit" where
  "ensure c e = (if c then Inr () else Inl e)"

lemma is_ok_simps [simp]: "is_ok (Inr x)" "\<not> is_ok (Inl e)"
  by (simp_all add: is_ok_def)

lemma is_ok_iff: "is_ok r \<longleftrightarrow> (\<exists>x. r = Inr x)"
  by (cases r) auto

lemma rbind_eq_Inr: "rbind r f = Inr y \<longleftrightarrow> (\<exists>x. r = Inr x \<and> f x = Inr y)"
  by (cases r) auto

lemma rbind_eq_Inl: "rbind r f = Inl e \<longleftrightarrow> r = Inl e \<or> (\<exists>x. r = Inr x \<and> f x = Inl e)"
  by (cases r) auto

lemma map_err_simps [simp]: "map_err f (Inl e) = Inl (f e)" "map_err f (Inr x) = Inr x"
  by (simp_all add: map_err_def)

lemma map_err_eq_Inr [simp]: "map_err f r = Inr x \<longleftrightarrow> r = Inr x"
  by (cases r) simp_all

lemma map_err_eq_Inl [simp]: "map_err f r = Inl e \<longleftrightarrow> (\<exists>e0. r = Inl e0 \<and> e = f e0)"
  by (cases r) auto

lemma ensure_eq_Inr [simp]: "ensure c e = Inr u \<longleftrightarrow> c"
  by (simp add: ensure_def)

lemma ensure_eq_Inl [simp]: "ensure c e = Inl e' \<longleftrightarrow> \<not> c \<and> e' = e"
  by (auto simp: ensure_def)

section \<open>Machine integers\<close>

type_synonym u8 = "8 word"
type_synonym u16 = "16 word"
type_synonym u32 = "32 word"
type_synonym u64 = "64 word"
type_synonym instant = int
type_synonym uuid = nat

definition sat_add :: "'a::len word \<Rightarrow> 'a word \<Rightarrow> 'a word" where
  "sat_add a b = (if unat a + unat b < 2 ^ LENGTH('a) then a + b else - 1)"

definition sat_sub :: "'a::len word \<Rightarrow> 'a word \<Rightarrow> 'a word" where
  "sat_sub a b = (if b \<le> a then a - b else 0)"

named_theorems word_nat "facts that read saturating words as natural numbers"

lemma unat_sat_add [word_nat]:
  "unat (sat_add a b) = min (unat a + unat b) (2 ^ LENGTH('a) - 1)" for a b :: "'a::len word"
proof (cases "unat a + unat b < 2 ^ LENGTH('a)")
  case True
  then show ?thesis by (simp add: sat_add_def unat_word_ariths)
next
  case False
  then show ?thesis by (simp add: sat_add_def unsigned_minus_1_eq_mask mask_eq_exp_minus_1)
qed

lemma unat_sat_sub [word_nat]: "unat (sat_sub a b) = unat a - unat b"
  by (auto simp: sat_sub_def unat_sub word_le_nat_alt)

lemma sat_sub_sat_add:
  assumes "unat a + unat b < 2 ^ LENGTH('a)"
  shows "sat_sub (sat_add a b) b = (a :: 'a::len word)"
proof -
  have "unat (sat_sub (sat_add a b) b) = unat a"
    using assms by (simp add: word_nat)
  then show ?thesis by (simp add: word_unat_eq_iff)
qed

lemma unat_ucast_u32_u64 [word_nat]: "unat (ucast (x :: u32) :: u64) = unat x"
proof -
  have "unat x < 2 ^ 32" using unsigned_less [of x] by simp
  then show ?thesis by (simp add: unsigned_ucast_eq take_bit_nat_eq_self)
qed

section \<open>Hash maps\<close>

type_synonym ('k, 'v) hmap = "('k \<times> 'v) list"

abbreviation hempty :: "('k, 'v) hmap" where
  "hempty \<equiv> []"

abbreviation hget :: "('k, 'v) hmap \<Rightarrow> 'k \<Rightarrow> 'v option" where
  "hget m k \<equiv> map_of m k"

abbreviation hput :: "'k \<Rightarrow> 'v \<Rightarrow> ('k, 'v) hmap \<Rightarrow> ('k, 'v) hmap" where
  "hput \<equiv> AList.update"

abbreviation hdel :: "'k \<Rightarrow> ('k, 'v) hmap \<Rightarrow> ('k, 'v) hmap" where
  "hdel \<equiv> AList.delete"

definition hvalues :: "('k, 'v) hmap \<Rightarrow> 'v list" where
  "hvalues m = map snd m"

definition hcontains :: "('k, 'v) hmap \<Rightarrow> 'k \<Rightarrow> bool" where
  "hcontains m k = (map_of m k \<noteq> None)"

definition hwf :: "('k, 'v) hmap \<Rightarrow> bool" where
  "hwf m = distinct (map fst m)"

named_theorems hmap_simps "lookup after update or removal"

lemma hget_hput [hmap_simps]: "hget (hput k v m) = (hget m)(k \<mapsto> v)"
  by (rule update_conv')

lemma hget_hdel [hmap_simps]: "hget (hdel k m) = (hget m)(k := None)"
  by (rule delete_conv')

lemma hwf_empty [simp]: "hwf hempty"
  by (simp add: hwf_def)

lemma hwf_hput [simp]: "hwf m \<Longrightarrow> hwf (hput k v m)"
  by (simp add: hwf_def distinct_update)

lemma hwf_hdel [simp]: "hwf m \<Longrightarrow> hwf (hdel k m)"
  by (simp add: hwf_def distinct_delete)

lemma hget_in_set: "hwf m \<Longrightarrow> hget m k = Some v \<longleftrightarrow> (k, v) \<in> set m"
  by (auto simp: hwf_def map_of_eq_Some_iff)

lemma hwf_Cons [simp]: "hwf ((k, v) # m) \<longleftrightarrow> hget m k = None \<and> hwf m"
  by (auto simp: hwf_def map_of_eq_None_iff)

lemma hput_fresh: "hget m k = None \<Longrightarrow> hput k v m = m @ [(k, v)]"
  by (induction m) (auto split: if_splits)

lemma hdel_fresh: "hget m k = None \<Longrightarrow> hdel k m = m"
  by (simp add: delete_id map_of_eq_None_iff)

text \<open>Replacing the record of a key that is present changes one summand of a sum over the map.\<close>

lemma sum_list_hput_present:
  fixes f :: "'k \<times> 'v \<Rightarrow> nat"
  assumes "hwf m" and "hget m k = Some v"
  shows "sum_list (map f (hput k v' m)) + f (k, v) = sum_list (map f m) + f (k, v')"
  using assms by (induction m) (auto split: if_splits)

lemma sum_list_hput_fresh:
  fixes f :: "'k \<times> 'v \<Rightarrow> nat"
  assumes "hget m k = None"
  shows "sum_list (map f (hput k v m)) = sum_list (map f m) + f (k, v)"
  using assms by (simp add: hput_fresh)

lemma sum_list_ge_member:
  fixes f :: "'k \<times> 'v \<Rightarrow> nat"
  assumes "hget m k = Some v"
  shows "f (k, v) \<le> sum_list (map f m)"
  using assms by (intro member_le_sum_list) (auto dest: map_of_SomeD)

section \<open>Sequences of operations\<close>

fun run_ops :: "('s \<Rightarrow> 'op \<Rightarrow> 's \<times> 'r) \<Rightarrow> 's \<Rightarrow> 'op list \<Rightarrow> 's \<times> 'r list" where
  "run_ops exec s [] = (s, [])"
| "run_ops exec s (x # xs) =
     (let (s1, r) = exec s x; (s2, rs) = run_ops exec s1 xs in (s2, r # rs))"

lemma run_ops_Cons_split:
  "run_ops exec s (x # xs)
     = (fst (run_ops exec (fst (exec s x)) xs), snd (exec s x) # snd (run_ops exec (fst (exec s x)) xs))"
  by (simp add: split_def Let_def)

lemma run_ops_snoc:
  "fst (run_ops exec s (xs @ [x])) = fst (exec (fst (run_ops exec s xs)) x)"
  by (induction xs arbitrary: s) (simp_all add: split_def Let_def)

lemma run_ops_invariant:
  assumes "I s" and "\<And>s x. I s \<Longrightarrow> I (fst (exec s x))"
  shows "I (fst (run_ops exec s xs))"
  using assms(1) by (induction xs arbitrary: s) (auto simp: split_def Let_def intro: assms(2))

section \<open>Options\<close>

definition unwrap_or :: "'a option \<Rightarrow> 'a \<Rightarrow> 'a" where
  "unwrap_or x d = (case x of None \<Rightarrow> d | Some y \<Rightarrow> y)"

definition or_else :: "'a option \<Rightarrow> 'a option \<Rightarrow> 'a option" where
  "or_else x y = (case x of None \<Rightarrow> y | Some _ \<Rightarrow> x)"

lemma unwrap_or_simps [simp]: "unwrap_or None d = d" "unwrap_or (Some y) d = y"
  by (simp_all add: unwrap_or_def)

lemma or_else_simps [simp]: "or_else None y = y" "or_else (Some x) y = Some x"
  by (simp_all add: or_else_def)

lemma or_else_None [simp]: "or_else x y = None \<longleftrightarrow> x = None \<and> y = None"
  by (cases x) auto

lemma or_else_Some: "or_else x y = Some z \<longleftrightarrow> x = Some z \<or> (x = None \<and> y = Some z)"
  by (cases x) auto

end
