(* ===== verification/Lifecycle_Protocol.thy ===== *)
theory Lifecycle_Protocol
  imports Prelude
begin

text \<open>
  The contract shared by the stores whose records have a life cycle: a record is opened at most once
  under its key, in one open status, and closed at most once, into a status it never leaves, over
  any sequence of calls. Reservations of the resource governors (reconciled or released once) and
  approval requests (approved, denied or discarded once) follow it. The locale states what one call
  may do to the status of records, also when the call fails after its effect took place (a durable
  store may lose the reply); its lemmas are about whole sequences.
\<close>

definition status_advances :: "'st \<Rightarrow> 'st option \<Rightarrow> 'st option \<Rightarrow> bool" where
  "status_advances act a b \<longleftrightarrow>
     a = b \<or> (a = None \<and> b = Some act) \<or> (a = Some act \<and> b \<noteq> None)"

lemma status_advances_refl [simp]: "status_advances act a a"
  by (simp add: status_advances_def)

lemma status_advances_closed: "status_advances act (Some st) b \<Longrightarrow> st \<noteq> act \<Longrightarrow> b = Some st"
  by (auto simp: status_advances_def)

lemma status_advances_known: "status_advances act a b \<Longrightarrow> a \<noteq> None \<Longrightarrow> b \<noteq> None"
  by (auto simp: status_advances_def)

locale lifecycle_protocol =
  fixes inv :: "'s \<Rightarrow> bool"
    and act :: 'st
    and status_of :: "'s \<Rightarrow> 'k \<Rightarrow> 'st option"
    and exec :: "'s \<Rightarrow> 'op \<Rightarrow> 's \<times> 'resp"
    and opens :: "'resp \<Rightarrow> 'k option"
    and closes :: "'resp \<Rightarrow> 'k option"
  assumes inv_exec: "inv s \<Longrightarrow> inv (fst (exec s x))"
    and opens_fresh: "inv s \<Longrightarrow> exec s x = (s', r) \<Longrightarrow> opens r = Some i \<Longrightarrow>
      status_of s i = None \<and> status_of s' i = Some act"
    and closes_active: "inv s \<Longrightarrow> exec s x = (s', r) \<Longrightarrow> closes r = Some i \<Longrightarrow>
      status_of s i = Some act \<and> (\<exists>st. st \<noteq> act \<and> status_of s' i = Some st)"
    and advances: "inv s \<Longrightarrow> exec s x = (s', r) \<Longrightarrow> status_advances act (status_of s j) (status_of s' j)"
begin

lemma step_keeps_closed:
  assumes "inv s" and "status_of s i = Some st" and "st \<noteq> act"
  shows "status_of (fst (exec s x)) i = Some st"
proof -
  obtain s' r where e: "exec s x = (s', r)" by (cases "exec s x")
  show ?thesis
    using advances [OF assms(1) e, of i] assms(2,3) e by (simp add: status_advances_closed)
qed

lemma closed_forever:
  assumes "inv s" and "status_of s i = Some st" and "st \<noteq> act"
  shows "status_of (fst (run_ops exec s xs)) i = Some st"
proof -
  have "inv (fst (run_ops exec s xs)) \<and> status_of (fst (run_ops exec s xs)) i = Some st"
    using assms
    by (intro run_ops_invariant [where I = "\<lambda>s. inv s \<and> status_of s i = Some st"])
       (auto simp: step_keeps_closed inv_exec)
  then show ?thesis ..
qed

lemma no_open_when_known:
  assumes "inv s" and "status_of s i \<noteq> None"
  shows "Some i \<notin> set (map opens (snd (run_ops exec s xs)))"
  using assms
proof (induction xs arbitrary: s)
  case (Cons x xs)
  obtain s' r where e: "exec s x = (s', r)" by (cases "exec s x")
  have "opens r \<noteq> Some i"
    using e Cons.prems opens_fresh by fastforce
  moreover have "status_of s' i \<noteq> None" "inv s'"
    using status_advances_known [OF advances [OF Cons.prems(1) e] Cons.prems(2)]
      inv_exec [OF Cons.prems(1), of x] e by simp_all
  ultimately show ?case using Cons.IH e by (fastforce simp: split_def Let_def)
qed simp

lemma no_close_when_closed:
  assumes "inv s" and "status_of s i = Some st" and "st \<noteq> act"
  shows "Some i \<notin> set (map closes (snd (run_ops exec s xs)))"
  using assms(1,2)
proof (induction xs arbitrary: s)
  case (Cons x xs)
  obtain s' r where e: "exec s x = (s', r)" by (cases "exec s x")
  have "closes r \<noteq> Some i"
    using e Cons.prems assms(3) closes_active by fastforce
  moreover have "status_of s' i = Some st" "inv s'"
    using step_keeps_closed [OF Cons.prems assms(3), of x] inv_exec [OF Cons.prems(1), of x] e
    by simp_all
  ultimately show ?case using Cons.IH e by (fastforce simp: split_def Let_def)
qed simp

lemma opens_at_most_once:
  "inv s \<Longrightarrow> count_list (map opens (snd (run_ops exec s xs))) (Some i) \<le> 1"
proof (induction xs arbitrary: s)
  case (Cons x xs)
  obtain s' r where e: "exec s x = (s', r)" by (cases "exec s x")
  then have inv': "inv s'" using inv_exec [OF Cons.prems, of x] by simp
  show ?case
  proof (cases "opens r = Some i")
    case True
    with e opens_fresh Cons.prems have "status_of s' i \<noteq> None" by fastforce
    then show ?thesis
      using True e no_open_when_known [OF inv', of i xs]
      by (simp add: split_def Let_def count_list_0_iff)
  next
    case False
    then show ?thesis using Cons.IH [OF inv'] e by (simp add: split_def Let_def)
  qed
qed simp

lemma closes_at_most_once:
  "inv s \<Longrightarrow> count_list (map closes (snd (run_ops exec s xs))) (Some i) \<le> 1"
proof (induction xs arbitrary: s)
  case (Cons x xs)
  obtain s' r where e: "exec s x = (s', r)" by (cases "exec s x")
  then have inv': "inv s'" using inv_exec [OF Cons.prems, of x] by simp
  show ?case
  proof (cases "closes r = Some i")
    case True
    with e closes_active Cons.prems obtain st where "status_of s' i = Some st" "st \<noteq> act"
      by fastforce
    then show ?thesis
      using True e no_close_when_closed [OF inv', of i st xs]
      by (simp add: split_def Let_def count_list_0_iff)
  next
    case False
    then show ?thesis using Cons.IH [OF inv'] e by (simp add: split_def Let_def)
  qed
qed simp

end

end
