(* ===== verification/Rust_Strings.thy ===== *)
theory Rust_Strings
  imports Prelude
begin

text \<open>
  The string operations of the Rust standard library that the host API uses. A Rust
  \<open>String\<close> is its sequence of UTF-8 bytes, so \<open>len\<close> is \<open>length\<close>, and the control
  characters of Unicode (category Cc) are the bytes 0 to 31, the byte 127 and the two-byte
  sequences C2 80 to C2 9F.
\<close>

definition starts_with :: "string \<Rightarrow> string \<Rightarrow> bool" where
  "starts_with p s = (take (length p) s = p)"

fun contains_str :: "string \<Rightarrow> string \<Rightarrow> bool" where
  "contains_str p [] = (p = [])"
| "contains_str p (c # cs) = (starts_with p (c # cs) \<or> contains_str p cs)"

definition contains_char :: "char \<Rightarrow> string \<Rightarrow> bool" where
  "contains_char c s = (c \<in> set s)"

fun split_on :: "char \<Rightarrow> string \<Rightarrow> string list" where
  "split_on c [] = [[]]"
| "split_on c (x # xs) =
     (if x = c then [] # split_on c xs
      else (case split_on c xs of [] \<Rightarrow> [[x]] | p # ps \<Rightarrow> (x # p) # ps))"

fun join_with :: "char \<Rightarrow> string list \<Rightarrow> string" where
  "join_with c [] = []"
| "join_with c [p] = p"
| "join_with c (p # q # ps) = p @ c # join_with c (q # ps)"

definition strip_prefix :: "string \<Rightarrow> string \<Rightarrow> string option" where
  "strip_prefix p s = (if starts_with p s then Some (drop (length p) s) else None)"

definition trim_start_char :: "char \<Rightarrow> string \<Rightarrow> string" where
  "trim_start_char c s = dropWhile (\<lambda>x. x = c) s"

definition trim_end_char :: "char \<Rightarrow> string \<Rightarrow> string" where
  "trim_end_char c s = rev (dropWhile (\<lambda>x. x = c) (rev s))"

definition byte :: "char \<Rightarrow> nat" where
  "byte c = of_char c"

definition is_ascii_lowercase :: "char \<Rightarrow> bool" where
  "is_ascii_lowercase c = (97 \<le> byte c \<and> byte c \<le> 122)"

definition is_ascii_uppercase :: "char \<Rightarrow> bool" where
  "is_ascii_uppercase c = (65 \<le> byte c \<and> byte c \<le> 90)"

definition is_ascii_digit :: "char \<Rightarrow> bool" where
  "is_ascii_digit c = (48 \<le> byte c \<and> byte c \<le> 57)"

definition is_ascii_alphanumeric :: "char \<Rightarrow> bool" where
  "is_ascii_alphanumeric c = (is_ascii_lowercase c \<or> is_ascii_uppercase c \<or> is_ascii_digit c)"

definition control_head :: "char \<Rightarrow> string \<Rightarrow> bool" where
  "control_head c cs =
     (byte c < 32 \<or> byte c = 127
      \<or> (byte c = 194 \<and> (case cs of [] \<Rightarrow> False | d # _ \<Rightarrow> 128 \<le> byte d \<and> byte d \<le> 159)))"

fun any_control :: "string \<Rightarrow> bool" where
  "any_control [] = False"
| "any_control (c # cs) = (control_head c cs \<or> any_control cs)"

definition strip_suffix :: "string \<Rightarrow> string \<Rightarrow> string option" where
  "strip_suffix p s =
     (if length p \<le> length s \<and> drop (length s - length p) s = p
      then Some (take (length s - length p) s) else None)"

definition ascii_lower :: "char \<Rightarrow> char" where
  "ascii_lower c = (if is_ascii_uppercase c then char_of (byte c + 32) else c)"

definition to_ascii_lowercase :: "string \<Rightarrow> string" where
  "to_ascii_lowercase s = map ascii_lower s"

definition eq_ignore_ascii_case :: "string \<Rightarrow> string \<Rightarrow> bool" where
  "eq_ignore_ascii_case s t = (to_ascii_lowercase s = to_ascii_lowercase t)"

text \<open>The length in bytes of the Unicode whitespace character at the head of a string, 0 if there is
  none, and the same for the reversed bytes of the last character.\<close>

definition white_head :: "string \<Rightarrow> nat" where
  "white_head s =
     (case map byte (take 3 s) of
        [] \<Rightarrow> 0
      | a # r \<Rightarrow>
          if (9 \<le> a \<and> a \<le> 13) \<or> a = 32 then 1
          else (case r of
             [] \<Rightarrow> 0
           | b # r' \<Rightarrow>
               if a = 0xc2 \<and> (b = 0x85 \<or> b = 0xa0) then 2
               else (case r' of
                  [] \<Rightarrow> 0
                | c # _ \<Rightarrow>
                    if (a = 0xe1 \<and> b = 0x9a \<and> c = 0x80)
                       \<or> (a = 0xe2 \<and> b = 0x80 \<and> (0x80 \<le> c \<and> c \<le> 0x8a \<or> c = 0xa8 \<or> c = 0xa9 \<or> c = 0xaf))
                       \<or> (a = 0xe2 \<and> b = 0x81 \<and> c = 0x9f)
                       \<or> (a = 0xe3 \<and> b = 0x80 \<and> c = 0x80)
                    then 3 else 0)))"

definition white_last :: "string \<Rightarrow> nat" where
  "white_last s =
     (if 1 \<le> length s \<and> white_head (drop (length s - 1) s) = 1 then 1
      else if 2 \<le> length s \<and> white_head (drop (length s - 2) s) = 2 then 2
      else if 3 \<le> length s \<and> white_head (drop (length s - 3) s) = 3 then 3
      else 0)"

function trim_start :: "string \<Rightarrow> string" where
  "trim_start s = (if s = [] \<or> white_head s = 0 then s else trim_start (drop (white_head s) s))"
  by pat_completeness auto
termination by (relation "measure length") auto

function trim_end :: "string \<Rightarrow> string" where
  "trim_end s = (if s = [] \<or> white_last s = 0 then s else trim_end (take (length s - white_last s) s))"
  by pat_completeness auto
termination by (relation "measure length") auto

declare trim_start.simps [simp del] trim_end.simps [simp del]

definition trim :: "string \<Rightarrow> string" where
  "trim s = trim_end (trim_start s)"

text \<open>The decimal text of an unsigned integer (\<open>Display\<close> of the integer types).\<close>

fun digit_char :: "nat \<Rightarrow> char" where
  "digit_char n = char_of (48 + n)"

fun show_nat :: "nat \<Rightarrow> string" where
  "show_nat n = (if n < 10 then [digit_char n] else show_nat (n div 10) @ [digit_char (n mod 10)])"

declare show_nat.simps [simp del]

section \<open>Prefixes\<close>

lemma starts_with_iff: "starts_with p s \<longleftrightarrow> (\<exists>t. s = p @ t)"
proof
  assume "starts_with p s"
  then have "s = p @ drop (length p) s"
    by (metis append_take_drop_id starts_with_def)
  then show "\<exists>t. s = p @ t" by blast
qed (auto simp: starts_with_def)

lemma starts_with_append [simp]: "starts_with p (p @ t)"
  by (simp add: starts_with_def)

lemma strip_prefix_append [simp]: "strip_prefix p (p @ t) = Some t"
  by (simp add: strip_prefix_def)

section \<open>Splitting and joining\<close>

lemma split_on_not_Nil [simp]: "split_on c s \<noteq> []"
  by (induction s) (auto split: list.splits)

lemma split_on_seps: "p \<in> set (split_on c s) \<Longrightarrow> c \<notin> set p"
  by (induction s arbitrary: p) (auto split: list.splits if_splits)

lemma split_on_subset: "p \<in> set (split_on c s) \<Longrightarrow> set p \<subseteq> set s"
  by (induction s arbitrary: p) (fastforce split: list.splits if_splits)+

lemma split_on_no_sep: "c \<notin> set p \<Longrightarrow> split_on c p = [p]"
  by (induction p) auto

lemma split_on_append_sep:
  "c \<notin> set p \<Longrightarrow> split_on c (p @ c # s) = p # split_on c s"
  by (induction p) auto

lemma split_on_join:
  "ps \<noteq> [] \<Longrightarrow> \<forall>p \<in> set ps. c \<notin> set p \<Longrightarrow> split_on c (join_with c ps) = ps"
proof (induction c ps rule: join_with.induct)
  case (3 c p q ps)
  then show ?case by (simp add: split_on_append_sep)
qed (simp_all add: split_on_no_sep)

lemma join_split_on [simp]: "join_with c (split_on c s) = s"
proof (induction s)
  case (Cons x s)
  obtain p ps where sp: "split_on c s = p # ps"
    by (cases "split_on c s") auto
  with Cons.IH show ?case by (cases ps) auto
qed simp

lemma set_join_with: "set (join_with c ps) \<subseteq> insert c (\<Union>p \<in> set ps. set p)"
  by (induction c ps rule: join_with.induct) auto

lemma join_with_append:
  "ps \<noteq> [] \<Longrightarrow> qs \<noteq> [] \<Longrightarrow> join_with c (ps @ qs) = join_with c ps @ c # join_with c qs"
proof (induction c ps rule: join_with.induct)
  case (2 c p)
  then show ?case by (cases qs) auto
qed auto

section \<open>Control characters\<close>

text \<open>
  A printable ASCII separator neither is a control character nor completes one, so a string has a
  control character iff one of the parts around its separators has one.
\<close>

definition printable_sep :: "char \<Rightarrow> bool" where
  "printable_sep c = (32 \<le> byte c \<and> byte c < 127)"

lemma byte_slash: "printable_sep (CHR ''/'')"
  by (simp add: printable_sep_def byte_def)

lemma control_head_sep: "printable_sep c \<Longrightarrow> \<not> control_head c cs"
  by (auto simp: printable_sep_def control_head_def)

lemma control_head_append_sep:
  "printable_sep c \<Longrightarrow> control_head x (p @ c # s) = control_head x p"
  by (cases p) (auto simp: printable_sep_def control_head_def)

lemma any_control_sep:
  "printable_sep c \<Longrightarrow> any_control (p @ c # s) \<longleftrightarrow> any_control p \<or> any_control s"
  by (induction p) (auto simp: control_head_append_sep control_head_sep)

lemma any_control_join:
  "printable_sep c \<Longrightarrow> any_control (join_with c ps) \<longleftrightarrow> (\<exists>p \<in> set ps. any_control p)"
  by (induction c ps rule: join_with.induct) (auto simp: any_control_sep)

lemma any_control_split:
  "printable_sep c \<Longrightarrow> any_control s \<longleftrightarrow> (\<exists>p \<in> set (split_on c s). any_control p)"
  using any_control_join [of c "split_on c s"] by simp

section \<open>Containment and trimming\<close>

lemma contains_str_iff: "contains_str p s \<longleftrightarrow> (\<exists>u v. s = u @ p @ v)"
proof
  show "contains_str p s \<Longrightarrow> \<exists>u v. s = u @ p @ v"
    by (induction s) (auto simp: starts_with_iff, blast, metis append_Cons)
next
  assume "\<exists>u v. s = u @ p @ v"
  then obtain u v where s: "s = u @ p @ v" by blast
  have "contains_str p (u @ p @ v)"
  proof (induction u)
    case Nil
    then show ?case by (cases "p @ v") (auto simp: starts_with_iff, metis)
  qed auto
  then show "contains_str p s" using s by simp
qed

lemma contains_str_append:
  assumes "contains_str p (s @ t)" and "\<And>c. c \<in> set t \<Longrightarrow> c \<notin> set p" and "p \<noteq> []"
  shows "contains_str p s"
proof -
  obtain u v where uv: "s @ t = u @ p @ v"
    using assms(1) by (auto simp: contains_str_iff)
  have "length (u @ p) \<le> length s"
  proof (rule ccontr)
    assume "\<not> length (u @ p) \<le> length s"
    then have long: "length s < length (u @ p)" by simp
    have "last p = (s @ t) ! (length (u @ p) - 1)"
      using assms(3) unfolding uv by (cases p) (auto simp: nth_append last_conv_nth)
    also have "\<dots> = t ! (length (u @ p) - 1 - length s)"
      using long by (auto simp: nth_append)
    also have "\<dots> \<in> set t"
    proof (rule nth_mem)
      have "length (u @ p) \<le> length (s @ t)" unfolding uv by simp
      then show "length (u @ p) - 1 - length s < length t" using long by simp
    qed
    finally show False using assms(2,3) last_in_set by blast
  qed
  then have "s = u @ p @ drop (length (u @ p)) s"
    by (metis append.assoc append_eq_append_conv_if append_take_drop_id uv)
  then show ?thesis unfolding contains_str_iff by blast
qed

lemma contains_str_take: "contains_str p (take n s) \<Longrightarrow> contains_str p s"
  unfolding contains_str_iff by (metis append.assoc append_take_drop_id)

lemma white_head_ascii:
  assumes "s \<noteq> []" and "byte (hd s) < 128"
  shows "white_head s = (if (9 \<le> byte (hd s) \<and> byte (hd s) \<le> 13) \<or> byte (hd s) = 32 then 1 else 0)"
proof -
  obtain c cs where s: "s = c # cs" using assms(1) by (cases s) auto
  show ?thesis
    using assms(2) by (simp add: s white_head_def split: list.split)
qed

lemma white_last_ascii:
  assumes "s \<noteq> []" and "list_all (\<lambda>c. byte c < 128) s"
  shows "white_last s = (if (9 \<le> byte (last s) \<and> byte (last s) \<le> 13) \<or> byte (last s) = 32 then 1 else 0)"
proof -
  have low: "white_head (drop (length s - n) s) \<le> 1" if "1 \<le> n" "n \<le> length s" for n
    using that assms
    by (subst white_head_ascii) (auto simp: hd_drop_conv_nth list_all_length)
  have l: "hd (drop (length s - 1) s) = last s"
    using assms(1) by (simp add: hd_drop_conv_nth last_conv_nth)
  have w: "white_head (drop (length s - 1) s)
      = (if (9 \<le> byte (last s) \<and> byte (last s) \<le> 13) \<or> byte (last s) = 32 then 1 else 0)"
    using assms l by (subst white_head_ascii) (auto simp: list_all_iff drop_eq_Nil not_le Suc_le_eq)
  have len: "1 \<le> length s" using assms(1) by (cases s) auto
  have "\<not> (2 \<le> length s \<and> white_head (drop (length s - 2) s) = 2)"
    using low [of 2] by auto
  moreover have "\<not> (3 \<le> length s \<and> white_head (drop (length s - 3) s) = 3)"
    using low [of 3] by auto
  ultimately show ?thesis using w len by (auto simp: white_last_def simp del: One_nat_def)
qed

lemma trim_start_head: "trim_start s = [] \<or> white_head (trim_start s) = 0"
proof (induction s rule: trim_start.induct)
  case (1 s)
  then show ?case by (subst (1 2) trim_start.simps) auto
qed

lemma trim_end_last: "trim_end s = [] \<or> white_last (trim_end s) = 0"
proof (induction s rule: trim_end.induct)
  case (1 s)
  then show ?case by (subst (1 2) trim_end.simps) auto
qed

lemma trim_end_prefix: "\<exists>n. trim_end s = take n s"
proof (induction s rule: trim_end.induct)
  case (1 s)
  show ?case
  proof (cases "s = [] \<or> white_last s = 0")
    case True
    then show ?thesis by (metis order_refl take_all trim_end.simps)
  next
    case False
    then show ?thesis using 1 by (subst trim_end.simps) (auto simp: take_take)
  qed
qed

text \<open>A trimmed text in ASCII begins and ends with a visible character, and trimming such a text
  changes nothing.\<close>

definition visible :: "char \<Rightarrow> bool" where
  "visible c \<longleftrightarrow> byte c < 128 \<and> \<not> (9 \<le> byte c \<and> byte c \<le> 13) \<and> byte c \<noteq> 32"

lemma trim_visible:
  assumes "trim s \<noteq> []" and "list_all (\<lambda>c. byte c < 128) (trim s)"
  shows "visible (hd (trim s))" and "visible (last (trim s))"
proof -
  have "white_last (trim s) = 0" using trim_end_last assms(1) by (auto simp: trim_def)
  then show "visible (last (trim s))"
    using assms white_last_ascii [OF assms] by (auto simp: visible_def list_all_iff split: if_splits)
  obtain n where n: "trim s = take n (trim_start s)"
    using trim_end_prefix by (auto simp: trim_def)
  then have ne: "trim_start s \<noteq> []" "hd (trim s) = hd (trim_start s)"
    using assms(1) by auto
  then have "white_head (trim_start s) = 0" using trim_start_head by blast
  then show "visible (hd (trim s))"
    using assms ne white_head_ascii [OF ne(1)]
    by (cases "trim s") (auto simp: visible_def split: if_splits)
qed

lemma trim_id:
  assumes "s \<noteq> []" and "list_all (\<lambda>c. byte c < 128) s" and "visible (hd s)" and "visible (last s)"
  shows "trim s = s"
proof -
  have "white_head s = 0"
    using assms white_head_ascii [OF assms(1)] by (auto simp: visible_def)
  moreover have "white_last s = 0"
    using assms white_last_ascii [OF assms(1,2)] by (auto simp: visible_def)
  ultimately show ?thesis
    by (simp add: trim_def trim_start.simps [of s] trim_end.simps [of s])
qed

end
