(* ===== verification/Host_Scope.thy ===== *)
theory Host_Scope
  imports Rust_Strings
begin

text \<open>
  Identifiers and execution scopes of the host API (\<open>ironclaw_host_api\<close>: \<open>error.rs\<close>,
  \<open>ids.rs\<close>, \<open>resource.rs\<close>). String identifiers are newtypes around a validated string and are
  modelled by that string; a constructor \<open>X::new\<close> is the validator it runs followed by the value.
  UUID identifiers are natural numbers.
\<close>

section \<open>Contract errors\<close>

datatype host_api_error =
    InvalidId string string string
  | InvalidPath string string
  | InvalidCapability string string
  | InvalidMount string string
  | InvalidNetworkTarget string string
  | InvalidRuntimeCredentialTarget string string
  | InvariantViolation string

section \<open>Identifier validation\<close>

type_synonym tenant_id = string
type_synonym user_id = string
type_synonym agent_id = string
type_synonym project_id = string
type_synonym mission_id = string
type_synonym thread_id = string
type_synonym extension_id = string
type_synonym capability_id = string
type_synonym secret_handle = string
type_synonym system_service_id = string
type_synonym invocation_id = uuid
type_synonym process_id = uuid
type_synonym reservation_id = uuid
type_synonym approval_request_id = uuid
type_synonym capability_grant_id = uuid
type_synonym correlation_id = uuid

definition RESERVED_SENTINEL_PREFIX :: string where
  "RESERVED_SENTINEL_PREFIX = ''__ironclaw_''"

definition SYSTEM_RESERVED_ID :: string where
  "SYSTEM_RESERVED_ID = CHR 0x1F # ''SYSTEM'' @ [CHR 0x1F]"

definition TENANT_SHARED_MANAGED_USER_ID :: string where
  "TENANT_SHARED_MANAGED_USER_ID = ''__ironclaw_tenant_shared_admin__''"

definition has_forbidden_control :: "string \<Rightarrow> bool" where
  "has_forbidden_control v = (CHR 0x00 \<in> set v \<or> any_control v)"

definition validate_scope_id :: "string \<Rightarrow> string \<Rightarrow> host_api_error + unit" where
  "validate_scope_id kind v =
     (if v = [] then Err (InvalidId kind v ''must not be empty'')
      else if length v > 256 then Err (InvalidId kind v ''must be at most 256 bytes'')
      else if v = ''.'' \<or> v = ''..'' then Err (InvalidId kind v ''dot segments are not allowed'')
      else if contains_char (CHR ''/'') v \<or> contains_char (CHR 0x5C) v
        then Err (InvalidId kind v ''path separators are not allowed'')
      else if has_forbidden_control v
        then Err (InvalidId kind v ''NUL/control characters are not allowed'')
      else if starts_with RESERVED_SENTINEL_PREFIX v
        then Err (InvalidId kind v
          ''the `__ironclaw_` prefix is reserved for host sentinel identities'')
      else Ok ())"

definition is_name_char :: "char \<Rightarrow> bool" where
  "is_name_char b = (is_ascii_lowercase b \<or> is_ascii_digit b \<or> b = CHR ''_'' \<or> b = CHR ''-'')"

definition validate_name_segment :: "string \<Rightarrow> string \<Rightarrow> host_api_error + unit" where
  "validate_name_segment kind v =
     (case v of
        [] \<Rightarrow> Err (InvalidId kind v ''must not be empty'')
      | first # _ \<Rightarrow>
          if length v > 128 then Err (InvalidId kind v ''must be at most 128 bytes'')
          else if \<not> (is_ascii_lowercase first \<or> is_ascii_digit first)
            then Err (InvalidId kind v ''must start with lowercase ASCII letter or digit'')
          else if v = ''.'' \<or> v = ''..'' \<or> contains_str ''..'' v
            then Err (InvalidId kind v ''dot-dot segments are not allowed'')
          else if list_ex (\<lambda>b. \<not> (is_name_char b \<or> b = CHR ''.'')) v
            then Err (InvalidId kind v
              ''only lowercase ASCII letters, digits, '_', '-', and '.' are allowed'')
          else if list_ex (\<lambda>p. p = []) (split_on (CHR ''.'') v)
            then Err (InvalidId kind v ''empty dot segments are not allowed'')
          else Ok ())"

fun validate_segments :: "string list \<Rightarrow> host_api_error + unit" where
  "validate_segments [] = Ok ()"
| "validate_segments (p # ps) =
     rbind (validate_name_segment ''capability'' p) (\<lambda>_. validate_segments ps)"

definition capability_id_new :: "string \<Rightarrow> host_api_error + capability_id" where
  "capability_id_new v =
     (if v = [] \<or> \<not> contains_char (CHR ''.'') v
      then Err (InvalidId ''capability'' v (''must be '<extension>.<capability>[.<sub>...]'' @ [CHR 0x27]))
      else if length (split_on (CHR ''.'') v) < 2 \<or> list_ex (\<lambda>p. p = []) (split_on (CHR ''.'') v)
      then Err (InvalidId ''capability'' v ''empty dot segments are not allowed'')
      else rbind (validate_segments (split_on (CHR ''.'') v)) (\<lambda>_. Ok v))"

definition scope_id_new :: "string \<Rightarrow> string \<Rightarrow> host_api_error + string" where
  "scope_id_new kind v = rbind (validate_scope_id kind v) (\<lambda>_. Ok v)"

section \<open>Resource scopes\<close>

record resource_scope =
  tenant_id :: tenant_id
  user_id :: user_id
  agent_id :: "agent_id option"
  project_id :: "project_id option"
  mission_id :: "mission_id option"
  thread_id :: "thread_id option"
  invocation_id :: invocation_id

definition deserialize_system_aware_tenant_id :: "string \<Rightarrow> host_api_error + tenant_id" where
  "deserialize_system_aware_tenant_id raw =
     (if raw = SYSTEM_RESERVED_ID then Ok raw else scope_id_new ''tenant'' raw)"

definition deserialize_system_aware_user_id :: "string \<Rightarrow> host_api_error + user_id" where
  "deserialize_system_aware_user_id raw =
     (if raw = SYSTEM_RESERVED_ID \<or> raw = TENANT_SHARED_MANAGED_USER_ID then Ok raw
      else scope_id_new ''user'' raw)"

definition local_default_scope :: "user_id \<Rightarrow> invocation_id \<Rightarrow> host_api_error + resource_scope" where
  "local_default_scope u i =
     rbind (scope_id_new ''tenant'' ''default'') (\<lambda>t.
     rbind (scope_id_new ''agent'' ''default'') (\<lambda>a.
     rbind (scope_id_new ''project'' ''bootstrap'') (\<lambda>p.
       Ok \<lparr>tenant_id = t, user_id = u, agent_id = Some a, project_id = Some p,
           mission_id = None, thread_id = None, invocation_id = i\<rparr>)))"

definition system_scope :: "invocation_id \<Rightarrow> resource_scope" where
  "system_scope i =
     \<lparr>tenant_id = SYSTEM_RESERVED_ID, user_id = SYSTEM_RESERVED_ID, agent_id = None,
      project_id = None, mission_id = None, thread_id = None, invocation_id = i\<rparr>"

definition is_system :: "resource_scope \<Rightarrow> bool" where
  "is_system sc = (tenant_id sc = SYSTEM_RESERVED_ID \<and> user_id sc = SYSTEM_RESERVED_ID)"

definition without_thread_and_mission :: "resource_scope \<Rightarrow> resource_scope" where
  "without_thread_and_mission sc = sc\<lparr>mission_id := None, thread_id := None\<rparr>"

definition tenant_user_settings_scope :: "resource_scope \<Rightarrow> resource_scope" where
  "tenant_user_settings_scope sc =
     \<lparr>tenant_id = tenant_id sc, user_id = user_id sc, agent_id = None, project_id = None,
      mission_id = None, thread_id = None, invocation_id = invocation_id sc\<rparr>"

definition tenant_shared_managed_scope :: "resource_scope \<Rightarrow> resource_scope" where
  "tenant_shared_managed_scope sc =
     \<lparr>tenant_id = tenant_id sc, user_id = TENANT_SHARED_MANAGED_USER_ID, agent_id = None,
      project_id = None, mission_id = None, thread_id = None, invocation_id = invocation_id sc\<rparr>"

section \<open>What a validated identifier guarantees\<close>

lemma validate_scope_id_Ok:
  "validate_scope_id k v = Ok () \<longleftrightarrow>
     v \<noteq> [] \<and> length v \<le> 256 \<and> v \<noteq> ''.'' \<and> v \<noteq> ''..'' \<and> CHR ''/'' \<notin> set v \<and> CHR 0x5C \<notin> set v
     \<and> \<not> has_forbidden_control v \<and> \<not> starts_with RESERVED_SENTINEL_PREFIX v"
  by (auto simp: validate_scope_id_def contains_char_def)

lemma scope_id_new_Ok: "scope_id_new k v = Ok w \<longleftrightarrow> w = v \<and> validate_scope_id k v = Ok ()"
  by (auto simp: scope_id_new_def rbind_eq_Inr)

lemma system_id_has_control: "has_forbidden_control SYSTEM_RESERVED_ID"
  by (simp add: has_forbidden_control_def SYSTEM_RESERVED_ID_def control_head_def byte_def)

lemma shared_id_has_prefix: "starts_with RESERVED_SENTINEL_PREFIX TENANT_SHARED_MANAGED_USER_ID"
  by (simp add: starts_with_def RESERVED_SENTINEL_PREFIX_def TENANT_SHARED_MANAGED_USER_ID_def)

lemma validated_id_not_sentinel:
  assumes "scope_id_new k v = Ok w"
  shows "w \<noteq> SYSTEM_RESERVED_ID" and "w \<noteq> TENANT_SHARED_MANAGED_USER_ID"
  using assms system_id_has_control shared_id_has_prefix
  by (auto simp: scope_id_new_Ok validate_scope_id_Ok)

end
