(* ===== verification/Resource_Types.thy ===== *)
theory Resource_Types
  imports Host_Scope
begin

text \<open>
  Data model of the resource governor (\<open>ironclaw_resources\<close> and the shared shapes of
  \<open>ironclaw_host_api/src/resource.rs\<close>): accounts and their cascade, estimates, usage, limits,
  tallies, errors, budget periods and thresholds.

  Code outside the repository is a parameter: the record \<open>host_ops\<close> carries the operations of
  \<open>rust_decimal::Decimal\<close> (type \<open>'d\<close>, whose \<open>Ord\<close> is the \<open>linorder\<close> of \<open>'d\<close>), of IEEE
  doubles (type \<open>'f\<close>) and of \<open>chrono\<close>/\<open>chrono_tz\<close> that the crate calls. Every definition that
  needs one takes the record as its first argument.
\<close>

record ('d, 'f) host_ops =
  dec_zero :: "'d"
  dec_max :: "'d"
  dec_checked_add :: "'d \<Rightarrow> 'd \<Rightarrow> 'd option"
  dec_checked_sub :: "'d \<Rightarrow> 'd \<Rightarrow> 'd option"
  dec_to_f64 :: "'d \<Rightarrow> 'f option"
  f_zero :: "'f"
  f_one :: "'f"
  f_of_u64 :: "u64 \<Rightarrow> 'f"
  f_div :: "'f \<Rightarrow> 'f \<Rightarrow> 'f"
  f_lt :: "'f \<Rightarrow> 'f \<Rightarrow> bool"
  f_ge :: "'f \<Rightarrow> 'f \<Rightarrow> bool"
  f_is_finite :: "'f \<Rightarrow> bool"
  max_utc :: "instant"
  cal_local_date :: "string \<Rightarrow> instant \<Rightarrow> int"
  cal_days_from_monday :: "int \<Rightarrow> int"
  cal_year :: "int \<Rightarrow> int"
  cal_month :: "int \<Rightarrow> nat"
  cal_from_ymd :: "int \<Rightarrow> nat \<Rightarrow> nat \<Rightarrow> int option"
  cal_local_midnight :: "string \<Rightarrow> int \<Rightarrow> instant option"

section \<open>Accounts\<close>

datatype resource_account =
    AccTenant tenant_id
  | AccUser tenant_id user_id
  | AccProject tenant_id user_id project_id
  | AccAgent tenant_id user_id "project_id option" agent_id
  | AccMission tenant_id user_id "project_id option" mission_id
  | AccThread tenant_id user_id "project_id option" "mission_id option" thread_id

definition cascade :: "resource_scope \<Rightarrow> resource_account list" where
  "cascade sc =
     [AccTenant (tenant_id sc), AccUser (tenant_id sc) (user_id sc)]
     @ (case project_id sc of None \<Rightarrow> []
        | Some p \<Rightarrow> [AccProject (tenant_id sc) (user_id sc) p])
     @ (case agent_id sc of None \<Rightarrow> []
        | Some a \<Rightarrow> [AccAgent (tenant_id sc) (user_id sc) (project_id sc) a])
     @ (case mission_id sc of None \<Rightarrow> []
        | Some m \<Rightarrow> [AccMission (tenant_id sc) (user_id sc) (project_id sc) m])
     @ (case thread_id sc of None \<Rightarrow> []
        | Some t \<Rightarrow> [AccThread (tenant_id sc) (user_id sc) (project_id sc) (mission_id sc) t])"

definition most_specific_account :: "resource_scope \<Rightarrow> resource_account" where
  "most_specific_account sc =
     (case cascade sc of [] \<Rightarrow> AccTenant (tenant_id sc) | a # as \<Rightarrow> last (a # as))"

fun account_display :: "resource_account \<Rightarrow> string" where
  "account_display (AccTenant t) = ''tenant/'' @ t"
| "account_display (AccUser t u) = ''tenant/'' @ t @ ''/user/'' @ u"
| "account_display (AccProject t u p) = ''tenant/'' @ t @ ''/user/'' @ u @ ''/project/'' @ p"
| "account_display (AccAgent t u p a) =
     ''tenant/'' @ t @ ''/user/'' @ u @ ''/project/'' @ unwrap_or p ''_'' @ ''/agent/'' @ a"
| "account_display (AccMission t u p m) =
     ''tenant/'' @ t @ ''/user/'' @ u @ ''/project/'' @ unwrap_or p ''_'' @ ''/mission/'' @ m"
| "account_display (AccThread t u p m th) =
     ''tenant/'' @ t @ ''/user/'' @ u @ ''/project/'' @ unwrap_or p ''_''
       @ ''/mission/'' @ unwrap_or m ''_'' @ ''/thread/'' @ th"

section \<open>Periods and thresholds\<close>

datatype period_unit = Day | Week | Month

datatype budget_period = PerInvocation | Rolling24h | Calendar string period_unit

record 'f budget_thresholds =
  warn_at :: "'f"
  pause_at :: "'f"

datatype budget_thresholds_error = NotFinite | Negative | PauseBelowWarn

definition thresholds_disabled :: "('d, 'f) host_ops \<Rightarrow> 'f budget_thresholds" where
  "thresholds_disabled h = \<lparr>warn_at = f_one h, pause_at = f_one h\<rparr>"

definition validate_thresholds ::
  "('d, 'f) host_ops \<Rightarrow> 'f budget_thresholds \<Rightarrow> budget_thresholds_error + unit" where
  "validate_thresholds h t =
     (if \<not> f_is_finite h (warn_at t) \<or> \<not> f_is_finite h (pause_at t) then Err NotFinite
      else if f_lt h (warn_at t) (f_zero h) \<or> f_lt h (pause_at t) (f_zero h) then Err Negative
      else if f_lt h (pause_at t) (warn_at t) then Err PauseBelowWarn
      else Ok ())"

definition hours24 :: int where
  "hours24 = 24 * 3600 * 1000000000"

definition calendar_dates :: "('d, 'f) host_ops \<Rightarrow> period_unit \<Rightarrow> int \<Rightarrow> int \<times> int" where
  "calendar_dates h unit d =
     (case unit of
        Day \<Rightarrow> (d, d + 1)
      | Week \<Rightarrow> (let start = d - cal_days_from_monday h d in (start, start + 7))
      | Month \<Rightarrow>
          (let month_start = unwrap_or (cal_from_ymd h (cal_year h d) (cal_month h d) 1) d;
               next_month = unwrap_or
                 (if cal_month h d = 12 then cal_from_ymd h (cal_year h d + 1) 1 1
                  else cal_from_ymd h (cal_year h d) (cal_month h d + 1) 1) month_start
           in (month_start, next_month)))"

definition calendar_bounds ::
  "('d, 'f) host_ops \<Rightarrow> string \<Rightarrow> period_unit \<Rightarrow> instant \<Rightarrow> instant \<times> instant" where
  "calendar_bounds h tz unit now =
     (let (start_date, end_date) = calendar_dates h unit (cal_local_date h tz now)
      in (unwrap_or (cal_local_midnight h tz start_date) now,
          unwrap_or (cal_local_midnight h tz end_date) (now + hours24)))"

definition period_bounds ::
  "('d, 'f) host_ops \<Rightarrow> budget_period \<Rightarrow> instant \<Rightarrow> instant \<times> instant" where
  "period_bounds h p now =
     (case p of
        PerInvocation \<Rightarrow> (now, max_utc h)
      | Rolling24h \<Rightarrow> (now, now + hours24)
      | Calendar tz unit \<Rightarrow> calendar_bounds h tz unit now)"

definition period_has_rolled_over :: "instant \<Rightarrow> instant \<Rightarrow> bool" where
  "period_has_rolled_over current_end now = (now \<ge> current_end)"

section \<open>Estimates, usage, limits\<close>

record 'd resource_estimate =
  est_usd :: "'d option"
  est_input_tokens :: "u64 option"
  est_output_tokens :: "u64 option"
  est_wall_clock_ms :: "u64 option"
  est_output_bytes :: "u64 option"
  est_network_egress_bytes :: "u64 option"
  est_process_count :: "u32 option"
  est_concurrency_slots :: "u32 option"

record 'd resource_usage =
  use_usd :: "'d"
  use_input_tokens :: u64
  use_output_tokens :: u64
  use_wall_clock_ms :: u64
  use_output_bytes :: u64
  use_network_egress_bytes :: u64
  use_process_count :: u32

record ('d, 'f) resource_limits =
  max_usd :: "'d option"
  max_input_tokens :: "u64 option"
  max_output_tokens :: "u64 option"
  max_wall_clock_ms :: "u64 option"
  max_output_bytes :: "u64 option"
  max_network_egress_bytes :: "u64 option"
  max_process_count :: "u32 option"
  max_concurrency_slots :: "u32 option"
  period :: budget_period
  thresholds :: "'f budget_thresholds"

definition limits_default :: "('d, 'f) host_ops \<Rightarrow> ('d, 'f) resource_limits" where
  "limits_default h =
     \<lparr>max_usd = None, max_input_tokens = None, max_output_tokens = None, max_wall_clock_ms = None,
      max_output_bytes = None, max_network_egress_bytes = None, max_process_count = None,
      max_concurrency_slots = None, period = PerInvocation, thresholds = thresholds_disabled h\<rparr>"

definition is_decimal_unlimited :: "('d::linorder, 'f) host_ops \<Rightarrow> 'd option \<Rightarrow> bool" where
  "is_decimal_unlimited h v = (case v of None \<Rightarrow> True | Some x \<Rightarrow> x \<le> dec_zero h)"

definition is_integer_unlimited :: "u64 option \<Rightarrow> bool" where
  "is_integer_unlimited v = (v = None \<or> v = Some 0)"

definition u64_of_u32 :: "u32 \<Rightarrow> u64" where
  "u64_of_u32 x = ucast x"

definition is_unlimited :: "('d::linorder, 'f) host_ops \<Rightarrow> ('d, 'f) resource_limits \<Rightarrow> bool" where
  "is_unlimited h l =
     (is_decimal_unlimited h (max_usd l)
      \<and> is_integer_unlimited (max_input_tokens l)
      \<and> is_integer_unlimited (max_output_tokens l)
      \<and> is_integer_unlimited (max_wall_clock_ms l)
      \<and> is_integer_unlimited (max_output_bytes l)
      \<and> is_integer_unlimited (max_network_egress_bytes l)
      \<and> is_integer_unlimited (map_option u64_of_u32 (max_process_count l))
      \<and> is_integer_unlimited (map_option u64_of_u32 (max_concurrency_slots l)))"

section \<open>Denials, warnings, errors\<close>

datatype resource_dimension =
    Usd | InputTokens | OutputTokens | WallClockMs | OutputBytes | NetworkEgressBytes
  | ProcessCount | ConcurrencySlots

datatype 'd resource_value = Decimal 'd | Integer u64

record 'd resource_denial =
  den_account :: resource_account
  den_dimension :: resource_dimension
  den_limit :: "'d resource_value"
  den_current_usage :: "'d resource_value"
  den_active_reserved :: "'d resource_value"
  den_requested :: "'d resource_value"

record ('d, 'f) resource_approval_needed =
  apn_account :: resource_account
  apn_dimension :: resource_dimension
  apn_limit :: "'d resource_value"
  apn_current_usage :: "'d resource_value"
  apn_active_reserved :: "'d resource_value"
  apn_requested :: "'d resource_value"
  apn_utilization :: "'f"
  apn_period_end :: "instant option"

record ('d, 'f) budget_warning =
  bw_account :: resource_account
  bw_dimension :: resource_dimension
  bw_utilization :: "'f"
  bw_limit :: "'d resource_value"
  bw_period_end :: "instant option"

datatype reservation_status = Active | Reconciled | Released

datatype ('d, 'f) resource_error =
    LimitExceeded "'d resource_denial" "('d, 'f) budget_warning list"
  | RequiresApproval "('d, 'f) resource_approval_needed" "('d, 'f) budget_warning list"
  | ReservationAlreadyExists reservation_id
  | InvalidEstimate resource_dimension string
  | ReservationMismatch reservation_id
  | UnknownReservation reservation_id
  | ReservationClosed reservation_id reservation_status
  | Storage string

section \<open>Tallies\<close>

record 'd resource_tally =
  tal_usd :: "'d"
  tal_input_tokens :: u64
  tal_output_tokens :: u64
  tal_wall_clock_ms :: u64
  tal_output_bytes :: u64
  tal_network_egress_bytes :: u64
  tal_process_count :: u32
  tal_concurrency_slots :: u32

definition tally_default :: "('d, 'f) host_ops \<Rightarrow> 'd resource_tally" where
  "tally_default h =
     \<lparr>tal_usd = dec_zero h, tal_input_tokens = 0, tal_output_tokens = 0, tal_wall_clock_ms = 0,
      tal_output_bytes = 0, tal_network_egress_bytes = 0, tal_process_count = 0,
      tal_concurrency_slots = 0\<rparr>"

definition tally_from_estimate ::
  "('d, 'f) host_ops \<Rightarrow> 'd resource_estimate \<Rightarrow> 'd resource_tally" where
  "tally_from_estimate h e =
     \<lparr>tal_usd = unwrap_or (est_usd e) (dec_zero h),
      tal_input_tokens = unwrap_or (est_input_tokens e) 0,
      tal_output_tokens = unwrap_or (est_output_tokens e) 0,
      tal_wall_clock_ms = unwrap_or (est_wall_clock_ms e) 0,
      tal_output_bytes = unwrap_or (est_output_bytes e) 0,
      tal_network_egress_bytes = unwrap_or (est_network_egress_bytes e) 0,
      tal_process_count = unwrap_or (est_process_count e) 0,
      tal_concurrency_slots = unwrap_or (est_concurrency_slots e) 0\<rparr>"

definition tally_from_usage :: "'d resource_usage \<Rightarrow> 'd resource_tally" where
  "tally_from_usage u =
     \<lparr>tal_usd = use_usd u, tal_input_tokens = use_input_tokens u,
      tal_output_tokens = use_output_tokens u, tal_wall_clock_ms = use_wall_clock_ms u,
      tal_output_bytes = use_output_bytes u,
      tal_network_egress_bytes = use_network_egress_bytes u,
      tal_process_count = use_process_count u, tal_concurrency_slots = 0\<rparr>"

definition tally_add ::
  "('d, 'f) host_ops \<Rightarrow> 'd resource_tally \<Rightarrow> 'd resource_tally \<Rightarrow> 'd resource_tally" where
  "tally_add h a b =
     \<lparr>tal_usd = unwrap_or (dec_checked_add h (tal_usd a) (tal_usd b)) (dec_max h),
      tal_input_tokens = sat_add (tal_input_tokens a) (tal_input_tokens b),
      tal_output_tokens = sat_add (tal_output_tokens a) (tal_output_tokens b),
      tal_wall_clock_ms = sat_add (tal_wall_clock_ms a) (tal_wall_clock_ms b),
      tal_output_bytes = sat_add (tal_output_bytes a) (tal_output_bytes b),
      tal_network_egress_bytes = sat_add (tal_network_egress_bytes a) (tal_network_egress_bytes b),
      tal_process_count = sat_add (tal_process_count a) (tal_process_count b),
      tal_concurrency_slots = sat_add (tal_concurrency_slots a) (tal_concurrency_slots b)\<rparr>"

definition tally_sub ::
  "('d::linorder, 'f) host_ops \<Rightarrow> 'd resource_tally \<Rightarrow> 'd resource_tally \<Rightarrow> 'd resource_tally" where
  "tally_sub h a b =
     \<lparr>tal_usd = unwrap_or
        (map_option (\<lambda>v. max v (dec_zero h)) (dec_checked_sub h (tal_usd a) (tal_usd b)))
        (dec_zero h),
      tal_input_tokens = sat_sub (tal_input_tokens a) (tal_input_tokens b),
      tal_output_tokens = sat_sub (tal_output_tokens a) (tal_output_tokens b),
      tal_wall_clock_ms = sat_sub (tal_wall_clock_ms a) (tal_wall_clock_ms b),
      tal_output_bytes = sat_sub (tal_output_bytes a) (tal_output_bytes b),
      tal_network_egress_bytes = sat_sub (tal_network_egress_bytes a) (tal_network_egress_bytes b),
      tal_process_count = sat_sub (tal_process_count a) (tal_process_count b),
      tal_concurrency_slots = sat_sub (tal_concurrency_slots a) (tal_concurrency_slots b)\<rparr>"

section \<open>Reading one integer dimension\<close>

text \<open>
  The seven integer dimensions behave alike, so the proofs read a tally and a limit through one
  projection. \<open>dim_cap\<close> is the largest value the field of that dimension can hold. The two
  \<open>u32\<close> dimensions are widened to \<open>u64\<close>, as the limit check does.
\<close>

fun dim_of :: "resource_dimension \<Rightarrow> 'd resource_tally \<Rightarrow> u64" where
  "dim_of Usd t = 0"
| "dim_of InputTokens t = tal_input_tokens t"
| "dim_of OutputTokens t = tal_output_tokens t"
| "dim_of WallClockMs t = tal_wall_clock_ms t"
| "dim_of OutputBytes t = tal_output_bytes t"
| "dim_of NetworkEgressBytes t = tal_network_egress_bytes t"
| "dim_of ProcessCount t = u64_of_u32 (tal_process_count t)"
| "dim_of ConcurrencySlots t = u64_of_u32 (tal_concurrency_slots t)"

fun dim_limit :: "resource_dimension \<Rightarrow> ('d, 'f) resource_limits \<Rightarrow> u64 option" where
  "dim_limit Usd l = None"
| "dim_limit InputTokens l = max_input_tokens l"
| "dim_limit OutputTokens l = max_output_tokens l"
| "dim_limit WallClockMs l = max_wall_clock_ms l"
| "dim_limit OutputBytes l = max_output_bytes l"
| "dim_limit NetworkEgressBytes l = max_network_egress_bytes l"
| "dim_limit ProcessCount l = map_option u64_of_u32 (max_process_count l)"
| "dim_limit ConcurrencySlots l = map_option u64_of_u32 (max_concurrency_slots l)"

fun dim_cap :: "resource_dimension \<Rightarrow> nat" where
  "dim_cap Usd = 0"
| "dim_cap ProcessCount = 2 ^ 32 - 1"
| "dim_cap ConcurrencySlots = 2 ^ 32 - 1"
| "dim_cap _ = 2 ^ 64 - 1"

definition dim_nat :: "resource_dimension \<Rightarrow> 'd resource_tally \<Rightarrow> nat" where
  "dim_nat d t = unat (dim_of d t)"

named_theorems dim_simps "one integer dimension of a tally after an operation"

lemma unat_u64_of_u32 [word_nat]: "unat (u64_of_u32 x) = unat x"
  by (simp add: u64_of_u32_def word_nat)

lemma dim_nat_default [dim_simps]: "dim_nat d (tally_default h) = 0"
  by (cases d) (simp_all add: dim_nat_def tally_default_def u64_of_u32_def)

lemma dim_nat_add [dim_simps]: "dim_nat d (tally_add h a b) = min (dim_nat d a + dim_nat d b) (dim_cap d)"
  by (cases d) (simp_all add: dim_nat_def tally_add_def word_nat)

lemma dim_nat_sub [dim_simps]: "dim_nat d (tally_sub h a b) = dim_nat d a - dim_nat d b"
  by (cases d) (simp_all add: dim_nat_def tally_sub_def word_nat)

lemma unat_u64_le: "unat (x :: u64) \<le> 2 ^ 64 - 1"
  using unsigned_less [of x, where ?'a = nat] by simp

lemma unat_u32_le: "unat (x :: u32) \<le> 2 ^ 32 - 1"
  using unsigned_less [of x, where ?'a = nat] by simp

lemma dim_nat_le_cap: "dim_nat d t \<le> dim_cap d"
  using unat_u64_le unat_u32_le by (cases d) (simp_all add: dim_nat_def word_nat)

lemma dim_limit_le_cap: "dim_limit d l = Some x \<Longrightarrow> unat x \<le> dim_cap d"
  using unat_u64_le unat_u32_le by (cases d) (auto simp: word_nat)

section \<open>The cascade\<close>

lemma distinct_cascade [simp]: "distinct (cascade sc)"
  by (auto simp: cascade_def split: option.splits)

lemma cascade_not_Nil [simp]: "cascade sc \<noteq> []"
  by (simp add: cascade_def)

end
