(* ===== verification/Resource_Checks.thy ===== *)
theory Resource_Checks
  imports Resource_Types
begin

text \<open>
  The admission check of one account (\<open>ironclaw_resources/src/lib.rs\<close>, from
  \<open>validate_estimate\<close> to \<open>decimal_to_f64\<close>): hard limits per dimension, graduated thresholds,
  and their combination, in which a hard denial wins over a request for approval.
\<close>

section \<open>Validation of estimates and usage\<close>

definition validate_estimate ::
  "('d::linorder, 'f) host_ops \<Rightarrow> 'd resource_estimate \<Rightarrow> ('d, 'f) resource_error + unit" where
  "validate_estimate h e =
     (case est_usd e of
        Some usd \<Rightarrow> if usd < dec_zero h then Err (InvalidEstimate Usd ''must be non-negative'')
                    else Ok ()
      | None \<Rightarrow> Ok ())"

definition validate_usage ::
  "('d::linorder, 'f) host_ops \<Rightarrow> 'd resource_usage \<Rightarrow> ('d, 'f) resource_error + unit" where
  "validate_usage h u =
     (if use_usd u < dec_zero h then Err (InvalidEstimate Usd ''must be non-negative'') else Ok ())"

section \<open>Hard limits\<close>

definition check_decimal ::
  "('d::linorder, 'f) host_ops \<Rightarrow> resource_account \<Rightarrow> resource_dimension \<Rightarrow> 'd option
    \<Rightarrow> 'd \<Rightarrow> 'd \<Rightarrow> 'd \<Rightarrow> 'd resource_denial option" where
  "check_decimal h acct dim limit usage reserved requested =
     (case limit of
        None \<Rightarrow> None
      | Some l \<Rightarrow>
          if \<not> l > dec_zero h then None
          else
            (let exceeds =
               (case Option.bind (dec_checked_add h usage reserved)
                       (\<lambda>subtotal. dec_checked_add h subtotal requested) of
                  Some tot \<Rightarrow> tot > l
                | None \<Rightarrow> True)
             in if exceeds then
                  Some \<lparr>den_account = acct, den_dimension = dim, den_limit = Decimal l,
                        den_current_usage = Decimal usage, den_active_reserved = Decimal reserved,
                        den_requested = Decimal requested\<rparr>
                else None))"

definition check_integer ::
  "resource_account \<Rightarrow> resource_dimension \<Rightarrow> u64 option \<Rightarrow> u64 \<Rightarrow> u64 \<Rightarrow> u64
    \<Rightarrow> 'd resource_denial option" where
  "check_integer acct dim limit usage reserved requested =
     (case limit of
        None \<Rightarrow> None
      | Some l \<Rightarrow>
          if \<not> l > 0 then None
          else if sat_add (sat_add usage reserved) requested > l then
            Some \<lparr>den_account = acct, den_dimension = dim, den_limit = Integer l,
                  den_current_usage = Integer usage, den_active_reserved = Integer reserved,
                  den_requested = Integer requested\<rparr>
          else None)"

definition check_limits_first_denial ::
  "('d::linorder, 'f) host_ops \<Rightarrow> resource_account \<Rightarrow> ('d, 'f) resource_limits
    \<Rightarrow> 'd resource_tally \<Rightarrow> 'd resource_tally \<Rightarrow> 'd resource_tally
    \<Rightarrow> 'd resource_denial option" where
  "check_limits_first_denial h acct l usage reserved requested =
     or_else (check_decimal h acct Usd (max_usd l) (tal_usd usage) (tal_usd reserved)
                (tal_usd requested))
    (or_else (check_integer acct InputTokens (max_input_tokens l) (tal_input_tokens usage)
                (tal_input_tokens reserved) (tal_input_tokens requested))
    (or_else (check_integer acct OutputTokens (max_output_tokens l) (tal_output_tokens usage)
                (tal_output_tokens reserved) (tal_output_tokens requested))
    (or_else (check_integer acct WallClockMs (max_wall_clock_ms l) (tal_wall_clock_ms usage)
                (tal_wall_clock_ms reserved) (tal_wall_clock_ms requested))
    (or_else (check_integer acct OutputBytes (max_output_bytes l) (tal_output_bytes usage)
                (tal_output_bytes reserved) (tal_output_bytes requested))
    (or_else (check_integer acct NetworkEgressBytes (max_network_egress_bytes l)
                (tal_network_egress_bytes usage) (tal_network_egress_bytes reserved)
                (tal_network_egress_bytes requested))
    (or_else (check_integer acct ProcessCount (map_option u64_of_u32 (max_process_count l))
                (u64_of_u32 (tal_process_count usage)) (u64_of_u32 (tal_process_count reserved))
                (u64_of_u32 (tal_process_count requested)))
             (check_integer acct ConcurrencySlots
                (map_option u64_of_u32 (max_concurrency_slots l))
                (u64_of_u32 (tal_concurrency_slots usage))
                (u64_of_u32 (tal_concurrency_slots reserved))
                (u64_of_u32 (tal_concurrency_slots requested)))))))))"

section \<open>Graduated thresholds\<close>

datatype ('d, 'f) threshold_intervention =
    TWarning "('d, 'f) budget_warning"
  | TApproval "('d, 'f) resource_approval_needed"

record ('t, 'f) threshold_inputs =
  ti_account :: resource_account
  ti_dimension :: resource_dimension
  ti_limit :: "'t option"
  ti_usage :: "'t"
  ti_reserved :: "'t"
  ti_requested :: "'t"
  ti_thresholds :: "'f budget_thresholds"
  ti_period_end :: "instant option"

definition decimal_to_f64 :: "('d, 'f) host_ops \<Rightarrow> 'd \<Rightarrow> 'f" where
  "decimal_to_f64 h x = unwrap_or (dec_to_f64 h x) (f_zero h)"

definition threshold_intervention ::
  "('d, 'f) host_ops \<Rightarrow> ('t, 'f) threshold_inputs \<Rightarrow> ('t \<Rightarrow> 'd resource_value) \<Rightarrow> 't \<Rightarrow> 'f
    \<Rightarrow> ('d, 'f) threshold_intervention option" where
  "threshold_intervention h i wrap limit utilization =
     (if f_lt h (pause_at (ti_thresholds i)) (f_one h)
         \<and> f_ge h utilization (pause_at (ti_thresholds i))
      then Some (TApproval
        \<lparr>apn_account = ti_account i, apn_dimension = ti_dimension i, apn_limit = wrap limit,
         apn_current_usage = wrap (ti_usage i), apn_active_reserved = wrap (ti_reserved i),
         apn_requested = wrap (ti_requested i), apn_utilization = utilization,
         apn_period_end = ti_period_end i\<rparr>)
      else if f_lt h (warn_at (ti_thresholds i)) (f_one h)
         \<and> f_ge h utilization (warn_at (ti_thresholds i))
      then Some (TWarning
        \<lparr>bw_account = ti_account i, bw_dimension = ti_dimension i, bw_utilization = utilization,
         bw_limit = wrap limit, bw_period_end = ti_period_end i\<rparr>)
      else None)"

definition threshold_decimal ::
  "('d::linorder, 'f) host_ops \<Rightarrow> ('d, 'f) threshold_inputs
    \<Rightarrow> ('d, 'f) threshold_intervention option" where
  "threshold_decimal h i =
     (case ti_limit i of
        None \<Rightarrow> None
      | Some l \<Rightarrow>
          if \<not> l > dec_zero h then None
          else Option.bind (dec_checked_add h (ti_usage i) (ti_reserved i)) (\<lambda>subtotal.
               Option.bind (dec_checked_add h subtotal (ti_requested i)) (\<lambda>tot.
                 threshold_intervention h i Decimal l
                   (f_div h (decimal_to_f64 h tot) (decimal_to_f64 h l)))))"

definition threshold_integer ::
  "('d, 'f) host_ops \<Rightarrow> (u64, 'f) threshold_inputs \<Rightarrow> ('d, 'f) threshold_intervention option" where
  "threshold_integer h i =
     (case ti_limit i of
        None \<Rightarrow> None
      | Some l \<Rightarrow>
          if \<not> l > 0 then None
          else
            (let tot = sat_add (sat_add (ti_usage i) (ti_reserved i)) (ti_requested i)
             in threshold_intervention h i Integer l
                  (f_div h (f_of_u64 h tot) (f_of_u64 h l))))"

definition absorb ::
  "('d, 'f) threshold_intervention
    \<Rightarrow> ('d, 'f) budget_warning list \<times> ('d, 'f) resource_approval_needed option
    \<Rightarrow> ('d, 'f) budget_warning list \<times> ('d, 'f) resource_approval_needed option" where
  "absorb iv acc =
     (let (warnings, approval) = acc in
      case iv of
        TWarning w \<Rightarrow> (warnings @ [w], approval)
      | TApproval n \<Rightarrow>
          (warnings @ [\<lparr>bw_account = apn_account n, bw_dimension = apn_dimension n,
                        bw_utilization = apn_utilization n, bw_limit = apn_limit n,
                        bw_period_end = apn_period_end n\<rparr>],
           (case approval of None \<Rightarrow> Some n | Some _ \<Rightarrow> approval)))"

definition absorb_option ::
  "('d, 'f) threshold_intervention option
    \<Rightarrow> ('d, 'f) budget_warning list \<times> ('d, 'f) resource_approval_needed option
    \<Rightarrow> ('d, 'f) budget_warning list \<times> ('d, 'f) resource_approval_needed option" where
  "absorb_option iv acc = (case iv of None \<Rightarrow> acc | Some v \<Rightarrow> absorb v acc)"

definition integer_dims :: "resource_dimension list" where
  "integer_dims =
     [InputTokens, OutputTokens, WallClockMs, OutputBytes, NetworkEgressBytes, ProcessCount,
      ConcurrencySlots]"

definition check_thresholds_all_interventions ::
  "('d::linorder, 'f) host_ops \<Rightarrow> resource_account \<Rightarrow> ('d, 'f) resource_limits
    \<Rightarrow> 'd resource_tally \<Rightarrow> 'd resource_tally \<Rightarrow> 'd resource_tally \<Rightarrow> instant option
    \<Rightarrow> ('d, 'f) budget_warning list \<times> ('d, 'f) resource_approval_needed option" where
  "check_thresholds_all_interventions h acct l usage reserved requested period_end =
     (if f_ge h (pause_at (thresholds l)) (f_one h) \<and> f_ge h (warn_at (thresholds l)) (f_one h)
      then ([], None)
      else
        (let dec = threshold_decimal h
               \<lparr>ti_account = acct, ti_dimension = Usd, ti_limit = max_usd l,
                ti_usage = tal_usd usage, ti_reserved = tal_usd reserved,
                ti_requested = tal_usd requested, ti_thresholds = thresholds l,
                ti_period_end = period_end\<rparr>;
             ints = map (\<lambda>dim. threshold_integer h
               \<lparr>ti_account = acct, ti_dimension = dim, ti_limit = dim_limit dim l,
                ti_usage = dim_of dim usage, ti_reserved = dim_of dim reserved,
                ti_requested = dim_of dim requested, ti_thresholds = thresholds l,
                ti_period_end = period_end\<rparr>)
               integer_dims
         in fold absorb_option ints (absorb_option dec ([], None))))"

section \<open>One account of the cascade\<close>

datatype ('d, 'f) cascade_outcome =
    Allow "('d, 'f) budget_warning list"
  | NeedsApproval "('d, 'f) budget_warning list" "('d, 'f) resource_approval_needed"
  | Deny "('d, 'f) budget_warning list" "'d resource_denial"

definition evaluate_cascade_for_account ::
  "('d::linorder, 'f) host_ops \<Rightarrow> resource_account \<Rightarrow> ('d, 'f) resource_limits
    \<Rightarrow> 'd resource_tally \<Rightarrow> 'd resource_tally \<Rightarrow> 'd resource_tally \<Rightarrow> instant option
    \<Rightarrow> ('d, 'f) cascade_outcome" where
  "evaluate_cascade_for_account h acct l usage reserved requested period_end =
     (let (warnings, approval) =
        check_thresholds_all_interventions h acct l usage reserved requested period_end
      in case check_limits_first_denial h acct l usage reserved requested of
           Some denial \<Rightarrow> Deny warnings denial
         | None \<Rightarrow>
             (case approval of
                Some needed \<Rightarrow> NeedsApproval warnings needed
              | None \<Rightarrow> Allow warnings))"

section \<open>What the hard check guarantees\<close>

lemma check_integer_None:
  "check_integer acct dim limit usage reserved requested = None \<longleftrightarrow>
     (\<forall>l. limit = Some l \<longrightarrow> 0 < l \<longrightarrow> unat usage + unat reserved + unat requested \<le> unat l
                                     \<or> unat l = 2 ^ 64 - 1)"
proof (cases limit)
  case (Some l)
  have "\<not> sat_add (sat_add usage reserved) requested > l \<longleftrightarrow>
      unat usage + unat reserved + unat requested \<le> unat l \<or> unat l = 2 ^ 64 - 1"
    using unat_u64_le [of l] by (auto simp: word_less_nat_alt word_nat not_less min_le_iff_disj)
  with Some show ?thesis by (auto simp: check_integer_def)
qed (simp add: check_integer_def)

lemma all_integer_dims:
  "(\<forall>d. d \<noteq> Usd \<longrightarrow> P d) \<longleftrightarrow>
     P InputTokens \<and> P OutputTokens \<and> P WallClockMs \<and> P OutputBytes \<and> P NetworkEgressBytes
     \<and> P ProcessCount \<and> P ConcurrencySlots"
  by (metis (full_types) resource_dimension.exhaust resource_dimension.distinct(1,3,5,7,9,11,13))

text \<open>The chain of the source denies iff the decimal check or one integer dimension denies.\<close>

lemma check_limits_None:
  "check_limits_first_denial h acct l usage reserved requested = None \<longleftrightarrow>
     check_decimal h acct Usd (max_usd l) (tal_usd usage) (tal_usd reserved) (tal_usd requested) = None
     \<and> (\<forall>d. d \<noteq> Usd \<longrightarrow>
          (check_integer acct d (dim_limit d l) (dim_of d usage) (dim_of d reserved)
             (dim_of d requested) :: 'd resource_denial option) = None)"
  for h :: "('d::linorder, 'f) host_ops"
  by (simp add: check_limits_first_denial_def all_integer_dims)

text \<open>
  With no denial, usage plus holds plus the request fits under every positive integer limit. The
  sum is exact: saturation can hide an overrun only for the limit \<open>u64::MAX\<close>.
\<close>

lemma no_denial_fits:
  assumes "check_limits_first_denial h acct l usage reserved requested = None"
    and "d \<noteq> Usd" and "dim_limit d l = Some x" and "0 < x" and "unat x < 2 ^ 64 - 1"
  shows "dim_nat d usage + dim_nat d reserved + dim_nat d requested \<le> unat x"
  using assms unfolding check_limits_None check_integer_None dim_nat_def by fastforce

text \<open>A limit of zero, like an absent one, never denies and never warns.\<close>

lemma unlimited_dims:
  "is_unlimited h l \<Longrightarrow> d \<noteq> Usd \<Longrightarrow> dim_limit d l = None \<or> dim_limit d l = Some 0"
  by (cases d) (auto simp: is_unlimited_def is_integer_unlimited_def)

lemma unlimited_no_denial:
  fixes h :: "('d::linorder, 'f) host_ops"
  assumes "is_unlimited h l"
  shows "check_limits_first_denial h acct l usage reserved requested = None"
proof -
  have "check_decimal h acct Usd (max_usd l) u r q = None" for u r q
    using assms
    by (auto simp: check_decimal_def is_unlimited_def is_decimal_unlimited_def split: option.splits)
  moreover have "check_integer acct d (dim_limit d l) u r q = (None :: 'd resource_denial option)"
    if "d \<noteq> Usd" for d u r q
    using unlimited_dims [OF assms that] by (auto simp: check_integer_def)
  ultimately show ?thesis by (simp add: check_limits_None)
qed

lemma fold_absorb_None:
  "\<forall>d \<in> set ds. f d = None \<Longrightarrow> fold absorb_option (map f ds) acc = acc"
  by (induction ds) (auto simp: absorb_option_def)

lemma unlimited_no_intervention:
  assumes "is_unlimited h l"
  shows "check_thresholds_all_interventions h acct l usage reserved requested pe = ([], None)"
proof -
  have "threshold_decimal h i = None" if "ti_limit i = max_usd l" for i
    using assms that
    by (auto simp: threshold_decimal_def is_unlimited_def is_decimal_unlimited_def
             split: option.splits)
  moreover have "threshold_integer h i = None"
    if "d \<in> set integer_dims" and "ti_limit i = dim_limit d l" for d i
    using unlimited_dims [OF assms, of d] that
    by (auto simp: threshold_integer_def integer_dims_def)
  ultimately show ?thesis
    by (simp add: check_thresholds_all_interventions_def Let_def absorb_option_def fold_absorb_None)
qed

lemma unlimited_allows:
  "is_unlimited h l \<Longrightarrow> evaluate_cascade_for_account h acct l u r q pe = Allow []"
  by (simp add: evaluate_cascade_for_account_def unlimited_no_denial unlimited_no_intervention)

lemma evaluate_Allow:
  "evaluate_cascade_for_account h acct l u r q pe = Allow ws \<Longrightarrow>
     check_limits_first_denial h acct l u r q = None"
  by (auto simp: evaluate_cascade_for_account_def split: option.splits prod.splits)

lemma evaluate_NeedsApproval:
  "evaluate_cascade_for_account h acct l u r q pe = NeedsApproval ws n \<Longrightarrow>
     check_limits_first_denial h acct l u r q = None
     \<and> snd (check_thresholds_all_interventions h acct l u r q pe) = Some n"
  by (auto simp: evaluate_cascade_for_account_def split: option.splits prod.splits)

lemma evaluate_Deny:
  "evaluate_cascade_for_account h acct l u r q pe = Deny ws dn \<Longrightarrow>
     check_limits_first_denial h acct l u r q = Some dn"
  by (auto simp: evaluate_cascade_for_account_def split: option.splits prod.splits)

lemma evaluate_Deny_iff:
  "(\<exists>ws dn. evaluate_cascade_for_account h acct l u r q pe = Deny ws dn) \<longleftrightarrow>
     check_limits_first_denial h acct l u r q \<noteq> None"
  by (auto simp: evaluate_cascade_for_account_def split: option.splits prod.splits)

end
