(* ===== verification/Resource_Governor.thy ===== *)
theory Resource_Governor
  imports Resource_Checks
begin

text \<open>
  The reservation protocol of the governor (\<open>ironclaw_resources/src/lib.rs\<close>): the state kept
  per account and per reservation, and the operations \<open>set_limit\<close>, \<open>reserve\<close>, \<open>reconcile\<close>,
  \<open>release\<close> and the account snapshot. Each operation takes the state and the clock reading and
  returns the new state beside the result, because a failing \<open>reserve\<close> has already rolled over
  the periods of its accounts.
\<close>

section \<open>State\<close>

record 'd resource_reservation =
  rsv_id :: reservation_id
  rsv_scope :: resource_scope
  rsv_estimate :: "'d resource_estimate"

record 'd resource_receipt =
  rcp_id :: reservation_id
  rcp_scope :: resource_scope
  rcp_status :: reservation_status
  rcp_estimate :: "'d resource_estimate"
  rcp_actual :: "'d resource_usage option"

record 'd reservation_record =
  rec_reservation :: "'d resource_reservation"
  rec_accounts :: "resource_account list"
  rec_tally :: "'d resource_tally"
  rec_status :: reservation_status
  rec_actual :: "'d resource_usage option"

record ('d, 'f) reservation_outcome =
  out_reservation :: "'d resource_reservation"
  out_warnings :: "('d, 'f) budget_warning list"

record ('d, 'f) resource_state =
  limits :: "(resource_account, ('d, 'f) resource_limits) hmap"
  reserved_by_account :: "(resource_account, 'd resource_tally) hmap"
  usage_by_account :: "(resource_account, 'd resource_tally) hmap"
  reservations :: "(reservation_id, 'd reservation_record) hmap"
  period_anchors :: "(resource_account, instant) hmap"

definition state_default :: "('d, 'f) resource_state" where
  "state_default =
     \<lparr>limits = hempty, reserved_by_account = hempty, usage_by_account = hempty,
      reservations = hempty, period_anchors = hempty\<rparr>"

definition tally_at ::
  "('d, 'f) host_ops \<Rightarrow> (resource_account, 'd resource_tally) hmap \<Rightarrow> resource_account
    \<Rightarrow> 'd resource_tally" where
  "tally_at h m a = unwrap_or (hget m a) (tally_default h)"

definition tally_entry_add ::
  "('d, 'f) host_ops \<Rightarrow> 'd resource_tally \<Rightarrow> resource_account
    \<Rightarrow> (resource_account, 'd resource_tally) hmap
    \<Rightarrow> (resource_account, 'd resource_tally) hmap" where
  "tally_entry_add h t a m = hput a (tally_add h (tally_at h m a) t) m"

definition tally_entry_sub ::
  "('d::linorder, 'f) host_ops \<Rightarrow> 'd resource_tally \<Rightarrow> resource_account
    \<Rightarrow> (resource_account, 'd resource_tally) hmap
    \<Rightarrow> (resource_account, 'd resource_tally) hmap" where
  "tally_entry_sub h t a m = hput a (tally_sub h (tally_at h m a) t) m"

section \<open>Limits and periods\<close>

definition set_limit_in_state ::
  "('d, 'f) host_ops \<Rightarrow> ('d, 'f) resource_state \<Rightarrow> resource_account \<Rightarrow> ('d, 'f) resource_limits
    \<Rightarrow> instant \<Rightarrow> ('d, 'f) resource_state" where
  "set_limit_in_state h st a l now =
     (let prior_period = map_option period (hget (limits st) a);
          new_period = period l;
          st1 = (if prior_period \<noteq> Some new_period
                 then st\<lparr>usage_by_account := hdel a (usage_by_account st),
                         period_anchors := hdel a (period_anchors st)\<rparr>
                 else st)
      in st1\<lparr>limits := hput a l (limits st1),
             period_anchors := hput a (snd (period_bounds h new_period now)) (period_anchors st1)\<rparr>)"

definition advance_period_if_rolled_over ::
  "('d, 'f) host_ops \<Rightarrow> instant \<Rightarrow> resource_account \<Rightarrow> ('d, 'f) resource_state
    \<Rightarrow> ('d, 'f) resource_state" where
  "advance_period_if_rolled_over h now a st =
     (case hget (limits st) a of
        None \<Rightarrow> st
      | Some l \<Rightarrow>
          if period l = PerInvocation then st
          else
            (let needs_advance =
               (case hget (period_anchors st) a of
                  Some anchor \<Rightarrow> period_has_rolled_over anchor now
                | None \<Rightarrow> True)
             in if needs_advance
                then st\<lparr>usage_by_account := hdel a (usage_by_account st),
                        period_anchors :=
                          hput a (snd (period_bounds h (period l) now)) (period_anchors st)\<rparr>
                else st))"

section \<open>Reserve\<close>

fun evaluate_accounts ::
  "('d::linorder, 'f) host_ops \<Rightarrow> ('d, 'f) resource_state \<Rightarrow> 'd resource_tally
    \<Rightarrow> resource_account list \<Rightarrow> ('d, 'f) budget_warning list
    \<Rightarrow> ('d, 'f) resource_error + ('d, 'f) budget_warning list" where
  "evaluate_accounts h st requested [] warnings = Ok warnings"
| "evaluate_accounts h st requested (a # as) warnings =
     (case hget (limits st) a of
        None \<Rightarrow> evaluate_accounts h st requested as warnings
      | Some l \<Rightarrow>
          (case evaluate_cascade_for_account h a l
                  (tally_at h (usage_by_account st) a) (tally_at h (reserved_by_account st) a)
                  requested (hget (period_anchors st) a) of
             Allow ws \<Rightarrow> evaluate_accounts h st requested as (warnings @ ws)
           | NeedsApproval ws needed \<Rightarrow> Err (RequiresApproval needed (warnings @ ws))
           | Deny ws denial \<Rightarrow> Err (LimitExceeded denial (warnings @ ws))))"

definition reserve_with_outcome_in_state ::
  "('d::linorder, 'f) host_ops \<Rightarrow> ('d, 'f) resource_state \<Rightarrow> resource_scope
    \<Rightarrow> 'd resource_estimate \<Rightarrow> reservation_id \<Rightarrow> instant
    \<Rightarrow> ('d, 'f) resource_state \<times> (('d, 'f) resource_error + ('d, 'f) reservation_outcome)" where
  "reserve_with_outcome_in_state h st sc est rid now =
     (case validate_estimate h est of
        Inl e \<Rightarrow> (st, Err e)
      | Inr _ \<Rightarrow>
          if hcontains (reservations st) rid then (st, Err (ReservationAlreadyExists rid))
          else
            (let accounts = cascade sc;
                 requested = tally_from_estimate h est;
                 st1 = fold (advance_period_if_rolled_over h now) accounts st
             in case evaluate_accounts h st1 requested accounts [] of
                  Inl e \<Rightarrow> (st1, Err e)
                | Inr warnings \<Rightarrow>
                    (let reservation = \<lparr>rsv_id = rid, rsv_scope = sc, rsv_estimate = est\<rparr>;
                         st2 = st1\<lparr>reserved_by_account :=
                           fold (tally_entry_add h requested) accounts (reserved_by_account st1)\<rparr>;
                         st3 = st2\<lparr>reservations := hput rid
                           \<lparr>rec_reservation = reservation, rec_accounts = accounts,
                            rec_tally = requested, rec_status = Active, rec_actual = None\<rparr>
                           (reservations st2)\<rparr>
                     in (st3, Ok \<lparr>out_reservation = reservation, out_warnings = warnings\<rparr>))))"

section \<open>Reconcile and release\<close>

text \<open>
  The source takes the record out of the map and puts it back on every path, so a failing call
  leaves the map as it was; the model reads the record and replaces it on success.
\<close>

definition reconcile_account ::
  "('d::linorder, 'f) host_ops \<Rightarrow> instant \<Rightarrow> 'd resource_tally \<Rightarrow> 'd resource_usage
    \<Rightarrow> resource_account \<Rightarrow> ('d, 'f) resource_state \<Rightarrow> ('d, 'f) resource_state" where
  "reconcile_account h now tally actual a st =
     (let st1 = advance_period_if_rolled_over h now a st
      in st1\<lparr>reserved_by_account := tally_entry_sub h tally a (reserved_by_account st1),
             usage_by_account :=
               tally_entry_add h (tally_from_usage actual) a (usage_by_account st1)\<rparr>)"

definition release_account ::
  "('d::linorder, 'f) host_ops \<Rightarrow> instant \<Rightarrow> 'd resource_tally \<Rightarrow> resource_account
    \<Rightarrow> ('d, 'f) resource_state \<Rightarrow> ('d, 'f) resource_state" where
  "release_account h now tally a st =
     (let st1 = advance_period_if_rolled_over h now a st
      in st1\<lparr>reserved_by_account := tally_entry_sub h tally a (reserved_by_account st1)\<rparr>)"

definition reconcile_in_state ::
  "('d::linorder, 'f) host_ops \<Rightarrow> ('d, 'f) resource_state \<Rightarrow> reservation_id \<Rightarrow> 'd resource_usage
    \<Rightarrow> instant \<Rightarrow> ('d, 'f) resource_state \<times> (('d, 'f) resource_error + 'd resource_receipt)" where
  "reconcile_in_state h st rid actual now =
     (case hget (reservations st) rid of
        None \<Rightarrow> (st, Err (UnknownReservation rid))
      | Some rec \<Rightarrow>
          if rec_status rec \<noteq> Active then (st, Err (ReservationClosed rid (rec_status rec)))
          else
            (case validate_usage h actual of
               Inl e \<Rightarrow> (st, Err e)
             | Inr _ \<Rightarrow>
                 (let st1 = fold (reconcile_account h now (rec_tally rec) actual)
                              (rec_accounts rec) st;
                      rec' = rec\<lparr>rec_status := Reconciled, rec_actual := Some actual\<rparr>
                  in (st1\<lparr>reservations := hput rid rec' (reservations st1)\<rparr>,
                      Ok \<lparr>rcp_id = rid, rcp_scope = rsv_scope (rec_reservation rec),
                          rcp_status = Reconciled,
                          rcp_estimate = rsv_estimate (rec_reservation rec),
                          rcp_actual = Some actual\<rparr>))))"

definition release_in_state ::
  "('d::linorder, 'f) host_ops \<Rightarrow> ('d, 'f) resource_state \<Rightarrow> reservation_id \<Rightarrow> instant
    \<Rightarrow> ('d, 'f) resource_state \<times> (('d, 'f) resource_error + 'd resource_receipt)" where
  "release_in_state h st rid now =
     (case hget (reservations st) rid of
        None \<Rightarrow> (st, Err (UnknownReservation rid))
      | Some rec \<Rightarrow>
          if rec_status rec \<noteq> Active then (st, Err (ReservationClosed rid (rec_status rec)))
          else
            (let st1 = fold (release_account h now (rec_tally rec)) (rec_accounts rec) st;
                 rec' = rec\<lparr>rec_status := Released\<rparr>
             in (st1\<lparr>reservations := hput rid rec' (reservations st1)\<rparr>,
                 Ok \<lparr>rcp_id = rid, rcp_scope = rsv_scope (rec_reservation rec),
                     rcp_status = Released, rcp_estimate = rsv_estimate (rec_reservation rec),
                     rcp_actual = None\<rparr>)))"

section \<open>Account snapshot\<close>

record 'd period_ledger =
  period_start :: instant
  period_end :: instant
  spent :: "'d resource_tally"
  reserved :: "'d resource_tally"

record ('d, 'f) account_snapshot =
  snap_account :: resource_account
  snap_limits :: "('d, 'f) resource_limits option"
  snap_ledger :: "'d period_ledger"

definition account_snapshot_in_state ::
  "('d, 'f) host_ops \<Rightarrow> ('d, 'f) resource_state \<Rightarrow> resource_account \<Rightarrow> instant
    \<Rightarrow> ('d, 'f) resource_state \<times> ('d, 'f) account_snapshot option" where
  "account_snapshot_in_state h st a now =
     (let st1 = advance_period_if_rolled_over h now a st;
          lim = hget (limits st1) a;
          res = tally_at h (reserved_by_account st1) a;
          spt = tally_at h (usage_by_account st1) a
      in if lim = None \<and> res = tally_default h \<and> spt = tally_default h then (st1, None)
         else
           (let per = (case lim of None \<Rightarrow> PerInvocation | Some l \<Rightarrow> period l);
                bounds = (case (hget (period_anchors st1) a, per) of
                            (Some e, Rolling24h) \<Rightarrow> (e - hours24, e)
                          | _ \<Rightarrow> period_bounds h per now)
            in (st1, Some \<lparr>snap_account = a, snap_limits = lim,
                           snap_ledger = \<lparr>period_start = fst bounds, period_end = snd bounds,
                                          spent = spt, reserved = res\<rparr>\<rparr>)))"

section \<open>Frame lemmas\<close>

lemmas state_op_defs =
  reserve_with_outcome_in_state_def reconcile_in_state_def release_in_state_def

lemma advance_frame [simp]:
  "limits (advance_period_if_rolled_over h now a st) = limits st"
  "reserved_by_account (advance_period_if_rolled_over h now a st) = reserved_by_account st"
  "reservations (advance_period_if_rolled_over h now a st) = reservations st"
  by (auto simp: advance_period_if_rolled_over_def Let_def split: option.splits)

lemma fold_advance_frame [simp]:
  "limits (fold (advance_period_if_rolled_over h now) as st) = limits st"
  "reserved_by_account (fold (advance_period_if_rolled_over h now) as st) = reserved_by_account st"
  "reservations (fold (advance_period_if_rolled_over h now) as st) = reservations st"
  by (induction as arbitrary: st) auto

lemma set_limit_frame [simp]:
  "reserved_by_account (set_limit_in_state h st a l now) = reserved_by_account st"
  "reservations (set_limit_in_state h st a l now) = reservations st"
  by (auto simp: set_limit_in_state_def Let_def)

lemma release_account_frame [simp]:
  "limits (release_account h now t a st) = limits st"
  "reservations (release_account h now t a st) = reservations st"
  "reserved_by_account (release_account h now t a st)
     = tally_entry_sub h t a (reserved_by_account st)"
  by (auto simp: release_account_def Let_def)

lemma reconcile_account_frame [simp]:
  "limits (reconcile_account h now t u a st) = limits st"
  "reservations (reconcile_account h now t u a st) = reservations st"
  "reserved_by_account (reconcile_account h now t u a st)
     = tally_entry_sub h t a (reserved_by_account st)"
  by (auto simp: reconcile_account_def Let_def)

lemma fold_release_frame [simp]:
  "limits (fold (release_account h now t) as st) = limits st"
  "reservations (fold (release_account h now t) as st) = reservations st"
  "reserved_by_account (fold (release_account h now t) as st)
     = fold (tally_entry_sub h t) as (reserved_by_account st)"
  by (induction as arbitrary: st) auto

lemma fold_reconcile_frame [simp]:
  "limits (fold (reconcile_account h now t u) as st) = limits st"
  "reservations (fold (reconcile_account h now t u) as st) = reservations st"
  "reserved_by_account (fold (reconcile_account h now t u) as st)
     = fold (tally_entry_sub h t) as (reserved_by_account st)"
  by (induction as arbitrary: st) auto

lemma snapshot_frame [simp]:
  "limits (fst (account_snapshot_in_state h st a now)) = limits st"
  "reserved_by_account (fst (account_snapshot_in_state h st a now)) = reserved_by_account st"
  "reservations (fst (account_snapshot_in_state h st a now)) = reservations st"
  by (auto simp: account_snapshot_in_state_def Let_def)

section \<open>Tally entries\<close>

lemma tally_at_add [simp]:
  "tally_at h (tally_entry_add h t a m) b
     = (if b = a then tally_add h (tally_at h m a) t else tally_at h m b)"
  by (auto simp: tally_at_def tally_entry_add_def hmap_simps)

lemma tally_at_sub [simp]:
  "tally_at h (tally_entry_sub h t a m) b
     = (if b = a then tally_sub h (tally_at h m a) t else tally_at h m b)"
  by (auto simp: tally_at_def tally_entry_sub_def hmap_simps)

lemma tally_at_fold_add:
  "distinct as \<Longrightarrow> tally_at h (fold (tally_entry_add h t) as m) b
     = (if b \<in> set as then tally_add h (tally_at h m b) t else tally_at h m b)"
  by (induction as arbitrary: m) auto

lemma tally_at_fold_sub:
  "distinct as \<Longrightarrow> tally_at h (fold (tally_entry_sub h t) as m) b
     = (if b \<in> set as then tally_sub h (tally_at h m b) t else tally_at h m b)"
  by (induction as arbitrary: m) auto

section \<open>Success and failure of the operations\<close>

lemma reserve_Ok:
  assumes "reserve_with_outcome_in_state h st sc est rid now = (st', Ok out)"
  obtains ws where
    "validate_estimate h est = Ok ()" and "hget (reservations st) rid = None"
    and "evaluate_accounts h (fold (advance_period_if_rolled_over h now) (cascade sc) st)
           (tally_from_estimate h est) (cascade sc) [] = Ok ws"
    and "out = \<lparr>out_reservation = \<lparr>rsv_id = rid, rsv_scope = sc, rsv_estimate = est\<rparr>,
                out_warnings = ws\<rparr>"
    and "limits st' = limits st"
    and "usage_by_account st'
           = usage_by_account (fold (advance_period_if_rolled_over h now) (cascade sc) st)"
    and "reserved_by_account st'
           = fold (tally_entry_add h (tally_from_estimate h est)) (cascade sc)
               (reserved_by_account st)"
    and "reservations st' = hput rid
           \<lparr>rec_reservation = \<lparr>rsv_id = rid, rsv_scope = sc, rsv_estimate = est\<rparr>,
            rec_accounts = cascade sc, rec_tally = tally_from_estimate h est,
            rec_status = Active, rec_actual = None\<rparr> (reservations st)"
  using assms
  by (auto simp: reserve_with_outcome_in_state_def Let_def hcontains_def
           split: sum.splits if_splits)

lemma reserve_Err:
  assumes "reserve_with_outcome_in_state h st sc est rid now = (st', Err e)"
  shows "limits st' = limits st" and "reserved_by_account st' = reserved_by_account st"
    and "reservations st' = reservations st"
  using assms
  by (auto simp: reserve_with_outcome_in_state_def Let_def split: sum.splits if_splits)

lemma close_Err:
  "reconcile_in_state h st rid u now = (st', Err e) \<Longrightarrow> st' = st"
  "release_in_state h st rid now = (st', Err e) \<Longrightarrow> st' = st"
  by (auto simp: reconcile_in_state_def release_in_state_def Let_def
           split: option.splits sum.splits if_splits)

lemma reconcile_Ok:
  assumes "reconcile_in_state h st rid u now = (st', Ok r)"
  obtains rec where "hget (reservations st) rid = Some rec" and "rec_status rec = Active"
    and "\<not> use_usd u < dec_zero h"
    and "limits st' = limits st"
    and "reserved_by_account st'
           = fold (tally_entry_sub h (rec_tally rec)) (rec_accounts rec) (reserved_by_account st)"
    and "reservations st'
           = hput rid (rec\<lparr>rec_status := Reconciled, rec_actual := Some u\<rparr>) (reservations st)"
    and "rcp_id r = rid" and "rcp_status r = Reconciled" and "rcp_actual r = Some u"
    and "rcp_scope r = rsv_scope (rec_reservation rec)"
  using assms
  by (auto simp: reconcile_in_state_def validate_usage_def Let_def
           split: option.splits sum.splits if_splits)

lemma release_Ok:
  assumes "release_in_state h st rid now = (st', Ok r)"
  obtains rec where "hget (reservations st) rid = Some rec" and "rec_status rec = Active"
    and "limits st' = limits st"
    and "reserved_by_account st'
           = fold (tally_entry_sub h (rec_tally rec)) (rec_accounts rec) (reserved_by_account st)"
    and "reservations st' = hput rid (rec\<lparr>rec_status := Released\<rparr>) (reservations st)"
    and "rcp_id r = rid" and "rcp_status r = Released" and "rcp_actual r = None"
    and "rcp_scope r = rsv_scope (rec_reservation rec)"
  using assms
  by (auto simp: release_in_state_def Let_def split: option.splits if_splits)

lemma evaluate_accounts_Ok:
  "evaluate_accounts h st q as ws = Ok ws' \<Longrightarrow> a \<in> set as \<Longrightarrow> hget (limits st) a = Some l \<Longrightarrow>
     check_limits_first_denial h a l (tally_at h (usage_by_account st) a)
       (tally_at h (reserved_by_account st) a) q = None"
  by (induction h st q as ws rule: evaluate_accounts.induct)
     (auto split: option.splits cascade_outcome.splits dest: evaluate_Allow)

end
