(* ===== verification/Budget_Gate.thy ===== *)
theory Budget_Gate
  imports Resource_Governor
begin

text \<open>
  Budget approval gates (\<open>ironclaw_resources/src/gate.rs\<close>): the status of a gate, the strict
  wire decoder of the status, and the in-memory gate store.
\<close>

section \<open>Gates\<close>

type_synonym budget_gate_id = uuid

datatype ('d, 'f) budget_gate_status =
    GPending
  | GApproved "('d, 'f) resource_limits" user_id instant
  | GCancelled user_id instant
  | GExpired instant

record ('d, 'f) budget_approval_gate =
  gate_id :: budget_gate_id
  gate_needed :: "('d, 'f) resource_approval_needed"
  gate_opened_at :: instant
  gate_expires_at :: instant
  gate_status :: "('d, 'f) budget_gate_status"

datatype ('d, 'f) budget_gate_outcome =
    Approve "('d, 'f) resource_limits" user_id
  | Cancel user_id

datatype budget_gate_error =
    GateUnknown budget_gate_id
  | GateAlreadyResolved budget_gate_id
  | GateStorage string

definition is_terminal :: "('d, 'f) budget_gate_status \<Rightarrow> bool" where
  "is_terminal s = (s \<noteq> GPending)"

section \<open>Wire form of the status\<close>

datatype status_kind = KPending | KApproved | KCancelled | KExpired

record ('d, 'f) status_wire =
  wire_kind :: status_kind
  wire_increased_limit :: "('d, 'f) resource_limits option"
  wire_by :: "user_id option"
  wire_at :: "instant option"

datatype decode_error = MissingField string | Custom string

definition required :: "'a option \<Rightarrow> string \<Rightarrow> decode_error + 'a" where
  "required v field = (case v of Some x \<Rightarrow> Ok x | None \<Rightarrow> Err (MissingField field))"

fun gate_status_serialize :: "('d, 'f) budget_gate_status \<Rightarrow> ('d, 'f) status_wire" where
  "gate_status_serialize GPending =
     \<lparr>wire_kind = KPending, wire_increased_limit = None, wire_by = None, wire_at = None\<rparr>"
| "gate_status_serialize (GApproved l u t) =
     \<lparr>wire_kind = KApproved, wire_increased_limit = Some l, wire_by = Some u, wire_at = Some t\<rparr>"
| "gate_status_serialize (GCancelled u t) =
     \<lparr>wire_kind = KCancelled, wire_increased_limit = None, wire_by = Some u, wire_at = Some t\<rparr>"
| "gate_status_serialize (GExpired t) =
     \<lparr>wire_kind = KExpired, wire_increased_limit = None, wire_by = None, wire_at = Some t\<rparr>"

definition gate_status_deserialize ::
  "('d, 'f) status_wire \<Rightarrow> decode_error + ('d, 'f) budget_gate_status" where
  "gate_status_deserialize w =
     (case wire_kind w of
        KPending \<Rightarrow>
          if wire_increased_limit w \<noteq> None \<or> wire_by w \<noteq> None \<or> wire_at w \<noteq> None
          then Err (Custom ''pending budget gate status must not include terminal fields'')
          else Ok GPending
      | KApproved \<Rightarrow>
          rbind (required (wire_increased_limit w) ''increased_limit'') (\<lambda>l.
          rbind (required (wire_by w) ''by'') (\<lambda>u.
          rbind (required (wire_at w) ''at'') (\<lambda>t. Ok (GApproved l u t))))
      | KCancelled \<Rightarrow>
          if wire_increased_limit w \<noteq> None
          then Err (Custom ''cancelled budget gate status must not include increased_limit'')
          else rbind (required (wire_by w) ''by'') (\<lambda>u.
               rbind (required (wire_at w) ''at'') (\<lambda>t. Ok (GCancelled u t)))
      | KExpired \<Rightarrow>
          if wire_increased_limit w \<noteq> None \<or> wire_by w \<noteq> None
          then Err (Custom ''expired budget gate status must not include approval fields'')
          else rbind (required (wire_at w) ''at'') (\<lambda>t. Ok (GExpired t)))"

section \<open>The in-memory gate store\<close>

type_synonym ('d, 'f) gate_store = "(budget_gate_id, ('d, 'f) budget_approval_gate) hmap"

definition gate_open ::
  "('d, 'f) gate_store \<Rightarrow> resource_scope \<Rightarrow> ('d, 'f) budget_approval_gate
    \<Rightarrow> ('d, 'f) gate_store \<times> (budget_gate_error + unit)" where
  "gate_open m sc g = (hput (gate_id g) g m, Ok ())"

definition gate_resolve ::
  "('d, 'f) gate_store \<Rightarrow> resource_scope \<Rightarrow> budget_gate_id \<Rightarrow> ('d, 'f) budget_gate_outcome
    \<Rightarrow> instant
    \<Rightarrow> ('d, 'f) gate_store \<times> (budget_gate_error + ('d, 'f) budget_approval_gate)" where
  "gate_resolve m sc i outcome t =
     (case hget m i of
        None \<Rightarrow> (m, Err (GateUnknown i))
      | Some g \<Rightarrow>
          if is_terminal (gate_status g) then (m, Err (GateAlreadyResolved i))
          else
            (let g' = g\<lparr>gate_status :=
                 (case outcome of Approve l u \<Rightarrow> GApproved l u t | Cancel u \<Rightarrow> GCancelled u t)\<rparr>
             in (hput i g' m, Ok g')))"

definition expire_gate ::
  "instant \<Rightarrow> ('d, 'f) budget_approval_gate \<Rightarrow> ('d, 'f) budget_approval_gate" where
  "expire_gate cutoff g =
     (if gate_status g = GPending \<and> gate_expires_at g \<le> cutoff
      then g\<lparr>gate_status := GExpired cutoff\<rparr> else g)"

fun gate_expire_pending_older_than ::
  "('d, 'f) gate_store \<Rightarrow> resource_scope \<Rightarrow> instant
    \<Rightarrow> ('d, 'f) gate_store \<times> (budget_gate_error + ('d, 'f) budget_approval_gate list)" where
  "gate_expire_pending_older_than m sc cutoff =
     (map (\<lambda>(i, g). (i, expire_gate cutoff g)) m,
      Ok (map (expire_gate cutoff)
            (filter (\<lambda>g. gate_status g = GPending \<and> gate_expires_at g \<le> cutoff) (hvalues m))))"

definition gate_get ::
  "('d, 'f) gate_store \<Rightarrow> resource_scope \<Rightarrow> budget_gate_id
    \<Rightarrow> budget_gate_error + ('d, 'f) budget_approval_gate option" where
  "gate_get m sc i = Ok (hget m i)"

definition gate_list_pending ::
  "('d, 'f) gate_store \<Rightarrow> resource_scope
    \<Rightarrow> budget_gate_error + ('d, 'f) budget_approval_gate list" where
  "gate_list_pending m sc = Ok (filter (\<lambda>g. gate_status g = GPending) (hvalues m))"

section \<open>Transitions of one gate\<close>

text \<open>
  What the store may do to one gate while it is known: resolve it or let it expire, both only from
  \<open>GPending\<close>. Re-opening an identifier overwrites it and is a separate operation.
\<close>

datatype ('d, 'f) gate_op =
    GResolve budget_gate_id "('d, 'f) budget_gate_outcome" instant
  | GExpire instant

fun gate_exec ::
  "resource_scope \<Rightarrow> ('d, 'f) gate_store \<Rightarrow> ('d, 'f) gate_op
    \<Rightarrow> ('d, 'f) gate_store \<times> (budget_gate_error + ('d, 'f) budget_approval_gate list)" where
  "gate_exec sc m (GResolve i outcome t) =
     (let (m', r) = gate_resolve m sc i outcome t
      in (m', rbind r (\<lambda>g. Ok [g])))"
| "gate_exec sc m (GExpire cutoff) = gate_expire_pending_older_than m sc cutoff"

lemma hget_map_values: "hget (map (\<lambda>(i, g). (i, f g)) m) k = map_option f (hget m k)"
  by (induction m) auto

lemma gate_exec_terminal_step:
  assumes "hget m i = Some g" and "is_terminal (gate_status g)"
  shows "hget (fst (gate_exec sc m x)) i = Some g"
  using assms
  by (cases x)
     (auto simp: gate_resolve_def Let_def hmap_simps hget_map_values expire_gate_def
        is_terminal_def split: option.splits)

lemma gate_exec_identity_step:
  assumes "hget m i = Some g"
  shows "\<exists>g'. hget (fst (gate_exec sc m x)) i = Some g' \<and> gate_id g' = gate_id g
           \<and> gate_needed g' = gate_needed g \<and> gate_expires_at g' = gate_expires_at g"
  using assms
  by (cases x)
     (auto simp: gate_resolve_def Let_def hmap_simps hget_map_values expire_gate_def
        split: option.splits)

section \<open>Gates over sequences of calls\<close>

text \<open>(C14) State machine of a gate: over any sequence of resolutions and expiry sweeps, a gate that
  is approved, cancelled or expired never changes again, and a pending gate keeps its identity,
  its request and its deadline.\<close>

theorem gate_terminal_is_final:
  assumes "hget m i = Some g"
  shows "(is_terminal (gate_status g) \<longrightarrow> hget (fst (run_ops (gate_exec sc) m xs)) i = Some g)
    \<and> (\<exists>g'. hget (fst (run_ops (gate_exec sc) m xs)) i = Some g' \<and> gate_id g' = gate_id g
           \<and> gate_needed g' = gate_needed g \<and> gate_expires_at g' = gate_expires_at g)"
proof
  show "is_terminal (gate_status g) \<longrightarrow> hget (fst (run_ops (gate_exec sc) m xs)) i = Some g"
    using assms
    by (auto intro: run_ops_invariant [where I = "\<lambda>m. hget m i = Some g"]
        gate_exec_terminal_step)
  show "\<exists>g'. hget (fst (run_ops (gate_exec sc) m xs)) i = Some g' \<and> gate_id g' = gate_id g
      \<and> gate_needed g' = gate_needed g \<and> gate_expires_at g' = gate_expires_at g"
    by (rule run_ops_invariant [where I = "\<lambda>m. \<exists>g'. hget m i = Some g' \<and> gate_id g' = gate_id g
          \<and> gate_needed g' = gate_needed g \<and> gate_expires_at g' = gate_expires_at g"])
       (use assms gate_exec_identity_step in \<open>auto, metis\<close>)
qed

theorem gate_terminal_is_final_witness:
  "let g = \<lparr>gate_id = 4,
            gate_needed = \<lparr>apn_account = AccTenant ''t'', apn_dimension = InputTokens,
              apn_limit = Integer 10, apn_current_usage = Integer 0,
              apn_active_reserved = Integer 0, apn_requested = Integer 9,
              apn_utilization = (900 :: int), apn_period_end = None\<rparr>,
            gate_opened_at = 0, gate_expires_at = 10, gate_status = GExpired 10\<rparr>
   in hget (fst (run_ops (gate_exec (system_scope 1)) [(4, g :: (int, int) budget_approval_gate)]
        [GExpire 20, GResolve 4 (Cancel ''u'') 21])) 4 = Some g"
  unfolding Let_def
  by (rule gate_terminal_is_final [THEN conjunct1, rule_format]) (simp_all add: is_terminal_def)

text \<open>Wire form of a gate status: the decoder accepts exactly what the encoder writes. Decoding
  inverts encoding, and a value with a missing field or a field of another variant is refused.\<close>

theorem gate_status_wire_exact:
  "gate_status_deserialize w = Ok s \<longleftrightarrow> w = gate_status_serialize s"
  by (cases w; cases s)
     (auto simp: gate_status_deserialize_def required_def rbind_eq_Inr
       split: status_kind.splits option.splits if_splits)

end
