(* ===== verification/Memory_Governor.thy ===== *)
theory Memory_Governor
  imports Lifecycle_Protocol Resource_Governor Budget_Gate
begin

text \<open>
  Budget events (\<open>ironclaw_resources/src/event.rs\<close>) and \<open>InMemoryResourceGovernor\<close>
  (\<open>lib.rs\<close>): the state behind its mutex and the events it emits to its sink. The sink is the
  in-memory one, whose content is the list of events in emission order. A call takes the reading of
  the clock as its last argument.
\<close>

section \<open>Events\<close>

datatype ('d, 'f) budget_event =
    EReserved resource_account "'d resource_reservation" "('d, 'f) budget_warning list" instant
  | EReconciled resource_account "'d resource_receipt" instant
  | EReleased resource_account "'d resource_receipt" instant
  | EWarned "('d, 'f) budget_warning" instant
  | EDenied "'d resource_denial" instant
  | EApprovalRequested "('d, 'f) resource_approval_needed" instant
  | EGateOpened budget_gate_id "('d, 'f) resource_approval_needed" instant
  | EApprovalResolved "('d, 'f) budget_approval_gate" "('d, 'f) budget_gate_outcome" instant
  | ELimitChanged resource_account instant

type_synonym ('d, 'f) event_sink = "('d, 'f) budget_event list"

definition sink_emit :: "('d, 'f) budget_event \<Rightarrow> ('d, 'f) event_sink \<Rightarrow> ('d, 'f) event_sink" where
  "sink_emit e sink = sink @ [e]"

definition sink_drain ::
  "('d, 'f) event_sink \<Rightarrow> ('d, 'f) event_sink \<times> ('d, 'f) budget_event list" where
  "sink_drain sink = ([], sink)"

definition emit_reserve_events ::
  "('d, 'f) event_sink \<Rightarrow> ('d, 'f) resource_error + ('d, 'f) reservation_outcome \<Rightarrow> instant
    \<Rightarrow> ('d, 'f) event_sink" where
  "emit_reserve_events sink result t =
     (let warnings =
        (case result of
           Inr out \<Rightarrow> out_warnings out
         | Inl (RequiresApproval needed ws) \<Rightarrow> ws
         | Inl (LimitExceeded denial ws) \<Rightarrow> ws
         | Inl _ \<Rightarrow> []);
          sink1 = fold (\<lambda>w s. sink_emit (EWarned w t) s) warnings sink
      in case result of
           Inr out \<Rightarrow>
             sink_emit (EReserved (most_specific_account (rsv_scope (out_reservation out)))
                          (out_reservation out) (out_warnings out) t) sink1
         | Inl (RequiresApproval needed ws) \<Rightarrow> sink_emit (EApprovalRequested needed t) sink1
         | Inl (LimitExceeded denial ws) \<Rightarrow> sink_emit (EDenied denial t) sink1
         | Inl _ \<Rightarrow> sink1)"

section \<open>The governor\<close>

record ('d, 'f) mem_governor =
  gov_state :: "('d, 'f) resource_state"
  gov_sink :: "('d, 'f) event_sink"

definition mem_new :: "('d, 'f) mem_governor" where
  "mem_new = \<lparr>gov_state = state_default, gov_sink = []\<rparr>"

definition mem_set_limit ::
  "('d, 'f) host_ops \<Rightarrow> ('d, 'f) mem_governor \<Rightarrow> resource_account \<Rightarrow> ('d, 'f) resource_limits
    \<Rightarrow> instant \<Rightarrow> ('d, 'f) mem_governor \<times> (('d, 'f) resource_error + unit)" where
  "mem_set_limit h g a l now =
     (g\<lparr>gov_state := set_limit_in_state h (gov_state g) a l now,
        gov_sink := sink_emit (ELimitChanged a now) (gov_sink g)\<rparr>, Ok ())"

definition mem_reserve ::
  "('d::linorder, 'f) host_ops \<Rightarrow> ('d, 'f) mem_governor \<Rightarrow> resource_scope \<Rightarrow> 'd resource_estimate
    \<Rightarrow> reservation_id \<Rightarrow> instant
    \<Rightarrow> ('d, 'f) mem_governor \<times> (('d, 'f) resource_error + ('d, 'f) reservation_outcome)" where
  "mem_reserve h g sc est rid now =
     (let (st, result) = reserve_with_outcome_in_state h (gov_state g) sc est rid now
      in (g\<lparr>gov_state := st, gov_sink := emit_reserve_events (gov_sink g) result now\<rparr>, result))"

definition mem_reconcile ::
  "('d::linorder, 'f) host_ops \<Rightarrow> ('d, 'f) mem_governor \<Rightarrow> reservation_id \<Rightarrow> 'd resource_usage
    \<Rightarrow> instant \<Rightarrow> ('d, 'f) mem_governor \<times> (('d, 'f) resource_error + 'd resource_receipt)" where
  "mem_reconcile h g rid actual now =
     (let (st, result) = reconcile_in_state h (gov_state g) rid actual now
      in (g\<lparr>gov_state := st,
            gov_sink := (case result of
               Inr r \<Rightarrow> sink_emit (EReconciled (most_specific_account (rcp_scope r)) r now) (gov_sink g)
             | Inl _ \<Rightarrow> gov_sink g)\<rparr>, result))"

definition mem_release ::
  "('d::linorder, 'f) host_ops \<Rightarrow> ('d, 'f) mem_governor \<Rightarrow> reservation_id \<Rightarrow> instant
    \<Rightarrow> ('d, 'f) mem_governor \<times> (('d, 'f) resource_error + 'd resource_receipt)" where
  "mem_release h g rid now =
     (let (st, result) = release_in_state h (gov_state g) rid now
      in (g\<lparr>gov_state := st,
            gov_sink := (case result of
               Inr r \<Rightarrow> sink_emit (EReleased (most_specific_account (rcp_scope r)) r now) (gov_sink g)
             | Inl _ \<Rightarrow> gov_sink g)\<rparr>, result))"

definition mem_account_snapshot ::
  "('d, 'f) host_ops \<Rightarrow> ('d, 'f) mem_governor \<Rightarrow> resource_account \<Rightarrow> instant
    \<Rightarrow> ('d, 'f) mem_governor
        \<times> (('d, 'f) resource_error + ('d, 'f) account_snapshot option)" where
  "mem_account_snapshot h g a now =
     (let (st, snap) = account_snapshot_in_state h (gov_state g) a now
      in (g\<lparr>gov_state := st\<rparr>, Ok snap))"

definition mem_reserved_for ::
  "('d, 'f) host_ops \<Rightarrow> ('d, 'f) mem_governor \<Rightarrow> resource_account \<Rightarrow> instant
    \<Rightarrow> ('d, 'f) mem_governor \<times> 'd resource_tally" where
  "mem_reserved_for h g a now =
     (let st = advance_period_if_rolled_over h now a (gov_state g)
      in (g\<lparr>gov_state := st\<rparr>, tally_at h (reserved_by_account st) a))"

definition mem_usage_for ::
  "('d, 'f) host_ops \<Rightarrow> ('d, 'f) mem_governor \<Rightarrow> resource_account \<Rightarrow> instant
    \<Rightarrow> ('d, 'f) mem_governor \<times> 'd resource_tally" where
  "mem_usage_for h g a now =
     (let st = advance_period_if_rolled_over h now a (gov_state g)
      in (g\<lparr>gov_state := st\<rparr>, tally_at h (usage_by_account st) a))"

section \<open>Sequences of calls\<close>

datatype ('d, 'f) gov_op =
    OpSetLimit resource_account "('d, 'f) resource_limits" instant
  | OpReserve resource_scope "'d resource_estimate" reservation_id instant
  | OpReconcile reservation_id "'d resource_usage" instant
  | OpRelease reservation_id instant
  | OpSnapshot resource_account instant
  | OpReservedFor resource_account instant
  | OpUsageFor resource_account instant

datatype ('d, 'f) gov_resp =
    RSetLimit "('d, 'f) resource_error + unit"
  | RReserve "('d, 'f) resource_error + ('d, 'f) reservation_outcome"
  | RReceipt "('d, 'f) resource_error + 'd resource_receipt"
  | RSnapshot "('d, 'f) resource_error + ('d, 'f) account_snapshot option"
  | RTally "('d, 'f) resource_error + 'd resource_tally"

fun mem_exec ::
  "('d::linorder, 'f) host_ops \<Rightarrow> ('d, 'f) mem_governor \<Rightarrow> ('d, 'f) gov_op
    \<Rightarrow> ('d, 'f) mem_governor \<times> ('d, 'f) gov_resp" where
  "mem_exec h g (OpSetLimit a l now) = (let (g', r) = mem_set_limit h g a l now in (g', RSetLimit r))"
| "mem_exec h g (OpReserve sc est rid now) =
     (let (g', r) = mem_reserve h g sc est rid now in (g', RReserve r))"
| "mem_exec h g (OpReconcile rid u now) =
     (let (g', r) = mem_reconcile h g rid u now in (g', RReceipt r))"
| "mem_exec h g (OpRelease rid now) = (let (g', r) = mem_release h g rid now in (g', RReceipt r))"
| "mem_exec h g (OpSnapshot a now) =
     (let (g', r) = mem_account_snapshot h g a now in (g', RSnapshot r))"
| "mem_exec h g (OpReservedFor a now) =
     (let (g', t) = mem_reserved_for h g a now in (g', RTally (Ok t)))"
| "mem_exec h g (OpUsageFor a now) =
     (let (g', t) = mem_usage_for h g a now in (g', RTally (Ok t)))"

definition resp_opens :: "('d, 'f) gov_resp \<Rightarrow> reservation_id option" where
  "resp_opens r = (case r of RReserve (Inr out) \<Rightarrow> Some (rsv_id (out_reservation out)) | _ \<Rightarrow> None)"

definition resp_closes :: "('d, 'f) gov_resp \<Rightarrow> reservation_id option" where
  "resp_closes r = (case r of RReceipt (Inr rcp) \<Rightarrow> Some (rcp_id rcp) | _ \<Rightarrow> None)"

definition state_status :: "('d, 'f) resource_state \<Rightarrow> reservation_id \<Rightarrow> reservation_status option" where
  "state_status st i = map_option rec_status (hget (reservations st) i)"

lemmas mem_op_defs =
  mem_set_limit_def mem_reserve_def mem_reconcile_def mem_release_def mem_account_snapshot_def
  mem_reserved_for_def mem_usage_for_def

subsection \<open>What one call does to the status of reservations\<close>

named_theorems status_simps "status of reservations after an operation on the state"

lemma state_status_cong: "reservations st' = reservations st \<Longrightarrow> state_status st' = state_status st"
  by (simp add: state_status_def fun_eq_iff)

lemma reserve_status:
  "reserve_with_outcome_in_state h st sc est rid now = (st', Ok out) \<Longrightarrow>
     rsv_id (out_reservation out) = rid \<and> state_status st rid = None
     \<and> state_status st' = (state_status st)(rid \<mapsto> Active)"
  by (erule reserve_Ok) (auto simp: state_status_def hmap_simps fun_eq_iff)

lemma reconcile_status:
  "reconcile_in_state h st rid u now = (st', Ok r) \<Longrightarrow>
     rcp_id r = rid \<and> state_status st rid = Some Active
     \<and> state_status st' = (state_status st)(rid \<mapsto> Reconciled)"
  by (erule reconcile_Ok) (auto simp: state_status_def hmap_simps fun_eq_iff)

lemma release_status:
  "release_in_state h st rid now = (st', Ok r) \<Longrightarrow>
     rcp_id r = rid \<and> state_status st rid = Some Active
     \<and> state_status st' = (state_status st)(rid \<mapsto> Released)"
  by (erule release_Ok) (auto simp: state_status_def hmap_simps fun_eq_iff)

lemma mem_exec_cases_status:
  assumes "mem_exec h g x = (g', r)"
  shows "(\<exists>i. resp_opens r = Some i \<and> resp_closes r = None \<and> state_status (gov_state g) i = None
             \<and> state_status (gov_state g') = (state_status (gov_state g))(i \<mapsto> Active))
     \<or> (\<exists>i st. resp_opens r = None \<and> resp_closes r = Some i \<and> st \<noteq> Active
             \<and> state_status (gov_state g) i = Some Active
             \<and> state_status (gov_state g') = (state_status (gov_state g))(i \<mapsto> st))
     \<or> (resp_opens r = None \<and> resp_closes r = None
             \<and> state_status (gov_state g') = state_status (gov_state g))"
proof (cases x)
  case (OpReserve sc est rid now)
  obtain st' res where e: "reserve_with_outcome_in_state h (gov_state g) sc est rid now = (st', res)"
    by fastforce
  have "g' = g\<lparr>gov_state := st', gov_sink := emit_reserve_events (gov_sink g) res now\<rparr>"
    and r: "r = RReserve res"
    using assms OpReserve e by (auto simp: mem_reserve_def)
  then show ?thesis
    using e reserve_status [of h "gov_state g" sc est rid now st']
      reserve_Err(3) [of h "gov_state g" sc est rid now st', THEN state_status_cong]
    by (cases res) (simp_all add: resp_opens_def resp_closes_def)
next
  case (OpReconcile rid u now)
  obtain st' res where e: "reconcile_in_state h (gov_state g) rid u now = (st', res)"
    by fastforce
  have "gov_state g' = st'" and "r = RReceipt res"
    using assms OpReconcile e by (auto simp: mem_reconcile_def)
  then show ?thesis
    using e reconcile_status [of h "gov_state g" rid u now st']
      close_Err(1) [of h "gov_state g" rid u now st']
    by (cases res) (auto simp: resp_opens_def resp_closes_def)
next
  case (OpRelease rid now)
  obtain st' res where e: "release_in_state h (gov_state g) rid now = (st', res)"
    by fastforce
  have "gov_state g' = st'" and "r = RReceipt res"
    using assms OpRelease e by (auto simp: mem_release_def)
  then show ?thesis
    using e release_status [of h "gov_state g" rid now st']
      close_Err(2) [of h "gov_state g" rid now st']
    by (cases res) (auto simp: resp_opens_def resp_closes_def)
next
  case (OpSnapshot a now)
  then show ?thesis
    using assms
    by (auto simp: mem_account_snapshot_def split_def Let_def resp_opens_def resp_closes_def
        intro!: state_status_cong)
qed (use assms in \<open>auto simp: mem_op_defs Let_def resp_opens_def resp_closes_def
       intro!: state_status_cong\<close>)

interpretation mem_gov: lifecycle_protocol
  "\<lambda>_. True" Active "\<lambda>g. state_status (gov_state g)" "mem_exec h" resp_opens resp_closes
  for h :: "('d::linorder, 'f) host_ops"
proof
  fix g g' :: "('d, 'f) mem_governor" and x r i j
  assume e: "mem_exec h g x = (g', r)"
  show "resp_opens r = Some i \<Longrightarrow> state_status (gov_state g) i = None
      \<and> state_status (gov_state g') i = Some Active"
    using mem_exec_cases_status [OF e] by auto
  show "resp_closes r = Some i \<Longrightarrow> state_status (gov_state g) i = Some Active
      \<and> (\<exists>st. st \<noteq> Active \<and> state_status (gov_state g') i = Some st)"
    using mem_exec_cases_status [OF e] by auto
  show "status_advances Active (state_status (gov_state g) j) (state_status (gov_state g') j)"
    using mem_exec_cases_status [OF e]
    by (elim disjE exE conjE) (simp_all add: status_advances_def)
qed simp

end
