(* ===== verification/Sample_Host.thy ===== *)
theory Sample_Host
  imports Memory_Governor
begin

text \<open>
  A concrete instance of the host operations, used by the witnesses: money in integer units with
  an upper bound, utilization in thousandths, UTC days. It satisfies the hypotheses the
  properties state about the host operations.
\<close>

definition sample_host :: "(int, int) host_ops" where
  "sample_host =
     \<lparr>dec_zero = 0, dec_max = 1000000,
      dec_checked_add = (\<lambda>a b. if a + b \<le> 1000000 then Some (a + b) else None),
      dec_checked_sub = (\<lambda>a b. if a - b \<ge> -1000000 then Some (a - b) else None),
      dec_to_f64 = (\<lambda>d. Some (1000 * d)),
      f_zero = 0, f_one = 1000, f_of_u64 = (\<lambda>x. 1000 * int (unat x)), f_div = (\<lambda>a b. 1000 * a div b),
      f_lt = (\<lambda>a b. a < b), f_ge = (\<lambda>a b. a \<ge> b), f_is_finite = (\<lambda>_. True),
      max_utc = 8210266876799999999999,
      cal_local_date = (\<lambda>tz now. now div hours24), cal_days_from_monday = (\<lambda>d. (d + 3) mod 7),
      cal_year = (\<lambda>d. 1970 + d div 365), cal_month = (\<lambda>d. nat (1 + (d mod 365) div 31)),
      cal_from_ymd = (\<lambda>y m d. Some ((y - 1970) * 365 + (int m - 1) * 31 + int d - 1)),
      cal_local_midnight = (\<lambda>tz d. Some (d * hours24))\<rparr>"

definition sample_scope :: resource_scope where
  "sample_scope =
     \<lparr>tenant_id = ''t'', user_id = ''u'', agent_id = None, project_id = None, mission_id = None,
      thread_id = None, invocation_id = 1\<rparr>"

definition sample_estimate :: "nat \<Rightarrow> int resource_estimate" where
  "sample_estimate n =
     \<lparr>est_usd = None, est_input_tokens = Some (of_nat n), est_output_tokens = None,
      est_wall_clock_ms = None, est_output_bytes = None, est_network_egress_bytes = None,
      est_process_count = None, est_concurrency_slots = None\<rparr>"

definition sample_usage :: "nat \<Rightarrow> int resource_usage" where
  "sample_usage n =
     \<lparr>use_usd = 0, use_input_tokens = of_nat n, use_output_tokens = 0, use_wall_clock_ms = 0,
      use_output_bytes = 0, use_network_egress_bytes = 0, use_process_count = 0\<rparr>"

definition sample_limits :: "budget_period \<Rightarrow> nat \<Rightarrow> (int, int) resource_limits" where
  "sample_limits p n =
     (limits_default sample_host)\<lparr>max_input_tokens := Some (of_nat n), period := p\<rparr>"

definition sample_user :: resource_account where
  "sample_user = AccUser ''t'' ''u''"

lemmas sample_defs =
  sample_host_def sample_scope_def sample_estimate_def sample_usage_def sample_limits_def
  sample_user_def limits_default_def thresholds_disabled_def hours24_def

lemmas governor_eval =
  sample_defs cascade_def most_specific_account_def state_default_def mem_new_def
  set_limit_in_state_def advance_period_if_rolled_over_def period_bounds_def
  period_has_rolled_over_def calendar_bounds_def calendar_dates_def
  reserve_with_outcome_in_state_def reconcile_in_state_def release_in_state_def
  reconcile_account_def release_account_def account_snapshot_in_state_def
  validate_estimate_def validate_usage_def hcontains_def tally_at_def tally_entry_add_def
  tally_entry_sub_def tally_default_def tally_from_estimate_def tally_from_usage_def
  tally_add_def tally_sub_def sat_add_def sat_sub_def
  evaluate_cascade_for_account_def check_limits_first_denial_def check_integer_def
  check_decimal_def check_thresholds_all_interventions_def
  threshold_integer_def threshold_decimal_def threshold_intervention_def absorb_def
  absorb_option_def integer_dims_def decimal_to_f64_def u64_of_u32_def mem_op_defs
  emit_reserve_events_def sink_emit_def Let_def

lemma sample_reserve:
  "reserve_with_outcome_in_state sample_host
     (set_limit_in_state sample_host state_default sample_user (sample_limits Rolling24h 100) 0)
     sample_scope (sample_estimate 60) 7 5
   = (let q = tally_from_estimate sample_host (sample_estimate 60);
          rsv = \<lparr>rsv_id = 7, rsv_scope = sample_scope, rsv_estimate = sample_estimate 60\<rparr>
      in (\<lparr>limits = [(sample_user, sample_limits Rolling24h 100)],
           reserved_by_account = [(AccTenant ''t'', q), (sample_user, q)],
           usage_by_account = [],
           reservations = [(7, \<lparr>rec_reservation = rsv, rec_accounts = cascade sample_scope,
                                rec_tally = q, rec_status = Active, rec_actual = None\<rparr>)],
           period_anchors = [(sample_user, hours24)]\<rparr>,
          Ok \<lparr>out_reservation = rsv, out_warnings = []\<rparr>))"
  by (simp add: governor_eval)

end
