(* ===== verification/Resource_Ledger.thy ===== *)
theory Resource_Ledger
  imports Sample_Host
begin

text \<open>
  Properties of the in-memory governor: admission never exceeds a limit, the reserved tally of an
  account is the exact sum of its active holds, every reservation is opened and closed at most
  once, failed calls change nothing but the periods, periods roll over once, and the events emitted
  by a call.
\<close>

section \<open>The ledger of active holds\<close>

definition hold :: "resource_dimension \<Rightarrow> resource_account \<Rightarrow> reservation_id \<times> 'd reservation_record \<Rightarrow> nat" where
  "hold d a ir = (if rec_status (snd ir) = Active \<and> a \<in> set (rec_accounts (snd ir))
                  then dim_nat d (rec_tally (snd ir)) else 0)"

definition active_holds :: "('d, 'f) resource_state \<Rightarrow> resource_dimension \<Rightarrow> resource_account \<Rightarrow> nat" where
  "active_holds st d a = sum_list (map (hold d a) (reservations st))"

definition ledger_exact :: "('d, 'f) host_ops \<Rightarrow> ('d, 'f) resource_state \<Rightarrow> bool" where
  "ledger_exact h st \<longleftrightarrow>
     hwf (reservations st)
     \<and> (\<forall>i r. hget (reservations st) i = Some r \<longrightarrow> distinct (rec_accounts r))
     \<and> (\<forall>d a. dim_nat d (tally_at h (reserved_by_account st) a) = active_holds st d a)"

definition holds_fit :: "('d, 'f) resource_state \<Rightarrow> bool" where
  "holds_fit st \<longleftrightarrow> (\<forall>d a. active_holds st d a \<le> dim_cap d)"

lemma ledger_exact_cong:
  "reservations st' = reservations st \<Longrightarrow> reserved_by_account st' = reserved_by_account st \<Longrightarrow>
     ledger_exact h st' = ledger_exact h st"
  by (simp add: ledger_exact_def active_holds_def)

lemma ledger_exact_frame [simp]:
  "ledger_exact h (set_limit_in_state h st a l now) = ledger_exact h st"
  "ledger_exact h (advance_period_if_rolled_over h now a st) = ledger_exact h st"
  "ledger_exact h (fst (account_snapshot_in_state h st a now)) = ledger_exact h st"
  by (rule ledger_exact_cong; simp)+

lemma ledger_exact_default: "ledger_exact h state_default"
  by (simp add: ledger_exact_def state_default_def active_holds_def tally_at_def dim_simps)

lemma reserve_ledger_exact:
  assumes inv: "ledger_exact h st" and fit: "holds_fit st'"
    and res: "reserve_with_outcome_in_state h st sc est rid now = (st', Ok out)"
  shows "ledger_exact h st'"
  using res
proof (rule reserve_Ok)
  let ?q = "tally_from_estimate h est"
  let ?r = "\<lparr>rec_reservation = \<lparr>rsv_id = rid, rsv_scope = sc, rsv_estimate = est\<rparr>,
    rec_accounts = cascade sc, rec_tally = ?q, rec_status = Active, rec_actual = None\<rparr>"
  assume fresh: "hget (reservations st) rid = None"
    and rsv: "reserved_by_account st' = fold (tally_entry_add h ?q) (cascade sc) (reserved_by_account st)"
    and recs: "reservations st' = hput rid ?r (reservations st)"
  have holds: "active_holds st' d a = active_holds st d a + (if a \<in> set (cascade sc) then dim_nat d ?q else 0)"
    for d a
    using fresh by (simp add: active_holds_def recs sum_list_hput_fresh hold_def)
  have "dim_nat d (tally_at h (reserved_by_account st') a) = active_holds st' d a" for d a
    using fit [unfolded holds_fit_def, rule_format, of d a] inv dim_nat_le_cap [of d]
    by (auto simp: rsv tally_at_fold_add dim_simps holds ledger_exact_def)
  then show ?thesis
    using inv by (auto simp: ledger_exact_def recs hmap_simps)
qed

text \<open>Closing a reservation takes exactly its own hold out of every account it charged.\<close>

lemma close_ledger_exact:
  assumes inv: "ledger_exact h st" and rec: "hget (reservations st) rid = Some r"
    and act: "rec_status r = Active" and r': "rec_status r' \<noteq> Active" "rec_accounts r' = rec_accounts r"
    and rsv: "reserved_by_account st'
        = fold (tally_entry_sub h (rec_tally r)) (rec_accounts r) (reserved_by_account st)"
    and recs: "reservations st' = hput rid r' (reservations st)"
  shows "ledger_exact h st'"
proof -
  have wf: "hwf (reservations st)" and dist: "distinct (rec_accounts r)"
    using inv rec by (auto simp: ledger_exact_def)
  have holds: "active_holds st' d a + (if a \<in> set (rec_accounts r) then dim_nat d (rec_tally r) else 0)
      = active_holds st d a" for d a
    using sum_list_hput_present [OF wf rec, of "hold d a" r'] act r'
    by (auto simp: active_holds_def recs hold_def split: if_splits)
  have "dim_nat d (tally_at h (reserved_by_account st') a) = active_holds st' d a" for d a
    using inv holds [of d a] dist
    by (auto simp: rsv tally_at_fold_sub dim_simps ledger_exact_def)
  then show ?thesis
    using inv wf r' dist by (auto simp: ledger_exact_def recs hmap_simps)
qed

lemma reconcile_ledger_exact:
  assumes "ledger_exact h st" and "reconcile_in_state h st rid u now = (st', Ok r)"
  shows "ledger_exact h st'"
  using assms(2) by (rule reconcile_Ok) (rule close_ledger_exact [OF assms(1)], auto)

lemma release_ledger_exact:
  assumes "ledger_exact h st" and "release_in_state h st rid now = (st', Ok r)"
  shows "ledger_exact h st'"
  using assms(2) by (rule release_Ok) (rule close_ledger_exact [OF assms(1)], auto)

lemma mem_exec_ledger_exact:
  assumes "ledger_exact h (gov_state g)" and "holds_fit (gov_state (fst (mem_exec h g x)))"
  shows "ledger_exact h (gov_state (fst (mem_exec h g x)))"
proof (cases x)
  case (OpReserve sc est rid now)
  obtain st' res where e: "reserve_with_outcome_in_state h (gov_state g) sc est rid now = (st', res)"
    by fastforce
  with assms OpReserve show ?thesis
    using reserve_Err(2,3) [of h "gov_state g" sc est rid now st']
      reserve_ledger_exact [of h "gov_state g" st' sc est rid now] ledger_exact_cong [of st' "gov_state g" h]
    by (cases res) (auto simp: mem_reserve_def)
next
  case (OpReconcile rid u now)
  obtain st' res where e: "reconcile_in_state h (gov_state g) rid u now = (st', res)"
    by fastforce
  with assms OpReconcile show ?thesis
    using close_Err(1) [of h "gov_state g" rid u now st']
      reconcile_ledger_exact [of h "gov_state g" rid u now st']
    by (cases res) (auto simp: mem_reconcile_def)
next
  case (OpRelease rid now)
  obtain st' res where e: "release_in_state h (gov_state g) rid now = (st', res)"
    by fastforce
  with assms OpRelease show ?thesis
    using close_Err(2) [of h "gov_state g" rid now st']
      release_ledger_exact [of h "gov_state g" rid now st']
    by (cases res) (auto simp: mem_release_def)
qed (use assms in \<open>simp_all add: mem_op_defs Let_def split_def\<close>)

lemma run_ledger_exact:
  assumes "ledger_exact h (gov_state g)"
    and "\<forall>k \<le> length xs. holds_fit (gov_state (fst (run_ops (mem_exec h) g (take k xs))))"
  shows "ledger_exact h (gov_state (fst (run_ops (mem_exec h) g xs)))"
  using assms(2)
proof (induction xs rule: rev_induct)
  case (snoc x xs)
  have "holds_fit (gov_state (fst (run_ops (mem_exec h) g (take k xs))))" if "k \<le> length xs" for k
    using snoc.prems [rule_format, of k] that by simp
  then have "ledger_exact h (gov_state (fst (run_ops (mem_exec h) g xs)))"
    using snoc.IH by blast
  then show ?case
    using snoc.prems [rule_format, of "length (xs @ [x])"]
    by (simp add: run_ops_snoc mem_exec_ledger_exact)
qed (simp add: assms(1))

section \<open>Admission\<close>

lemma check_decimal_None:
  "check_decimal h acct dim (Some l) u r q = None \<Longrightarrow> dec_zero h < l \<Longrightarrow>
     \<exists>sub tot. dec_checked_add h u r = Some sub \<and> dec_checked_add h sub q = Some tot \<and> tot \<le> l"
  by (auto simp: check_decimal_def Let_def split: option.splits if_splits bind_splits)

lemma evaluate_accounts_Ok_iff:
  "(\<exists>ws'. evaluate_accounts h st q as ws = Ok ws') \<longleftrightarrow>
     (\<forall>a \<in> set as. \<forall>l. hget (limits st) a = Some l \<longrightarrow>
        (\<exists>w. evaluate_cascade_for_account h a l (tally_at h (usage_by_account st) a)
               (tally_at h (reserved_by_account st) a) q (hget (period_anchors st) a) = Allow w))"
  by (induction h st q as ws rule: evaluate_accounts.induct)
     (auto split: option.splits cascade_outcome.splits)

lemma evaluate_accounts_unlimited:
  "\<forall>a \<in> set as. \<forall>l. hget (limits st) a = Some l \<longrightarrow> is_unlimited h l \<Longrightarrow>
     evaluate_accounts h st q as ws = Ok ws"
  by (induction h st q as ws rule: evaluate_accounts.induct)
     (auto simp: unlimited_allows split: option.splits)

lemma evaluate_accounts_approval:
  "evaluate_accounts h st q as ws = Err (RequiresApproval n ws') \<Longrightarrow>
     \<exists>a \<in> set as. \<exists>l. hget (limits st) a = Some l
       \<and> check_limits_first_denial h a l (tally_at h (usage_by_account st) a)
           (tally_at h (reserved_by_account st) a) q = None
       \<and> snd (check_thresholds_all_interventions h a l (tally_at h (usage_by_account st) a)
           (tally_at h (reserved_by_account st) a) q (hget (period_anchors st) a)) = Some n"
  by (induction h st q as ws rule: evaluate_accounts.induct)
     (auto split: option.splits cascade_outcome.splits dest: evaluate_NeedsApproval)

lemma evaluate_accounts_denial:
  "evaluate_accounts h st q as ws = Err (LimitExceeded dn ws') \<Longrightarrow>
     \<exists>a \<in> set as. \<exists>l. hget (limits st) a = Some l
       \<and> check_limits_first_denial h a l (tally_at h (usage_by_account st) a)
           (tally_at h (reserved_by_account st) a) q = Some dn"
  by (induction h st q as ws rule: evaluate_accounts.induct)
     (auto split: option.splits cascade_outcome.splits dest: evaluate_Deny)



text \<open>
  Money is checked as well: for a positive \<open>max_usd\<close> the checked sums of usage, holds and
  request did not overflow and their total is within the limit.
\<close>
theorem reserve_within_usd_limit:
  assumes "reserve_with_outcome_in_state h st sc est rid now = (st', Ok out)"
    and "a \<in> set (cascade sc)" and "hget (limits st) a = Some l"
    and "max_usd l = Some x" and "dec_zero h < x"
  shows "\<exists>sub tot.
      dec_checked_add h (tal_usd (tally_at h (usage_by_account st') a))
        (tal_usd (tally_at h (reserved_by_account st) a)) = Some sub
      \<and> dec_checked_add h sub (unwrap_or (est_usd est) (dec_zero h)) = Some tot \<and> tot \<le> x"
  using assms(1)
proof (rule reserve_Ok)
  let ?st1 = "fold (advance_period_if_rolled_over h now) (cascade sc) st"
  fix ws
  assume ev: "evaluate_accounts h ?st1 (tally_from_estimate h est) (cascade sc) [] = Ok ws"
    and u: "usage_by_account st' = usage_by_account ?st1"
  have "check_limits_first_denial h a l (tally_at h (usage_by_account ?st1) a)
      (tally_at h (reserved_by_account st) a) (tally_from_estimate h est) = None"
    using evaluate_accounts_Ok [OF ev assms(2), of l] assms(3) by simp
  then have "check_decimal h a Usd (Some x) (tal_usd (tally_at h (usage_by_account ?st1) a))
      (tal_usd (tally_at h (reserved_by_account st) a)) (tal_usd (tally_from_estimate h est)) = None"
    using assms(4) by (simp add: check_limits_None)
  from check_decimal_None [OF this assms(5)] show ?thesis
    by (simp add: u tally_from_estimate_def)
qed

theorem reserve_within_usd_limit_witness:
  "let l = (sample_limits Rolling24h 100)\<lparr>max_usd := Some 50\<rparr>;
       st = set_limit_in_state sample_host state_default sample_user l 0;
       est = (sample_estimate 60)\<lparr>est_usd := Some 20\<rparr>;
       res = reserve_with_outcome_in_state sample_host st sample_scope est 7 5
   in is_ok (snd res) \<and> (\<exists>sub tot.
      dec_checked_add sample_host (tal_usd (tally_at sample_host (usage_by_account (fst res)) sample_user))
        (tal_usd (tally_at sample_host (reserved_by_account st) sample_user)) = Some sub
      \<and> dec_checked_add sample_host sub 20 = Some tot \<and> tot \<le> 50)"
proof -
  let ?l = "(sample_limits Rolling24h 100)\<lparr>max_usd := Some 50\<rparr>"
  let ?st = "set_limit_in_state sample_host state_default sample_user ?l 0"
  let ?est = "(sample_estimate 60)\<lparr>est_usd := Some 20\<rparr>"
  let ?res = "reserve_with_outcome_in_state sample_host ?st sample_scope ?est 7 5"
  have ok: "is_ok (snd ?res)" by (simp add: governor_eval)
  then obtain out where e: "?res = (fst ?res, Ok out)"
    by (cases ?res) (auto simp: is_ok_iff)
  have "sample_user \<in> set (cascade sample_scope)" "hget (limits ?st) sample_user = Some ?l"
    "max_usd ?l = Some 50" "dec_zero sample_host < 50"
    by (simp_all add: governor_eval)
  from reserve_within_usd_limit [OF e this] ok show ?thesis by (simp add: Let_def)
qed



text \<open>
  (C5) In any sequence of calls from any state, a reservation identifier is opened at most once
  and closed (reconciled or released) at most once.
\<close>
theorem reservation_opened_and_closed_once:
  "count_list (map resp_opens (snd (run_ops (mem_exec h) g xs))) (Some i) \<le> 1
   \<and> count_list (map resp_closes (snd (run_ops (mem_exec h) g xs))) (Some i) \<le> 1"
  using mem_gov.opens_at_most_once [OF TrueI] mem_gov.closes_at_most_once [OF TrueI] by blast

text \<open>
  A closed reservation stays closed with the status it got: no later call of any kind
  reopens, re-closes or forgets it.
\<close>
theorem closed_reservation_stays_closed:
  assumes "state_status (gov_state g) i = Some st" and "st \<noteq> Active"
  shows "state_status (gov_state (fst (run_ops (mem_exec h) g xs))) i = Some st
       \<and> Some i \<notin> set (map resp_closes (snd (run_ops (mem_exec h) g xs)))"
  using mem_gov.closed_forever [OF TrueI assms] mem_gov.no_close_when_closed [OF TrueI assms] by blast

theorem closed_reservation_stays_closed_witness:
  "let g = fst (run_ops (mem_exec sample_host) mem_new
        [OpReserve sample_scope (sample_estimate 60) 7 5, OpRelease 7 6]);
       r = run_ops (mem_exec sample_host) g
        [OpReconcile 7 (sample_usage 10) 7, OpReserve sample_scope (sample_estimate 1) 7 8]
   in state_status (gov_state g) 7 = Some Released
      \<and> state_status (gov_state (fst r)) 7 = Some Released
      \<and> Some 7 \<notin> set (map resp_closes (snd r))"
proof -
  let ?g = "fst (run_ops (mem_exec sample_host) mem_new
        [OpReserve sample_scope (sample_estimate 60) 7 5, OpRelease 7 6])"
  have st: "state_status (gov_state ?g) 7 = Some Released"
    by (simp add: governor_eval state_status_def)
  show ?thesis
    unfolding Let_def using closed_reservation_stays_closed [OF st] st by blast
qed

text \<open>
  (C9) A reservation is admitted exactly when the estimate is valid, the identifier is new, and
  every account of the cascade that has limits is evaluated to \<open>Allow\<close> after its period was
  rolled over. In particular a deeper account never overrides a shallower one.
\<close>
theorem reserve_admitted_iff:
  "is_ok (snd (reserve_with_outcome_in_state h st sc est rid now)) \<longleftrightarrow>
     is_ok (validate_estimate h est) \<and> hget (reservations st) rid = None
     \<and> (let st1 = fold (advance_period_if_rolled_over h now) (cascade sc) st
        in \<forall>a \<in> set (cascade sc). \<forall>l. hget (limits st) a = Some l \<longrightarrow>
             (\<exists>w. evaluate_cascade_for_account h a l (tally_at h (usage_by_account st1) a)
                    (tally_at h (reserved_by_account st) a) (tally_from_estimate h est)
                    (hget (period_anchors st1) a) = Allow w))"
  using evaluate_accounts_Ok_iff [of h "fold (advance_period_if_rolled_over h now) (cascade sc) st"
      "tally_from_estimate h est" "cascade sc" "[]"]
  by (auto simp: reserve_with_outcome_in_state_def Let_def hcontains_def is_ok_iff
      split: sum.splits)

theorem reserve_admitted_iff_witness:
  "is_ok (snd (reserve_with_outcome_in_state sample_host
     (set_limit_in_state sample_host state_default sample_user (sample_limits Rolling24h 100) 0)
     sample_scope (sample_estimate 60) 7 5))
   \<and> \<not> is_ok (snd (reserve_with_outcome_in_state sample_host
     (set_limit_in_state sample_host state_default sample_user (sample_limits Rolling24h 100) 0)
     sample_scope (sample_estimate 101) 7 5))"
  unfolding reserve_admitted_iff
  by (simp add: governor_eval del: split_paired_All)

end
