(* ===== verification/Governor_Behaviour.thy ===== *)
theory Governor_Behaviour
  imports Resource_Ledger
begin

text \<open>
  Further behaviour of the governor: refusals and their precedence, periods, the round trip of a
  hold, emitted events, and what a \<open>PerInvocation\<close> account accumulates.
\<close>

section \<open>Refusals\<close>

lemma advance_usage_other:
  "b \<noteq> a \<Longrightarrow> hget (usage_by_account (advance_period_if_rolled_over h now a st)) b
     = hget (usage_by_account st) b"
  by (auto simp: advance_period_if_rolled_over_def Let_def hmap_simps split: option.splits)

lemma fold_advance_usage_other:
  "b \<notin> set as \<Longrightarrow> hget (usage_by_account (fold (advance_period_if_rolled_over h now) as st)) b
     = hget (usage_by_account st) b"
  by (induction as arbitrary: st) (simp_all add: advance_usage_other)

lemma reserve_Err_usage:
  assumes "reserve_with_outcome_in_state h st sc est rid now = (st', Err e)"
  shows "st' = st \<or> st' = fold (advance_period_if_rolled_over h now) (cascade sc) st"
  using assms
  by (auto simp: reserve_with_outcome_in_state_def Let_def split: sum.splits if_splits)

text \<open>
  (C12) A refused \<open>reserve\<close> takes nothing: limits, holds and reservations are unchanged, and so is
  the usage of every account outside the cascade. A refused \<open>reconcile\<close> or \<open>release\<close> leaves the
  whole state as it was.
\<close>
theorem refused_calls_take_nothing:
  "(reserve_with_outcome_in_state h st sc est rid now = (st', Err e) \<longrightarrow>
      limits st' = limits st \<and> reserved_by_account st' = reserved_by_account st
      \<and> reservations st' = reservations st
      \<and> (\<forall>b. b \<notin> set (cascade sc) \<longrightarrow> hget (usage_by_account st') b = hget (usage_by_account st) b))
   \<and> (reconcile_in_state h st rid u now = (st', Err e) \<longrightarrow> st' = st)
   \<and> (release_in_state h st rid now = (st', Err e) \<longrightarrow> st' = st)"
  using reserve_Err [of h st sc est rid now st' e] reserve_Err_usage [of h st sc est rid now st' e]
    close_Err fold_advance_usage_other by fastforce

theorem refused_calls_take_nothing_witness:
  "let st = set_limit_in_state sample_host state_default sample_user (sample_limits Rolling24h 100) 0;
       r1 = reserve_with_outcome_in_state sample_host st sample_scope (sample_estimate 101) 7 5;
       r2 = release_in_state sample_host st 9 5
   in \<not> is_ok (snd r1) \<and> reservations (fst r1) = reservations st \<and> \<not> is_ok (snd r2) \<and> fst r2 = st"
proof -
  let ?st = "set_limit_in_state sample_host state_default sample_user (sample_limits Rolling24h 100) 0"
  let ?r1 = "reserve_with_outcome_in_state sample_host ?st sample_scope (sample_estimate 101) 7 5"
  let ?r2 = "release_in_state sample_host ?st 9 5"
  have n: "\<not> is_ok (snd ?r1)" "\<not> is_ok (snd ?r2)" by (simp_all add: governor_eval)
  then obtain e1 e2 where "?r1 = (fst ?r1, Err e1)" "?r2 = (fst ?r2, Err e2)"
    by (metis is_ok_simps(1) obj_sumE surjective_pairing)
  with refused_calls_take_nothing [of sample_host ?st sample_scope "sample_estimate 101" 7 5 "fst ?r1" e1]
    refused_calls_take_nothing [of sample_host ?st sample_scope "sample_estimate 101" 9 5 "fst ?r2" e2] n
  show ?thesis by (simp add: Let_def)
qed

text \<open>
  A hard limit beats the approval threshold. When \<open>reserve\<close> answers \<open>LimitExceeded\<close>, some
  account of the cascade really exceeds a hard limit and the denial is the first one in the
  canonical order of dimensions; when it answers \<open>RequiresApproval\<close>, the account that asks for
  approval exceeds no hard limit.
\<close>
theorem denial_beats_approval:
  assumes "snd (reserve_with_outcome_in_state h st sc est rid now) = Err e"
  defines "st1 \<equiv> fold (advance_period_if_rolled_over h now) (cascade sc) st"
  defines "denial \<equiv> \<lambda>a l. check_limits_first_denial h a l (tally_at h (usage_by_account st1) a)
             (tally_at h (reserved_by_account st) a) (tally_from_estimate h est)"
  shows "(\<forall>dn ws. e = LimitExceeded dn ws \<longrightarrow>
            (\<exists>a \<in> set (cascade sc). \<exists>l. hget (limits st) a = Some l \<and> denial a l = Some dn))
       \<and> (\<forall>n ws. e = RequiresApproval n ws \<longrightarrow>
            (\<exists>a \<in> set (cascade sc). \<exists>l. hget (limits st) a = Some l \<and> denial a l = None
               \<and> snd (check_thresholds_all_interventions h a l (tally_at h (usage_by_account st1) a)
                   (tally_at h (reserved_by_account st) a) (tally_from_estimate h est)
                   (hget (period_anchors st1) a)) = Some n))"
proof -
  have "e \<noteq> LimitExceeded dn ws \<and> e \<noteq> RequiresApproval n ws' \<or>
      evaluate_accounts h st1 (tally_from_estimate h est) (cascade sc) [] = Err e" for dn ws n ws'
    using assms(1)
    by (auto simp: reserve_with_outcome_in_state_def validate_estimate_def st1_def Let_def
        split: sum.splits if_splits option.splits)
  then show ?thesis
    using evaluate_accounts_denial [of h st1 "tally_from_estimate h est" "cascade sc" "[]"]
      evaluate_accounts_approval [of h st1 "tally_from_estimate h est" "cascade sc" "[]"]
    by (fastforce simp: denial_def st1_def)
qed

theorem denial_beats_approval_witness:
  "let l = (sample_limits Rolling24h 100)\<lparr>thresholds := \<lparr>warn_at = 750, pause_at = 900\<rparr>\<rparr>;
       st = set_limit_in_state sample_host state_default sample_user l 0;
       ask = snd (reserve_with_outcome_in_state sample_host st sample_scope (sample_estimate 95) 7 5);
       stop = snd (reserve_with_outcome_in_state sample_host st sample_scope (sample_estimate 120) 7 5)
   in (\<exists>n ws. ask = Err (RequiresApproval n ws))
      \<and> (\<exists>dn ws. stop = Err (LimitExceeded dn ws) \<and> (\<exists>a \<in> set (cascade sample_scope). \<exists>l'.
           hget (limits st) a = Some l' \<and> check_limits_first_denial sample_host a l'
             (tally_at sample_host (usage_by_account (fold (advance_period_if_rolled_over sample_host 5)
                (cascade sample_scope) st)) a)
             (tally_at sample_host (reserved_by_account st) a)
             (tally_from_estimate sample_host (sample_estimate 120)) = Some dn))"
proof -
  let ?l = "(sample_limits Rolling24h 100)\<lparr>thresholds := \<lparr>warn_at = 750, pause_at = 900\<rparr>\<rparr>"
  let ?st = "set_limit_in_state sample_host state_default sample_user ?l 0"
  have 1: "\<exists>n ws. snd (reserve_with_outcome_in_state sample_host ?st sample_scope (sample_estimate 95) 7 5)
      = Err (RequiresApproval n ws)"
    by (simp add: governor_eval)
  have "\<exists>dn ws. snd (reserve_with_outcome_in_state sample_host ?st sample_scope (sample_estimate 120) 7 5)
      = Err (LimitExceeded dn ws)"
    by (simp add: governor_eval)
  then obtain dn ws where e:
    "snd (reserve_with_outcome_in_state sample_host ?st sample_scope (sample_estimate 120) 7 5)
      = Err (LimitExceeded dn ws)"
    by blast
  from 1 e denial_beats_approval [OF e] show ?thesis
    unfolding Let_def by blast
qed

text \<open>
  Zero means unlimited: if every limit installed on the accounts of the cascade is absent or
  zero in every dimension, a valid estimate under a new identifier is always admitted, without
  warnings.
\<close>
theorem unlimited_always_admitted:
  assumes "\<forall>a \<in> set (cascade sc). \<forall>l. hget (limits st) a = Some l \<longrightarrow> is_unlimited h l"
    and "is_ok (validate_estimate h est)" and "hget (reservations st) rid = None"
  shows "\<exists>out. snd (reserve_with_outcome_in_state h st sc est rid now) = Ok out \<and> out_warnings out = []"
  using assms
    evaluate_accounts_unlimited [of "cascade sc"
      "fold (advance_period_if_rolled_over h now) (cascade sc) st" h "tally_from_estimate h est" "[]"]
  by (auto simp: reserve_with_outcome_in_state_def Let_def hcontains_def is_ok_iff)

theorem unlimited_always_admitted_witness:
  "\<exists>out. snd (reserve_with_outcome_in_state sample_host
      (set_limit_in_state sample_host state_default sample_user (sample_limits Rolling24h 0) 0)
      sample_scope (sample_estimate 1000000) 7 5) = Ok out \<and> out_warnings out = []"
  by (rule unlimited_always_admitted)
     (simp_all add: governor_eval is_unlimited_def is_decimal_unlimited_def is_integer_unlimited_def)

section \<open>Periods\<close>

text \<open>
  Rolling over a period. For an account whose limits have an accumulating period that ends
  after the present, looking at it resets its usage exactly when the stored anchor has passed (or
  is missing), moves the anchor into the future, never touches holds, and does nothing the second
  time at the same instant.
\<close>
theorem period_rolls_over_once:
  assumes "hget (limits st) a = Some l" and "period l \<noteq> PerInvocation"
    and "now < snd (period_bounds h (period l) now)"
  defines "st' \<equiv> advance_period_if_rolled_over h now a st"
  shows "tally_at h (usage_by_account st') a =
          (case hget (period_anchors st) a of
             Some anchor \<Rightarrow> if anchor \<le> now then tally_default h else tally_at h (usage_by_account st) a
           | None \<Rightarrow> tally_default h)
       \<and> (\<exists>anchor. hget (period_anchors st') a = Some anchor \<and> now < anchor)
       \<and> reserved_by_account st' = reserved_by_account st
       \<and> advance_period_if_rolled_over h now a st' = st'"
  using assms
  by (auto simp: advance_period_if_rolled_over_def Let_def hmap_simps tally_at_def
      period_has_rolled_over_def split: option.splits)

theorem period_rolls_over_once_witness:
  "let st = fst (reconcile_in_state sample_host (fst (reserve_with_outcome_in_state sample_host
        (set_limit_in_state sample_host state_default sample_user (sample_limits Rolling24h 100) 0)
        sample_scope (sample_estimate 60) 7 5)) 7 (sample_usage 40) 6)
   in dim_nat InputTokens (tally_at sample_host (usage_by_account st) sample_user) = 40
      \<and> tally_at sample_host (usage_by_account
          (advance_period_if_rolled_over sample_host hours24 sample_user st)) sample_user
        = tally_default sample_host"
proof -
  let ?st = "fst (reconcile_in_state sample_host (fst (reserve_with_outcome_in_state sample_host
        (set_limit_in_state sample_host state_default sample_user (sample_limits Rolling24h 100) 0)
        sample_scope (sample_estimate 60) 7 5)) 7 (sample_usage 40) 6)"
  have "hget (limits ?st) sample_user = Some (sample_limits Rolling24h 100)"
    "period (sample_limits Rolling24h 100) \<noteq> PerInvocation"
    "hours24 < snd (period_bounds sample_host (period (sample_limits Rolling24h 100)) hours24)"
    "hget (period_anchors ?st) sample_user = Some hours24"
    "dim_nat InputTokens (tally_at sample_host (usage_by_account ?st) sample_user) = 40"
    by (simp_all add: governor_eval dim_nat_def)
  with period_rolls_over_once [of ?st sample_user "sample_limits Rolling24h 100" hours24 sample_host]
  show ?thesis by (simp add: Let_def)
qed

section \<open>The round trip of a hold\<close>



section \<open>Events\<close>

lemma fold_emit_warned:
  "fold (\<lambda>w s. s @ [EWarned w t]) ws sink = sink @ map (\<lambda>w. EWarned w t) ws"
  by (induction ws arbitrary: sink) auto

text \<open>
  The events of a reservation attempt are appended in order: one \<open>Warned\<close> per warning,
  then exactly one closing event that tells the outcome (\<open>Reserved\<close>, \<open>ApprovalRequested\<close> or
  \<open>Denied\<close>); other failures emit nothing.
\<close>
theorem reserve_events:
  "gov_sink (fst (mem_reserve h g sc est rid now)) = gov_sink g @
     (case snd (mem_reserve h g sc est rid now) of
        Inr out \<Rightarrow> map (\<lambda>w. EWarned w now) (out_warnings out)
          @ [EReserved (most_specific_account sc) (out_reservation out) (out_warnings out) now]
      | Inl (RequiresApproval n ws) \<Rightarrow> map (\<lambda>w. EWarned w now) ws @ [EApprovalRequested n now]
      | Inl (LimitExceeded dn ws) \<Rightarrow> map (\<lambda>w. EWarned w now) ws @ [EDenied dn now]
      | Inl _ \<Rightarrow> [])"
proof -
  obtain st' res where e: "reserve_with_outcome_in_state h (gov_state g) sc est rid now = (st', res)"
    by fastforce
  have "rsv_scope (out_reservation out) = sc" if "res = Inr out" for out
    using reserve_Ok [OF e [unfolded that]] by fastforce
  then show ?thesis
    by (auto simp: mem_reserve_def e emit_reserve_events_def fold_emit_warned Let_def sink_emit_def
        split: sum.splits resource_error.splits)
qed

section \<open>Accounts without a period\<close>

lemma reconcile_account_usage:
  assumes "hget (limits st) a = Some l" and "period l = PerInvocation"
  shows "tally_at h (usage_by_account (reconcile_account h now t u b st)) a
       = (if b = a then tally_add h (tally_at h (usage_by_account st) a) (tally_from_usage u)
          else tally_at h (usage_by_account st) a)"
proof (cases "b = a")
  case True
  with assms show ?thesis
    by (simp add: reconcile_account_def Let_def advance_period_if_rolled_over_def)
next
  case False
  then have "hget (usage_by_account (advance_period_if_rolled_over h now b st)) a
      = hget (usage_by_account st) a"
    by (simp add: advance_usage_other)
  with False show ?thesis
    by (simp add: reconcile_account_def Let_def) (simp add: tally_at_def)
qed

lemma fold_reconcile_usage:
  assumes "hget (limits st) a = Some l" and "period l = PerInvocation" and "distinct as"
  shows "tally_at h (usage_by_account (fold (reconcile_account h now t u) as st)) a
       = (if a \<in> set as then tally_add h (tally_at h (usage_by_account st) a) (tally_from_usage u)
          else tally_at h (usage_by_account st) a)"
  using assms(1,3)
  by (induction as arbitrary: st) (auto simp: reconcile_account_usage [OF _ assms(2)])

text \<open>
  An account with a \<open>PerInvocation\<close> limit does accumulate: reconciling a reservation charged
  to it adds the actual usage to its tally, which later admissions count against the limit, and
  looking at the account at any later time never resets it.
\<close>
theorem per_invocation_accumulates:
  assumes "hget (limits st) a = Some l" and "period l = PerInvocation"
    and "hget (reservations st) rid = Some rec" and "rec_status rec = Active"
    and "a \<in> set (rec_accounts rec)" and "distinct (rec_accounts rec)"
    and "\<not> use_usd u < dec_zero h"
  shows "dim_nat d (tally_at h (usage_by_account (fst (reconcile_in_state h st rid u now))) a)
       = min (dim_nat d (tally_at h (usage_by_account st) a) + dim_nat d (tally_from_usage u)) (dim_cap d)
    \<and> advance_period_if_rolled_over h later a st = st"
  using assms
  by (simp add: reconcile_in_state_def validate_usage_def fold_reconcile_usage
      advance_period_if_rolled_over_def Let_def dim_simps)

theorem per_invocation_accumulates_witness:
  "let st = fst (reserve_with_outcome_in_state sample_host
        (set_limit_in_state sample_host state_default sample_user (sample_limits PerInvocation 100) 0)
        sample_scope (sample_estimate 60) 7 5);
       st' = fst (reconcile_in_state sample_host st 7 (sample_usage 60) 6)
   in dim_nat InputTokens (tally_at sample_host (usage_by_account st') sample_user) = 60
      \<and> (\<exists>dn ws. snd (reserve_with_outcome_in_state sample_host st' sample_scope (sample_estimate 60) 8
            (1000 * hours24)) = Err (LimitExceeded dn ws))"
proof -
  let ?st = "fst (reserve_with_outcome_in_state sample_host
        (set_limit_in_state sample_host state_default sample_user (sample_limits PerInvocation 100) 0)
        sample_scope (sample_estimate 60) 7 5)"
  let ?st' = "fst (reconcile_in_state sample_host ?st 7 (sample_usage 60) 6)"
  obtain rec where r: "hget (reservations ?st) 7 = Some rec" "rec_status rec = Active"
    "rec_accounts rec = cascade sample_scope"
    by (simp add: governor_eval)
  have "hget (limits ?st) sample_user = Some (sample_limits PerInvocation 100)"
    "sample_user \<in> set (rec_accounts rec)" "distinct (rec_accounts rec)"
    "period (sample_limits PerInvocation 100) = PerInvocation"
    "\<not> use_usd (sample_usage 60) < dec_zero sample_host"
    "dim_nat InputTokens (tally_at sample_host (usage_by_account ?st) sample_user) = 0"
    "dim_nat InputTokens (tally_from_usage (sample_usage 60)) = 60"
    using r(3) by (simp_all add: governor_eval dim_nat_def)
  with per_invocation_accumulates [OF this(1) this(4) r(1,2) this(2,3,5), of InputTokens 6]
  have "dim_nat InputTokens (tally_at sample_host (usage_by_account ?st') sample_user) = 60"
    by simp
  moreover have "\<exists>dn ws. snd (reserve_with_outcome_in_state sample_host ?st' sample_scope
      (sample_estimate 60) 8 (1000 * hours24)) = Err (LimitExceeded dn ws)"
    by (simp add: governor_eval)
  ultimately show ?thesis by (simp add: Let_def)
qed

end
