(* ===== verification/Governor_Store.thy ===== *)
theory Governor_Store
  imports Memory_Governor
begin

text \<open>
  The durable form of the governor state and the file-backed store
  (\<open>ironclaw_resources/src/lib.rs\<close>: \<open>ResourceGovernorSnapshot\<close>, \<open>ResourceStateSerde\<close>,
  \<open>JsonFileResourceGovernorStore\<close>). JSON text itself is \<open>serde_json\<close>'s business: a file holds
  nothing, blank text, a decoded wire value, or text that does not decode. What the operating system
  may refuse in one call is the record \<open>io_faults\<close>; \<open>None\<close> means the step succeeds. Texts of
  errors are kept without the numbers formatted into them.
\<close>

section \<open>Wire form\<close>

record ('d, 'f) state_wire =
  sw_limits :: "(resource_account \<times> ('d, 'f) resource_limits) list"
  sw_reserved :: "(resource_account \<times> 'd resource_tally) list"
  sw_usage :: "(resource_account \<times> 'd resource_tally) list"
  sw_reservations :: "(reservation_id \<times> 'd reservation_record) list"
  sw_anchors :: "(resource_account \<times> instant) list option"

definition hcollect :: "('k \<times> 'v) list \<Rightarrow> ('k, 'v) hmap" where
  "hcollect xs = fold (\<lambda>(k, v) m. hput k v m) xs hempty"

definition state_serialize :: "('d, 'f) resource_state \<Rightarrow> ('d, 'f) state_wire" where
  "state_serialize st =
     \<lparr>sw_limits = limits st, sw_reserved = reserved_by_account st,
      sw_usage = usage_by_account st, sw_reservations = reservations st,
      sw_anchors = (if period_anchors st = hempty then None else Some (period_anchors st))\<rparr>"

definition state_deserialize :: "('d, 'f) state_wire \<Rightarrow> ('d, 'f) resource_state" where
  "state_deserialize w =
     \<lparr>limits = hcollect (sw_limits w), reserved_by_account = hcollect (sw_reserved w),
      usage_by_account = hcollect (sw_usage w), reservations = hcollect (sw_reservations w),
      period_anchors = (case sw_anchors w of None \<Rightarrow> hempty | Some xs \<Rightarrow> hcollect xs)\<rparr>"

record ('d, 'f) governor_snapshot =
  schema_version :: u32
  snap_state :: "('d, 'f) resource_state"
  journal_seq :: u64

record ('d, 'f) snapshot_wire =
  wire_schema_version :: u32
  wire_state :: "('d, 'f) state_wire"
  wire_journal_seq :: u64

definition SCHEMA_VERSION :: u32 where
  "SCHEMA_VERSION = 3"

definition snapshot_default :: "('d, 'f) governor_snapshot" where
  "snapshot_default =
     \<lparr>schema_version = SCHEMA_VERSION, snap_state = state_default, journal_seq = 0\<rparr>"

definition snapshot_serialize :: "('d, 'f) governor_snapshot \<Rightarrow> ('d, 'f) snapshot_wire" where
  "snapshot_serialize s =
     \<lparr>wire_schema_version = schema_version s, wire_state = state_serialize (snap_state s),
      wire_journal_seq = journal_seq s\<rparr>"

definition snapshot_deserialize ::
  "('d, 'f) snapshot_wire \<Rightarrow> decode_error + ('d, 'f) governor_snapshot" where
  "snapshot_deserialize w =
     (if wire_schema_version w = SCHEMA_VERSION then
        Ok \<lparr>schema_version = wire_schema_version w, snap_state = state_deserialize (wire_state w),
            journal_seq = wire_journal_seq w\<rparr>
      else if wire_schema_version w = 1 \<or> wire_schema_version w = 2 then
        Ok \<lparr>schema_version = SCHEMA_VERSION, snap_state = state_deserialize (wire_state w),
            journal_seq = 0\<rparr>
      else Err (Custom ''unsupported resource governor snapshot schema version''))"

section \<open>The file store\<close>

datatype ('d, 'f) file_state =
    FMissing
  | FBlank
  | FJson "('d, 'f) snapshot_wire"
  | FGarbage string

datatype io_error = IoUnsupported string | IoOther string

record io_faults =
  fault_create_dir :: "io_error option"
  fault_open_lock :: "io_error option"
  fault_lock :: "io_error option"
  fault_read :: "io_error option"
  fault_encode :: "io_error option"
  fault_write_temp :: "io_error option"
  fault_rename :: "io_error option"
  fault_sync_dir :: "io_error option"
  fault_unlock :: "io_error option"

definition no_faults :: io_faults where
  "no_faults =
     \<lparr>fault_create_dir = None, fault_open_lock = None, fault_lock = None, fault_read = None,
      fault_encode = None, fault_write_temp = None, fault_rename = None, fault_sync_dir = None,
      fault_unlock = None\<rparr>"

fun io_text :: "io_error \<Rightarrow> string" where
  "io_text (IoUnsupported m) = m"
| "io_text (IoOther m) = m"

definition storage_error :: "io_error \<Rightarrow> ('d, 'f) resource_error" where
  "storage_error e = Storage (io_text e)"

definition io_step :: "io_error option \<Rightarrow> ('d, 'f) resource_error + unit" where
  "io_step f = (case f of None \<Rightarrow> Ok () | Some e \<Rightarrow> Err (storage_error e))"

definition snapshot_decode_error :: "string \<Rightarrow> ('d, 'f) resource_error" where
  "snapshot_decode_error m = Storage (''malformed resource governor snapshot: '' @ m)"

fun decode_error_text :: "decode_error \<Rightarrow> string" where
  "decode_error_text (MissingField f) = ''missing field '' @ f"
| "decode_error_text (Custom m) = m"

definition read_file_snapshot ::
  "io_faults \<Rightarrow> ('d, 'f) file_state \<Rightarrow> ('d, 'f) resource_error + ('d, 'f) governor_snapshot" where
  "read_file_snapshot io file =
     rbind (io_step (fault_read io)) (\<lambda>_.
       case file of
         FMissing \<Rightarrow> Ok snapshot_default
       | FBlank \<Rightarrow> Ok snapshot_default
       | FJson w \<Rightarrow>
           (case snapshot_deserialize w of
              Inl e \<Rightarrow> Err (snapshot_decode_error (decode_error_text e))
            | Inr s \<Rightarrow> Ok s)
       | FGarbage m \<Rightarrow> Err (snapshot_decode_error m))"

definition normalize_parent_dir_sync_result ::
  "io_error option \<Rightarrow> ('d, 'f) resource_error + unit" where
  "normalize_parent_dir_sync_result f =
     (case f of
        None \<Rightarrow> Ok ()
      | Some (IoUnsupported _) \<Rightarrow> Ok ()
      | Some e \<Rightarrow> Err (storage_error e))"

definition write_file_snapshot_atomically ::
  "io_faults \<Rightarrow> ('d, 'f) file_state \<Rightarrow> ('d, 'f) governor_snapshot
    \<Rightarrow> ('d, 'f) file_state \<times> (('d, 'f) resource_error + unit)" where
  "write_file_snapshot_atomically io file snap =
     (case io_step (fault_encode io) of
        Inl e \<Rightarrow> (file, Err e)
      | Inr _ \<Rightarrow>
          (case io_step (fault_write_temp io) of
             Inl e \<Rightarrow> (file, Err e)
           | Inr _ \<Rightarrow>
               (case io_step (fault_rename io) of
                  Inl e \<Rightarrow> (file, Err e)
                | Inr _ \<Rightarrow>
                    (FJson (snapshot_serialize snap),
                     normalize_parent_dir_sync_result (fault_sync_dir io)))))"

definition update_file_snapshot ::
  "io_faults \<Rightarrow> ('d, 'f) file_state
    \<Rightarrow> (('d, 'f) governor_snapshot \<Rightarrow> ('d, 'f) governor_snapshot \<times> (('d, 'f) resource_error + 'a))
    \<Rightarrow> ('d, 'f) file_state \<times> (('d, 'f) resource_error + 'a)" where
  "update_file_snapshot io file upd =
     (case read_file_snapshot io file of
        Inl e \<Rightarrow> (file, Err e)
      | Inr snap \<Rightarrow>
          (case upd snap of
             (_, Inl e) \<Rightarrow> (file, Err e)
           | (snap', Inr v) \<Rightarrow>
               (let (file', w) = write_file_snapshot_atomically io file snap'
                in (file', rbind w (\<lambda>_. Ok v)))))"

definition with_unlock ::
  "io_faults \<Rightarrow> ('d, 'f) resource_error + 'a \<Rightarrow> ('d, 'f) resource_error + 'a" where
  "with_unlock io result =
     (case (result, io_step (fault_unlock io)) of
        (Inr v, Inr _) \<Rightarrow> Ok v
      | (Inl e, _) \<Rightarrow> Err e
      | (Inr _, Inl e) \<Rightarrow> Err e)"

definition json_update ::
  "io_faults \<Rightarrow> ('d, 'f) file_state
    \<Rightarrow> (('d, 'f) governor_snapshot \<Rightarrow> ('d, 'f) governor_snapshot \<times> (('d, 'f) resource_error + 'a))
    \<Rightarrow> ('d, 'f) file_state \<times> (('d, 'f) resource_error + 'a)" where
  "json_update io file upd =
     (case rbind (io_step (fault_create_dir io)) (\<lambda>_.
           rbind (io_step (fault_open_lock io)) (\<lambda>_. io_step (fault_lock io))) of
        Inl e \<Rightarrow> (file, Err e)
      | Inr _ \<Rightarrow>
          (let (file', result) = update_file_snapshot io file upd
           in (file', with_unlock io result)))"

definition json_inspect ::
  "io_faults \<Rightarrow> ('d, 'f) file_state
    \<Rightarrow> (('d, 'f) governor_snapshot \<Rightarrow> ('d, 'f) resource_error + 'a)
    \<Rightarrow> ('d, 'f) resource_error + 'a" where
  "json_inspect io file insp =
     rbind (io_step (fault_create_dir io)) (\<lambda>_.
     rbind (io_step (fault_open_lock io)) (\<lambda>_.
     rbind (io_step (fault_lock io)) (\<lambda>_.
       with_unlock io (rbind (read_file_snapshot io file) insp))))"

section \<open>Maps that survive the wire\<close>

definition state_wf :: "('d, 'f) resource_state \<Rightarrow> bool" where
  "state_wf st \<longleftrightarrow>
     hwf (limits st) \<and> hwf (reserved_by_account st) \<and> hwf (usage_by_account st)
     \<and> hwf (reservations st) \<and> hwf (period_anchors st)"

lemma hwf_fold_put: "hwf m \<Longrightarrow> hwf (fold (\<lambda>(k, v) m. hput k v m) xs m)"
  by (induction xs arbitrary: m) auto

lemma hwf_hcollect [simp]: "hwf (hcollect xs)"
  by (simp add: hcollect_def hwf_fold_put)

lemma fold_put_fresh:
  "distinct (map fst m @ map fst xs) \<Longrightarrow> fold (\<lambda>(k, v) m. hput k v m) xs m = m @ xs"
proof (induction xs arbitrary: m)
  case (Cons x xs)
  obtain k v where x: "x = (k, v)" by (cases x)
  from Cons.prems x have "hget m k = None"
    by (auto simp: map_of_eq_None_iff)
  with Cons x show ?case by (simp add: hput_fresh)
qed simp

lemma hcollect_id [simp]: "hwf m \<Longrightarrow> hcollect m = m"
  by (simp add: hcollect_def hwf_def fold_put_fresh)

lemma state_roundtrip: "state_wf st \<Longrightarrow> state_deserialize (state_serialize st) = st"
  by (simp add: state_wf_def state_serialize_def state_deserialize_def)

lemma state_wf_deserialize [simp]: "state_wf (state_deserialize w)"
  by (auto simp: state_wf_def state_deserialize_def split: option.splits)

lemma state_wf_default [simp]: "state_wf state_default"
  by (simp add: state_wf_def state_default_def)

lemma snapshot_roundtrip:
  "state_wf (snap_state s) \<Longrightarrow> schema_version s = SCHEMA_VERSION \<Longrightarrow>
     snapshot_deserialize (snapshot_serialize s) = Ok s"
  by (simp add: snapshot_serialize_def snapshot_deserialize_def state_roundtrip)

lemma snapshot_deserialize_Ok:
  "snapshot_deserialize w = Ok s \<Longrightarrow> state_wf (snap_state s) \<and> schema_version s = SCHEMA_VERSION"
  by (auto simp: snapshot_deserialize_def split: if_splits)

lemma read_snapshot_Ok:
  "read_file_snapshot io file = Ok s \<Longrightarrow> state_wf (snap_state s) \<and> schema_version s = SCHEMA_VERSION"
  by (auto simp: read_file_snapshot_def snapshot_default_def rbind_eq_Inr
      split: file_state.splits sum.splits dest: snapshot_deserialize_Ok)

section \<open>Every operation keeps the maps well formed\<close>

lemma advance_wf [simp]: "state_wf st \<Longrightarrow> state_wf (advance_period_if_rolled_over h now a st)"
  by (auto simp: state_wf_def advance_period_if_rolled_over_def Let_def split: option.splits)

lemma fold_advance_wf [simp]:
  "state_wf st \<Longrightarrow> state_wf (fold (advance_period_if_rolled_over h now) as st)"
  by (induction as arbitrary: st) auto

lemma fold_entry_add_wf [simp]: "hwf m \<Longrightarrow> hwf (fold (tally_entry_add h t) as m)"
  by (induction as arbitrary: m) (auto simp: tally_entry_add_def)

lemma set_limit_wf [simp]: "state_wf st \<Longrightarrow> state_wf (set_limit_in_state h st a l now)"
  by (auto simp: state_wf_def set_limit_in_state_def Let_def)

lemma reserve_wf:
  "state_wf st \<Longrightarrow> state_wf (fst (reserve_with_outcome_in_state h st sc est rid now))"
  using fold_advance_wf [of st h now "cascade sc"]
  by (auto simp: reserve_with_outcome_in_state_def Let_def state_wf_def split: sum.splits)

lemma reconcile_account_wf: "state_wf st \<Longrightarrow> state_wf (reconcile_account h now t u a st)"
  using advance_wf [of st h now a]
  by (simp add: reconcile_account_def Let_def state_wf_def tally_entry_add_def tally_entry_sub_def)

lemma release_account_wf: "state_wf st \<Longrightarrow> state_wf (release_account h now t a st)"
  using advance_wf [of st h now a]
  by (simp add: release_account_def Let_def state_wf_def tally_entry_sub_def)

lemma fold_reconcile_wf: "state_wf st \<Longrightarrow> state_wf (fold (reconcile_account h now t u) as st)"
  by (induction as arbitrary: st) (auto intro: reconcile_account_wf)

lemma fold_release_wf: "state_wf st \<Longrightarrow> state_wf (fold (release_account h now t) as st)"
  by (induction as arbitrary: st) (auto intro: release_account_wf)

lemma state_wf_put_reservation:
  "state_wf st \<Longrightarrow> state_wf (st\<lparr>reservations := hput i r (reservations st)\<rparr>)"
  by (simp add: state_wf_def)

lemma reconcile_wf: "state_wf st \<Longrightarrow> state_wf (fst (reconcile_in_state h st rid u now))"
  using state_wf_put_reservation [OF fold_reconcile_wf]
  by (auto simp: reconcile_in_state_def Let_def split: option.splits sum.splits)

lemma release_wf: "state_wf st \<Longrightarrow> state_wf (fst (release_in_state h st rid now))"
  using state_wf_put_reservation [OF fold_release_wf]
  by (auto simp: release_in_state_def Let_def split: option.splits)

lemma snapshot_op_wf: "state_wf st \<Longrightarrow> state_wf (fst (account_snapshot_in_state h st a now))"
  by (simp add: account_snapshot_in_state_def Let_def)

lemmas wf_intros =
  reserve_wf reconcile_wf release_wf snapshot_op_wf set_limit_wf advance_wf

section \<open>One transaction\<close>

lemma json_update_Ok:
  assumes "json_update io file upd = (file', Ok v)"
  obtains snap snap' where "read_file_snapshot io file = Ok snap" and "upd snap = (snap', Ok v)"
    and "file' = FJson (snapshot_serialize snap')"
  using assms
  by (auto simp: json_update_def update_file_snapshot_def write_file_snapshot_atomically_def
      with_unlock_def rbind_eq_Inr Let_def split: sum.splits prod.splits)

lemma json_update_Err:
  assumes "json_update io file upd = (file', Err e)"
  shows "file' = file \<or>
    (\<exists>snap snap' v. read_file_snapshot io file = Ok snap \<and> upd snap = (snap', Ok v)
       \<and> file' = FJson (snapshot_serialize snap')
       \<and> (fault_sync_dir io \<noteq> None \<or> fault_unlock io \<noteq> None))"
  using assms
  by (auto simp: json_update_def update_file_snapshot_def write_file_snapshot_atomically_def
      with_unlock_def normalize_parent_dir_sync_result_def io_step_def rbind_eq_Inr Let_def
      split: sum.splits prod.splits option.splits)

lemma io_step_None [simp]: "io_step None = Ok ()"
  by (simp add: io_step_def)

lemma no_faults_simps [simp]:
  "fault_create_dir no_faults = None" "fault_open_lock no_faults = None"
  "fault_lock no_faults = None" "fault_read no_faults = None" "fault_encode no_faults = None"
  "fault_write_temp no_faults = None" "fault_rename no_faults = None"
  "fault_sync_dir no_faults = None" "fault_unlock no_faults = None"
  by (simp_all add: no_faults_def)

lemma json_update_no_faults:
  "json_update no_faults file upd =
     (case read_file_snapshot no_faults file of
        Inl e \<Rightarrow> (file, Err e)
      | Inr snap \<Rightarrow>
          (case upd snap of
             (_, Inl e) \<Rightarrow> (file, Err e)
           | (snap', Inr v) \<Rightarrow> (FJson (snapshot_serialize snap'), Ok v)))"
  by (auto simp: json_update_def update_file_snapshot_def write_file_snapshot_atomically_def
      with_unlock_def normalize_parent_dir_sync_result_def Let_def split: sum.splits prod.splits)

lemma read_after_write:
  assumes "state_wf (snap_state s)" and "schema_version s = SCHEMA_VERSION"
    and "fault_read io = None"
  shows "read_file_snapshot io (FJson (snapshot_serialize s)) = Ok s"
  using assms by (simp add: read_file_snapshot_def snapshot_roundtrip)

end
