(* ===== verification/Persistent_Governor.thy ===== *)
theory Persistent_Governor
  imports Governor_Store Resource_Ledger
begin

text \<open>
  \<open>PersistentResourceGovernor\<close> over the file store (\<open>ironclaw_resources/src/lib.rs\<close>),
  with its opt-in process-local path for governors without finite limits. Every call takes the
  faults of its read-only inspection and of its update. The mutex around the local state is
  poisoned only by a panic of another holder, which is not modelled.
\<close>

section \<open>The process-local path\<close>

record ('d, 'f) unlimited_fast_path_state =
  fl_state :: "('d, 'f) resource_state"
  fl_initialized :: bool

record ('d, 'f) persistent_governor =
  pg_file :: "('d, 'f) file_state"
  pg_fast :: bool
  pg_local :: "('d, 'f) unlimited_fast_path_state"
  pg_sink :: "('d, 'f) event_sink"

definition pg_new :: "bool \<Rightarrow> ('d, 'f) persistent_governor" where
  "pg_new fast =
     \<lparr>pg_file = FMissing, pg_fast = fast,
      pg_local = \<lparr>fl_state = state_default, fl_initialized = False\<rparr>, pg_sink = []\<rparr>"

definition resource_state_has_finite_limits ::
  "('d::linorder, 'f) host_ops \<Rightarrow> ('d, 'f) resource_state \<Rightarrow> bool" where
  "resource_state_has_finite_limits h st = list_ex (\<lambda>l. \<not> is_unlimited h l) (hvalues (limits st))"

definition sanitized_unlimited_fast_path_state ::
  "('d, 'f) resource_state \<Rightarrow> ('d, 'f) resource_state" where
  "sanitized_unlimited_fast_path_state st =
     st\<lparr>reserved_by_account := hempty, usage_by_account := hempty, reservations := hempty\<rparr>"

definition merge_unlimited_fast_path_state ::
  "('d, 'f) host_ops \<Rightarrow> ('d, 'f) resource_state \<Rightarrow> ('d, 'f) resource_state
    \<Rightarrow> ('d, 'f) resource_state" where
  "merge_unlimited_fast_path_state h target local =
     target\<lparr>reserved_by_account :=
              fold (\<lambda>(a, t). tally_entry_add h t a) (reserved_by_account local)
                (reserved_by_account target),
            usage_by_account :=
              fold (\<lambda>(a, t). tally_entry_add h t a) (usage_by_account local)
                (usage_by_account target),
            reservations :=
              fold (\<lambda>(i, r). hput i r) (reservations local) (reservations target),
            period_anchors :=
              fold (\<lambda>(a, e). hput a e) (period_anchors local) (period_anchors target)\<rparr>"

definition unlimited_fast_path_seed ::
  "('d::linorder, 'f) host_ops \<Rightarrow> io_faults \<Rightarrow> ('d, 'f) persistent_governor
    \<Rightarrow> ('d, 'f) resource_error + ('d, 'f) resource_state option" where
  "unlimited_fast_path_seed h io g =
     (if \<not> pg_fast g then Ok None
      else json_inspect io (pg_file g) (\<lambda>snap.
        if resource_state_has_finite_limits h (snap_state snap) then Ok None
        else Ok (Some (sanitized_unlimited_fast_path_state (snap_state snap)))))"

definition seeded_local ::
  "('d, 'f) resource_state \<Rightarrow> ('d, 'f) unlimited_fast_path_state
    \<Rightarrow> ('d, 'f) unlimited_fast_path_state" where
  "seeded_local seed local =
     (if fl_initialized local then local else \<lparr>fl_state = seed, fl_initialized = True\<rparr>)"

definition on_snapshot_state ::
  "(('d, 'f) resource_state \<Rightarrow> ('d, 'f) resource_state \<times> (('d, 'f) resource_error + 'a))
    \<Rightarrow> ('d, 'f) governor_snapshot
    \<Rightarrow> ('d, 'f) governor_snapshot \<times> (('d, 'f) resource_error + 'a)" where
  "on_snapshot_state upd snap =
     (let (st, r) = upd (snap_state snap) in (snap\<lparr>snap_state := st\<rparr>, r))"

definition update_active_state ::
  "('d::linorder, 'f) host_ops \<Rightarrow> io_faults \<Rightarrow> io_faults \<Rightarrow> ('d, 'f) persistent_governor
    \<Rightarrow> (('d, 'f) resource_state \<Rightarrow> ('d, 'f) resource_state \<times> (('d, 'f) resource_error + 'a))
    \<Rightarrow> ('d, 'f) persistent_governor \<times> (('d, 'f) resource_error + 'a)" where
  "update_active_state h io_in io_up g upd =
     (case unlimited_fast_path_seed h io_in g of
        Inl e \<Rightarrow> (g, Err e)
      | Inr (Some seed) \<Rightarrow>
          (let local = seeded_local seed (pg_local g);
               (st, r) = upd (fl_state local)
           in (g\<lparr>pg_local := local\<lparr>fl_state := st\<rparr>\<rparr>, r))
      | Inr None \<Rightarrow>
          (let (file, r) = json_update io_up (pg_file g) (on_snapshot_state upd)
           in (g\<lparr>pg_file := file\<rparr>, r)))"

definition close_fast_path_or_durable ::
  "('d::linorder, 'f) host_ops \<Rightarrow> io_faults \<Rightarrow> io_faults \<Rightarrow> ('d, 'f) persistent_governor
    \<Rightarrow> (('d, 'f) resource_state \<Rightarrow> ('d, 'f) resource_state \<times> (('d, 'f) resource_error + 'a))
    \<Rightarrow> ('d, 'f) persistent_governor \<times> (('d, 'f) resource_error + 'a)" where
  "close_fast_path_or_durable h io_in io_up g close =
     (let durable = (\<lambda>g1. let (file, r) = json_update io_up (pg_file g1) (on_snapshot_state close)
                          in (g1\<lparr>pg_file := file\<rparr>, r))
      in case unlimited_fast_path_seed h io_in g of
           Inl e \<Rightarrow> (g, Err e)
         | Inr None \<Rightarrow> durable g
         | Inr (Some seed) \<Rightarrow>
             (let local = seeded_local seed (pg_local g);
                  (st, r) = close (fl_state local);
                  g1 = g\<lparr>pg_local := local\<lparr>fl_state := st\<rparr>\<rparr>
              in case r of
                   Inr v \<Rightarrow> (g1, Ok v)
                 | Inl (UnknownReservation _) \<Rightarrow> durable g1
                 | Inl e \<Rightarrow> (g1, Err e)))"

section \<open>The governor methods\<close>

definition try_set_limit ::
  "('d::linorder, 'f) host_ops \<Rightarrow> io_faults \<Rightarrow> ('d, 'f) persistent_governor \<Rightarrow> resource_account
    \<Rightarrow> ('d, 'f) resource_limits \<Rightarrow> instant
    \<Rightarrow> ('d, 'f) persistent_governor \<times> (('d, 'f) resource_error + unit)" where
  "try_set_limit h io g a l now =
     (if pg_fast g then
        (let local = pg_local g;
             upd = (\<lambda>snap.
               let st0 = (if fl_initialized local \<and> \<not> is_unlimited h l
                             \<and> \<not> resource_state_has_finite_limits h (snap_state snap)
                          then merge_unlimited_fast_path_state h (snap_state snap) (fl_state local)
                          else snap_state snap);
                   st1 = set_limit_in_state h st0 a l now
               in (snap\<lparr>snap_state := st1\<rparr>, Ok st1));
             (file, r) = json_update io (pg_file g) upd
         in case r of
              Inl e \<Rightarrow> (g\<lparr>pg_file := file\<rparr>, Err e)
            | Inr updated \<Rightarrow>
                (let st' =
                   (if resource_state_has_finite_limits h updated then updated
                    else if fl_initialized local
                      then set_limit_in_state h (fl_state local) a l now
                    else sanitized_unlimited_fast_path_state updated)
                 in (g\<lparr>pg_file := file,
                       pg_local := \<lparr>fl_state = st', fl_initialized = True\<rparr>\<rparr>, Ok ())))
      else
        (let (file, r) = json_update io (pg_file g)
               (\<lambda>snap. (snap\<lparr>snap_state := set_limit_in_state h (snap_state snap) a l now\<rparr>, Ok ()))
         in (g\<lparr>pg_file := file\<rparr>, r)))"

definition pg_set_limit ::
  "('d::linorder, 'f) host_ops \<Rightarrow> io_faults \<Rightarrow> ('d, 'f) persistent_governor \<Rightarrow> resource_account
    \<Rightarrow> ('d, 'f) resource_limits \<Rightarrow> instant
    \<Rightarrow> ('d, 'f) persistent_governor \<times> (('d, 'f) resource_error + unit)" where
  "pg_set_limit h io g a l now =
     (let (g1, r) = try_set_limit h io g a l now
      in (if is_ok r then g1\<lparr>pg_sink := sink_emit (ELimitChanged a now) (pg_sink g1)\<rparr> else g1, r))"

definition pg_reserve ::
  "('d::linorder, 'f) host_ops \<Rightarrow> io_faults \<Rightarrow> io_faults \<Rightarrow> ('d, 'f) persistent_governor
    \<Rightarrow> resource_scope \<Rightarrow> 'd resource_estimate \<Rightarrow> reservation_id \<Rightarrow> instant
    \<Rightarrow> ('d, 'f) persistent_governor \<times> (('d, 'f) resource_error + ('d, 'f) reservation_outcome)" where
  "pg_reserve h io_in io_up g sc est rid now =
     (let (g1, r) = update_active_state h io_in io_up g
            (\<lambda>st. reserve_with_outcome_in_state h st sc est rid now)
      in (g1\<lparr>pg_sink := emit_reserve_events (pg_sink g1) r now\<rparr>, r))"

definition pg_reconcile ::
  "('d::linorder, 'f) host_ops \<Rightarrow> io_faults \<Rightarrow> io_faults \<Rightarrow> ('d, 'f) persistent_governor
    \<Rightarrow> reservation_id \<Rightarrow> 'd resource_usage \<Rightarrow> instant
    \<Rightarrow> ('d, 'f) persistent_governor \<times> (('d, 'f) resource_error + 'd resource_receipt)" where
  "pg_reconcile h io_in io_up g rid actual now =
     (let (g1, r) = close_fast_path_or_durable h io_in io_up g
            (\<lambda>st. reconcile_in_state h st rid actual now)
      in (case r of
            Inr rcp \<Rightarrow> g1\<lparr>pg_sink := sink_emit
              (EReconciled (most_specific_account (rcp_scope rcp)) rcp now) (pg_sink g1)\<rparr>
          | Inl _ \<Rightarrow> g1, r))"

definition pg_release ::
  "('d::linorder, 'f) host_ops \<Rightarrow> io_faults \<Rightarrow> io_faults \<Rightarrow> ('d, 'f) persistent_governor
    \<Rightarrow> reservation_id \<Rightarrow> instant
    \<Rightarrow> ('d, 'f) persistent_governor \<times> (('d, 'f) resource_error + 'd resource_receipt)" where
  "pg_release h io_in io_up g rid now =
     (let (g1, r) = close_fast_path_or_durable h io_in io_up g
            (\<lambda>st. release_in_state h st rid now)
      in (case r of
            Inr rcp \<Rightarrow> g1\<lparr>pg_sink := sink_emit
              (EReleased (most_specific_account (rcp_scope rcp)) rcp now) (pg_sink g1)\<rparr>
          | Inl _ \<Rightarrow> g1, r))"

definition pg_account_snapshot ::
  "('d::linorder, 'f) host_ops \<Rightarrow> io_faults \<Rightarrow> io_faults \<Rightarrow> ('d, 'f) persistent_governor
    \<Rightarrow> resource_account \<Rightarrow> instant
    \<Rightarrow> ('d, 'f) persistent_governor
        \<times> (('d, 'f) resource_error + ('d, 'f) account_snapshot option)" where
  "pg_account_snapshot h io_in io_up g a now =
     update_active_state h io_in io_up g
       (\<lambda>st. let (st', snap) = account_snapshot_in_state h st a now in (st', Ok snap))"

definition pg_reserved_for ::
  "('d::linorder, 'f) host_ops \<Rightarrow> io_faults \<Rightarrow> io_faults \<Rightarrow> ('d, 'f) persistent_governor
    \<Rightarrow> resource_account \<Rightarrow> instant
    \<Rightarrow> ('d, 'f) persistent_governor \<times> (('d, 'f) resource_error + 'd resource_tally)" where
  "pg_reserved_for h io_in io_up g a now =
     update_active_state h io_in io_up g
       (\<lambda>st. let st' = advance_period_if_rolled_over h now a st
             in (st', Ok (tally_at h (reserved_by_account st') a)))"

definition pg_usage_for ::
  "('d::linorder, 'f) host_ops \<Rightarrow> io_faults \<Rightarrow> io_faults \<Rightarrow> ('d, 'f) persistent_governor
    \<Rightarrow> resource_account \<Rightarrow> instant
    \<Rightarrow> ('d, 'f) persistent_governor \<times> (('d, 'f) resource_error + 'd resource_tally)" where
  "pg_usage_for h io_in io_up g a now =
     update_active_state h io_in io_up g
       (\<lambda>st. let st' = advance_period_if_rolled_over h now a st
             in (st', Ok (tally_at h (usage_by_account st') a)))"

fun pg_exec ::
  "('d::linorder, 'f) host_ops \<Rightarrow> ('d, 'f) persistent_governor
    \<Rightarrow> ('d, 'f) gov_op \<times> io_faults \<times> io_faults
    \<Rightarrow> ('d, 'f) persistent_governor \<times> ('d, 'f) gov_resp" where
  "pg_exec h g (OpSetLimit a l now, i, u) =
     (let (g', r) = pg_set_limit h u g a l now in (g', RSetLimit r))"
| "pg_exec h g (OpReserve sc est rid now, i, u) =
     (let (g', r) = pg_reserve h i u g sc est rid now in (g', RReserve r))"
| "pg_exec h g (OpReconcile rid a now, i, u) =
     (let (g', r) = pg_reconcile h i u g rid a now in (g', RReceipt r))"
| "pg_exec h g (OpRelease rid now, i, u) =
     (let (g', r) = pg_release h i u g rid now in (g', RReceipt r))"
| "pg_exec h g (OpSnapshot a now, i, u) =
     (let (g', r) = pg_account_snapshot h i u g a now in (g', RSnapshot r))"
| "pg_exec h g (OpReservedFor a now, i, u) =
     (let (g', r) = pg_reserved_for h i u g a now in (g', RTally r))"
| "pg_exec h g (OpUsageFor a now, i, u) =
     (let (g', r) = pg_usage_for h i u g a now in (g', RTally r))"

lemmas pg_op_defs =
  pg_set_limit_def try_set_limit_def pg_reserve_def pg_reconcile_def pg_release_def
  pg_account_snapshot_def pg_reserved_for_def pg_usage_for_def

end
