(* ===== verification/Durable_Behaviour.thy ===== *)
theory Durable_Behaviour
  imports Persistent_Governor Sample_Host
begin

text \<open>
  What the durable governor guarantees: a transaction of the file store is all or nothing up to a
  fault after the rename, snapshots survive the wire and older schemas are migrated, the durable
  governor refines the in-memory one, and it keeps the reservation protocol under every I/O fault.
  The last section shows where the process-local path of unlimited governors breaks that protocol.
\<close>

definition durable_abs :: "('d, 'f) persistent_governor \<Rightarrow> ('d, 'f) mem_governor option" where
  "durable_abs g =
     (case read_file_snapshot no_faults (pg_file g) of
        Inl _ \<Rightarrow> None
      | Inr s \<Rightarrow> Some \<lparr>gov_state = snap_state s, gov_sink = pg_sink g\<rparr>)"

definition durable_status ::
  "('d, 'f) file_state \<Rightarrow> reservation_id \<Rightarrow> reservation_status option" where
  "durable_status file =
     (case read_file_snapshot no_faults file of
        Inl _ \<Rightarrow> (\<lambda>_. None)
      | Inr s \<Rightarrow> state_status (snap_state s))"

definition resp_ok :: "('d, 'f) gov_resp \<Rightarrow> bool" where
  "resp_ok r =
     (case r of
        RSetLimit v \<Rightarrow> is_ok v | RReserve v \<Rightarrow> is_ok v | RReceipt v \<Rightarrow> is_ok v
      | RSnapshot v \<Rightarrow> is_ok v | RTally v \<Rightarrow> is_ok v)"

section \<open>Reading back what was written\<close>

lemma read_any_fault:
  "read_file_snapshot io file = Ok s \<Longrightarrow> read_file_snapshot no_faults file = Ok s"
  by (auto simp: read_file_snapshot_def rbind_eq_Inr)

lemma read_updated:
  assumes "read_file_snapshot io file = Ok snap" and "state_wf st"
  shows "read_file_snapshot no_faults (FJson (snapshot_serialize (snap\<lparr>snap_state := st\<rparr>)))
    = Ok (snap\<lparr>snap_state := st\<rparr>)"
  using assms read_snapshot_Ok [OF assms(1)] by (simp add: read_after_write)

lemma not_fast_update:
  "\<not> pg_fast g \<Longrightarrow> update_active_state h io_in io_up g upd =
     (let (file, r) = json_update io_up (pg_file g) (on_snapshot_state upd)
      in (g\<lparr>pg_file := file\<rparr>, r))"
  by (simp add: update_active_state_def unlimited_fast_path_seed_def)

lemma not_fast_close:
  "\<not> pg_fast g \<Longrightarrow> close_fast_path_or_durable h io_in io_up g upd =
     (let (file, r) = json_update io_up (pg_file g) (on_snapshot_state upd)
      in (g\<lparr>pg_file := file\<rparr>, r))"
  by (simp add: close_fast_path_or_durable_def unlimited_fast_path_seed_def)

lemma not_fast_set_limit:
  "\<not> pg_fast g \<Longrightarrow> try_set_limit h io g a l now =
     (let (file, r) = json_update io (pg_file g)
            (on_snapshot_state (\<lambda>st. (set_limit_in_state h st a l now, Ok ())))
      in (g\<lparr>pg_file := file\<rparr>, r))"
  by (simp add: try_set_limit_def on_snapshot_state_def [abs_def] Let_def)

lemmas not_fast = not_fast_update not_fast_close not_fast_set_limit

lemma pg_exec_keeps_mode:
  "\<not> pg_fast g \<Longrightarrow> \<not> pg_fast (fst (pg_exec h g x))"
  by (induction h g x rule: pg_exec.induct)
     (auto simp: pg_op_defs not_fast Let_def split: prod.splits sum.splits)

section \<open>The status of reservations in the file\<close>

text \<open>One transaction of the file store, seen through the status map: a reply that reached the
  caller tells the effect; a failed call left the map alone or took its full effect.\<close>

lemma durable_transaction_status:
  assumes "json_update io file (on_snapshot_state upd) = (file', r)"
    and wf: "\<And>st. state_wf st \<Longrightarrow> state_wf (fst (upd st))"
  obtains (committed) st st' v where "durable_status file = state_status st"
      "upd st = (st', Ok v)" "durable_status file' = state_status st'" "r = Ok v \<or> (\<exists>e. r = Err e)"
    | (untouched) e where "durable_status file' = durable_status file" "r = Err e"
proof -
  have seen: thesis if rd: "read_file_snapshot io file = Ok snap"
      and up: "on_snapshot_state upd snap = (snap', Ok v)"
      and fl: "file' = FJson (snapshot_serialize snap')"
      and rv: "r = Ok v \<or> (\<exists>e. r = Err e)" for snap snap' v
  proof -
    obtain st' where u: "upd (snap_state snap) = (st', Ok v)" and s: "snap' = snap\<lparr>snap_state := st'\<rparr>"
      using up by (auto simp: on_snapshot_state_def Let_def split: prod.splits)
    have "state_wf st'"
      using wf [of "snap_state snap"] read_snapshot_Ok [OF rd] u by simp
    then show thesis
      using committed [of "snap_state snap" st' v] u fl rv s
        read_updated [OF rd, of st'] read_any_fault [OF rd]
      by (simp add: durable_status_def)
  qed
  show thesis
  proof (cases r)
    case (Inr v)
    with assms(1) show ?thesis
      by (auto elim!: json_update_Ok intro: seen)
  next
    case (Inl e)
    with assms(1) have "json_update io file (on_snapshot_state upd) = (file', Err e)" by simp
    from json_update_Err [OF this] Inl show ?thesis using seen untouched by blast
  qed
qed

text \<open>The laws of the protocol for one transaction, from the laws of the operation on the state.\<close>

definition status_step ::
  "('d, 'f) gov_resp \<Rightarrow> (reservation_id \<Rightarrow> reservation_status option)
    \<Rightarrow> (reservation_id \<Rightarrow> reservation_status option) \<Rightarrow> bool" where
  "status_step r f f' \<longleftrightarrow>
     (\<forall>i. resp_opens r = Some i \<longrightarrow> f i = None \<and> f' i = Some Active)
   \<and> (\<forall>i. resp_closes r = Some i \<longrightarrow> f i = Some Active \<and> (\<exists>st. st \<noteq> Active \<and> f' i = Some st))
   \<and> (\<forall>j. status_advances Active (f j) (f' j))"

lemma status_step_same:
  "resp_opens r = None \<Longrightarrow> resp_closes r = None \<Longrightarrow> status_step r f f"
  by (simp add: status_step_def)

lemma resp_Err [simp]:
  "resp_opens (RReserve (Inl e)) = None" "resp_closes (RReserve x) = None"
  "resp_opens (RReceipt y) = None" "resp_closes (RReceipt (Inl e)) = None"
  "resp_opens (RSetLimit a) = None" "resp_closes (RSetLimit a) = None"
  "resp_opens (RSnapshot b) = None" "resp_closes (RSnapshot b) = None"
  "resp_opens (RTally c) = None" "resp_closes (RTally c) = None"
  by (simp_all add: resp_opens_def resp_closes_def)

lemma durable_transaction_step:
  assumes "json_update io file (on_snapshot_state upd) = (file', r)"
    and wf: "\<And>st. state_wf st \<Longrightarrow> state_wf (fst (upd st))"
    and law: "\<And>st st' v. upd st = (st', Ok v) \<Longrightarrow>
      status_step (mk (Ok v)) (state_status st) (state_status st')"
    and err: "\<And>e. resp_opens (mk (Inl e)) = None \<and> resp_closes (mk (Inl e)) = None"
  shows "status_step (mk r) (durable_status file) (durable_status file')"
proof (rule durable_transaction_status [OF assms(1) wf])
  fix st st' v
  assume c: "durable_status file = state_status st" "upd st = (st', Ok v)"
    "durable_status file' = state_status st'" "r = Ok v \<or> (\<exists>e. r = Err e)"
  show ?thesis
    using law [OF c(2)] err c by (auto simp: status_step_def)
next
  fix e
  assume "durable_status file' = durable_status file" "r = Err e"
  then show ?thesis using err by (simp add: status_step_same)
qed

lemma reserve_law:
  "reserve_with_outcome_in_state h st sc est rid now = (st', Ok v) \<Longrightarrow>
     status_step (RReserve (Ok v)) (state_status st) (state_status st')"
  by (drule reserve_status) (auto simp: status_step_def resp_opens_def status_advances_def)

lemma reconcile_law:
  "reconcile_in_state h st rid u now = (st', Ok v) \<Longrightarrow>
     status_step (RReceipt (Ok v)) (state_status st) (state_status st')"
  by (drule reconcile_status) (auto simp: status_step_def resp_closes_def status_advances_def)

lemma release_law:
  "release_in_state h st rid now = (st', Ok v) \<Longrightarrow>
     status_step (RReceipt (Ok v)) (state_status st) (state_status st')"
  by (drule release_status) (auto simp: status_step_def resp_closes_def status_advances_def)

lemma silent_law:
  "resp_opens r = None \<Longrightarrow> resp_closes r = None \<Longrightarrow> reservations st' = reservations st \<Longrightarrow>
     status_step r (state_status st) (state_status st')"
  by (metis state_status_cong status_step_same)

lemma durable_silent_step:
  assumes "json_update io file (on_snapshot_state upd) = (file', r)"
    and "\<And>st. state_wf st \<Longrightarrow> state_wf (fst (upd st))"
    and "\<And>st. reservations (fst (upd st)) = reservations st"
    and "\<And>w. resp_opens (mk w) = None \<and> resp_closes (mk w) = None"
  shows "status_step (mk r) (durable_status file) (durable_status file')"
proof (rule durable_transaction_step [OF assms(1,2)])
  show "status_step (mk (Ok v)) (state_status st) (state_status st')" if "upd st = (st', Ok v)"
    for st st' v
    using assms(3) [of st] assms(4) that by (auto intro: silent_law)
qed (use assms(4) in auto)

lemma pg_exec_status:
  assumes "\<not> pg_fast g" and "pg_exec h g x = (g', r)"
  shows "status_step r (durable_status (pg_file g)) (durable_status (pg_file g'))"
proof -
  obtain y i u where x: "x = (y, i, u)" by (cases x)
  show ?thesis
  proof (cases y)
    case (OpSetLimit a l now)
    obtain f v where j: "json_update u (pg_file g)
        (on_snapshot_state (\<lambda>st. (set_limit_in_state h st a l now, Ok ()))) = (f, v)" by fastforce
    have "pg_file g' = f" "r = RSetLimit v"
      using assms x OpSetLimit j by (auto simp: pg_set_limit_def not_fast split: if_splits)
    then show ?thesis by (simp add: durable_silent_step [OF j, of RSetLimit])
  next
    case (OpReserve sc est rid now)
    obtain f v where j: "json_update u (pg_file g)
        (on_snapshot_state (\<lambda>st. reserve_with_outcome_in_state h st sc est rid now)) = (f, v)"
      by fastforce
    have "pg_file g' = f" "r = RReserve v"
      using assms x OpReserve j by (auto simp: pg_reserve_def not_fast)
    then show ?thesis
      using durable_transaction_step [OF j, of RReserve] by (auto intro: reserve_wf reserve_law)
  next
    case (OpReconcile rid a now)
    obtain f v where j: "json_update u (pg_file g)
        (on_snapshot_state (\<lambda>st. reconcile_in_state h st rid a now)) = (f, v)" by fastforce
    have "pg_file g' = f" "r = RReceipt v"
      using assms x OpReconcile j by (auto simp: pg_reconcile_def not_fast split: sum.splits)
    then show ?thesis
      using durable_transaction_step [OF j, of RReceipt] by (auto intro: reconcile_wf reconcile_law)
  next
    case (OpRelease rid now)
    obtain f v where j: "json_update u (pg_file g)
        (on_snapshot_state (\<lambda>st. release_in_state h st rid now)) = (f, v)" by fastforce
    have "pg_file g' = f" "r = RReceipt v"
      using assms x OpRelease j by (auto simp: pg_release_def not_fast split: sum.splits)
    then show ?thesis
      using durable_transaction_step [OF j, of RReceipt] by (auto intro: release_wf release_law)
  next
    case (OpSnapshot a now)
    obtain f v where j: "json_update u (pg_file g) (on_snapshot_state (\<lambda>st.
        let (st', snap) = account_snapshot_in_state h st a now in (st', Ok snap))) = (f, v)"
      by fastforce
    have "pg_file g' = f" "r = RSnapshot v"
      using assms x OpSnapshot j by (auto simp: pg_account_snapshot_def not_fast)
    moreover have "status_step (RSnapshot v) (durable_status (pg_file g)) (durable_status f)"
      by (rule durable_silent_step [OF j]) (simp_all add: snapshot_op_wf split_def Let_def)
    ultimately show ?thesis by simp
  next
    case (OpReservedFor a now)
    obtain f v where j: "json_update u (pg_file g) (on_snapshot_state (\<lambda>st.
        let st' = advance_period_if_rolled_over h now a st
        in (st', Ok (tally_at h (reserved_by_account st') a)))) = (f, v)" by fastforce
    have "pg_file g' = f" "r = RTally v"
      using assms x OpReservedFor j by (auto simp: pg_reserved_for_def not_fast)
    then show ?thesis by (simp add: durable_silent_step [OF j, of RTally] Let_def)
  next
    case (OpUsageFor a now)
    obtain f v where j: "json_update u (pg_file g) (on_snapshot_state (\<lambda>st.
        let st' = advance_period_if_rolled_over h now a st
        in (st', Ok (tally_at h (usage_by_account st') a)))) = (f, v)" by fastforce
    have "pg_file g' = f" "r = RTally v"
      using assms x OpUsageFor j by (auto simp: pg_usage_for_def not_fast)
    then show ?thesis by (simp add: durable_silent_step [OF j, of RTally] Let_def)
  qed
qed

interpretation durable_gov: lifecycle_protocol
  "\<lambda>g. \<not> pg_fast g" Active "\<lambda>g. durable_status (pg_file g)" "pg_exec h" resp_opens resp_closes
  for h :: "('d::linorder, 'f) host_ops"
proof
  fix g g' :: "('d, 'f) persistent_governor" and x r i j
  show "\<not> pg_fast g \<Longrightarrow> \<not> pg_fast (fst (pg_exec h g x))"
    by (rule pg_exec_keeps_mode)
  assume "\<not> pg_fast g" and "pg_exec h g x = (g', r)"
  then have s: "status_step r (durable_status (pg_file g)) (durable_status (pg_file g'))"
    by (rule pg_exec_status)
  then show "status_advances Active (durable_status (pg_file g) j) (durable_status (pg_file g') j)"
    by (simp add: status_step_def)
  show "resp_opens r = Some i \<Longrightarrow>
      durable_status (pg_file g) i = None \<and> durable_status (pg_file g') i = Some Active"
    using s by (simp add: status_step_def)
  show "resp_closes r = Some i \<Longrightarrow> durable_status (pg_file g) i = Some Active
      \<and> (\<exists>st. st \<noteq> Active \<and> durable_status (pg_file g') i = Some st)"
    using s by (simp add: status_step_def)
qed

section \<open>Refinement of the in-memory governor\<close>

lemma durable_no_faults_update:
  assumes "read_file_snapshot no_faults file = Ok snap"
    and "state_wf (fst (upd (snap_state snap)))"
    and "json_update no_faults file (on_snapshot_state upd) = (file', r)"
  shows "r = snd (upd (snap_state snap))"
    and "\<exists>snap'. read_file_snapshot no_faults file' = Ok snap'
      \<and> snap_state snap' = (if is_ok r then fst (upd (snap_state snap)) else snap_state snap)"
  using assms read_updated [OF assms(1,2)]
  by (auto simp: json_update_no_faults on_snapshot_state_def split_def Let_def is_ok_def
      split: sum.splits prod.splits)

text \<open>What the client of the durable governor sees of one fault-free transaction, with any
  continuation that only adds events.\<close>

lemma durable_abs_cases:
  assumes "durable_abs g = Some m"
  obtains snap where "read_file_snapshot no_faults (pg_file g) = Ok snap" "state_wf (snap_state snap)"
    "gov_state m = snap_state snap" "gov_sink m = pg_sink g"
proof -
  obtain snap where "read_file_snapshot no_faults (pg_file g) = Ok snap"
    and "m = \<lparr>gov_state = snap_state snap, gov_sink = pg_sink g\<rparr>"
    using assms by (auto simp: durable_abs_def split: sum.splits)
  with that read_snapshot_Ok show thesis by fastforce
qed

lemma durable_abs_update:
  assumes "durable_abs g = Some m"
    and "\<And>st. state_wf st \<Longrightarrow> state_wf (fst (upd st))"
    and "json_update no_faults (pg_file g) (on_snapshot_state upd) = (file', r)"
  shows "r = snd (upd (gov_state m)) \<and>
    (\<forall>g'. pg_file g' = file' \<longrightarrow> durable_abs g'
      = Some \<lparr>gov_state = (if is_ok r then fst (upd (gov_state m)) else gov_state m),
              gov_sink = pg_sink g'\<rparr>)"
proof -
  from assms(1) obtain snap where s: "read_file_snapshot no_faults (pg_file g) = Ok snap"
    "state_wf (snap_state snap)" "gov_state m = snap_state snap"
    by (rule durable_abs_cases)
  from durable_no_faults_update [OF s(1) assms(2) [OF s(2)] assms(3)] s(3) show ?thesis
    by (auto simp: durable_abs_def)
qed

lemma durable_abs_sink: "durable_abs g = Some m \<Longrightarrow> gov_sink m = pg_sink g"
  by (auto simp: durable_abs_def split: sum.splits)


lemma durable_new: "durable_abs (pg_new b) = Some mem_new"
  by (simp add: durable_abs_def pg_new_def read_file_snapshot_def snapshot_default_def mem_new_def)


section \<open>The protocol under I/O faults\<close>

text \<open>(C11) Safety: whatever I/O faults the calls of a durable governor meet (including a reply lost
  after the file was replaced), no reservation identifier is ever granted twice and no
  reservation is ever closed twice, in any sequence of calls.\<close>

theorem durable_opened_and_closed_once:
  assumes "\<not> pg_fast g"
  shows "count_list (map resp_opens (snd (run_ops (pg_exec h) g xs))) (Some i) \<le> 1
    \<and> count_list (map resp_closes (snd (run_ops (pg_exec h) g xs))) (Some i) \<le> 1"
  using durable_gov.opens_at_most_once [OF assms] durable_gov.closes_at_most_once [OF assms] by blast

theorem durable_opened_and_closed_once_witness:
  "count_list (map resp_closes (snd (run_ops (pg_exec sample_host) (pg_new False)
     [(OpReserve sample_scope (sample_estimate 60) 7 5, no_faults, no_faults),
      (OpRelease 7 6, no_faults, no_faults\<lparr>fault_unlock := Some (IoOther ''lost'')\<rparr>),
      (OpRelease 7 7, no_faults, no_faults)]))) (Some 7) \<le> 1"
  by (rule durable_opened_and_closed_once [THEN conjunct2]) (simp add: pg_new_def)

text \<open>Safety: a transaction of the file store either replaces the file by the state the
  update computed, or fails leaving the file as it was; it may fail after replacing the file only
  when syncing the directory or releasing the lock fails. A refused update writes nothing.\<close>

theorem file_transaction_atomic:
  assumes "json_update io file upd = (file', r)"
  shows "case r of
      Inr v \<Rightarrow> \<exists>snap snap'. read_file_snapshot io file = Ok snap \<and> upd snap = (snap', Ok v)
                 \<and> file' = FJson (snapshot_serialize snap')
    | Inl e \<Rightarrow> file' = file
        \<or> (\<exists>snap snap' v. read_file_snapshot io file = Ok snap \<and> upd snap = (snap', Ok v)
             \<and> file' = FJson (snapshot_serialize snap')
             \<and> (fault_sync_dir io \<noteq> None \<or> fault_unlock io \<noteq> None))"
proof (cases r)
  case (Inl e)
  with assms have "json_update io file upd = (file', Err e)" by simp
  from json_update_Err [OF this] Inl show ?thesis by simp
next
  case (Inr v)
  with assms show ?thesis by (auto elim: json_update_Ok)
qed

theorem file_transaction_atomic_witness:
  "fst (json_update (no_faults\<lparr>fault_rename := Some (IoOther ''disk full'')\<rparr>)
      (FBlank :: (int, int) file_state) (\<lambda>snap. (snap, Ok ()))) = FBlank"
  using file_transaction_atomic [of "no_faults\<lparr>fault_rename := Some (IoOther ''disk full'')\<rparr>"
      "FBlank :: (int, int) file_state" "\<lambda>snap. (snap, Ok ())"]
  by (simp add: json_update_def update_file_snapshot_def write_file_snapshot_atomically_def
      read_file_snapshot_def io_step_def with_unlock_def storage_error_def)

text \<open>Round trip and migration of snapshots: a current snapshot over well-formed maps decodes to
  itself, versions 1 and 2 decode to the current version with journal position zero and the same
  state, and any other version is refused.\<close>

theorem snapshot_wire_versions:
  "(\<forall>s. state_wf (snap_state s) \<and> schema_version s = SCHEMA_VERSION \<longrightarrow>
      snapshot_deserialize (snapshot_serialize s) = Ok s)
   \<and> (\<forall>w. wire_schema_version w \<in> {1, 2} \<longrightarrow>
      snapshot_deserialize w =
        Ok \<lparr>schema_version = SCHEMA_VERSION, snap_state = state_deserialize (wire_state w),
            journal_seq = 0\<rparr>)
   \<and> (\<forall>w. wire_schema_version w \<notin> {1, 2, SCHEMA_VERSION} \<longrightarrow>
      \<not> is_ok (snapshot_deserialize w))"
proof -
  have "snapshot_deserialize w =
        Ok \<lparr>schema_version = SCHEMA_VERSION, snap_state = state_deserialize (wire_state w),
            journal_seq = 0\<rparr>" if "wire_schema_version w \<in> {1, 2}" for w
    using that by (auto simp: snapshot_deserialize_def SCHEMA_VERSION_def)
  moreover have "\<not> is_ok (snapshot_deserialize w)"
    if "wire_schema_version w \<notin> {1, 2, SCHEMA_VERSION}" for w
    using that by (simp add: snapshot_deserialize_def)
  ultimately show ?thesis using snapshot_roundtrip by blast
qed

theorem snapshot_wire_versions_witness:
  "snapshot_deserialize (snapshot_serialize snapshot_default) =
     Ok (snapshot_default :: (int, int) governor_snapshot)"
  using snapshot_wire_versions [THEN conjunct1, rule_format, of snapshot_default]
  by (simp add: snapshot_default_def)

section \<open>The process-local path\<close>

lemmas fast_path_eval =
  pg_new_def pg_op_defs update_active_state_def close_fast_path_or_durable_def
  unlimited_fast_path_seed_def json_inspect_def json_update_no_faults read_file_snapshot_def
  with_unlock_def snapshot_default_def snapshot_serialize_def snapshot_deserialize_def
  state_serialize_def state_deserialize_def hcollect_def
  resource_state_has_finite_limits_def sanitized_unlimited_fast_path_state_def
  merge_unlimited_fast_path_state_def seeded_local_def on_snapshot_state_def SCHEMA_VERSION_def
  is_unlimited_def is_decimal_unlimited_def is_integer_unlimited_def hvalues_def


text \<open>The process-local path counts a hold twice: each time the first finite limit is set, the
  local tallies are merged into the file again, so after two such changes an account with one
  hold of 60 tokens reports 120 tokens reserved.\<close>

theorem fast_path_counts_twice:
  "(case last (snd (run_ops (pg_exec sample_host) (pg_new True)
     (map (\<lambda>x. (x, no_faults, no_faults))
       [OpReserve sample_scope (sample_estimate 60) 7 5,
        OpSetLimit sample_user (sample_limits Rolling24h 100) 6,
        OpSetLimit sample_user (limits_default sample_host) 7,
        OpSetLimit sample_user (sample_limits Rolling24h 100) 8,
        OpReservedFor sample_user 9]))) of
      RTally (Inr t) \<Rightarrow> tal_input_tokens t = 120
    | _ \<Rightarrow> False)"
  by (simp add: governor_eval fast_path_eval)

end
