(* ===== verification/Host_Paths.thy ===== *)
theory Host_Paths
  imports Host_Scope
begin

text \<open>
  Virtual paths, scoped paths, mount aliases and mount views of the host API
  (\<open>ironclaw_host_api\<close>: \<open>path.rs\<close>, \<open>mount.rs\<close>). The three path newtypes wrap a normalized string and
  are modelled by it; a \<open>::new\<close> constructor is the validator that returns that string, which is
  also what deserialization runs.
\<close>

section \<open>Paths\<close>

type_synonym virtual_path = string
type_synonym scoped_path = string
type_synonym mount_alias = string

definition VIRTUAL_ROOTS :: "string list" where
  "VIRTUAL_ROOTS =
     [''/engine'', ''/system/settings'', ''/system/extensions'', ''/system/skills'', ''/users'',
      ''/projects'', ''/memory'', ''/artifacts'', ''/tmp'', ''/secrets'', ''/events'',
      ''/processes'', ''/authorization'', ''/outbound'', ''/run-state'', ''/approvals'',
      ''/threads'', ''/conversations'', ''/turns'', ''/checkpoint-state'', ''/resources'',
      ''/tenant-shared'', ''/tenants'']"

definition RAW_HOST_PREFIXES :: "string list" where
  "RAW_HOST_PREFIXES =
     [''/Users/'', ''/home/'', ''/root/'', ''/etc/'', ''/var/'', ''/private/'', ''/Volumes/'',
      ''/Library/'', ''/usr/'', ''/opt/'', ''/tmp/'', ''/proc/'', ''/sys/'']"

definition REDACTED_PATH_VALUE :: string where
  "REDACTED_PATH_VALUE = ''<redacted path>''"

datatype path_kind = PKVirtual | PKScoped | PKMountAlias

definition invalid_path_error_value :: "string \<Rightarrow> path_kind \<Rightarrow> string" where
  "invalid_path_error_value raw kind =
     (case kind of PKScoped \<Rightarrow> REDACTED_PATH_VALUE | _ \<Rightarrow> raw)"

fun collect_parts :: "string list \<Rightarrow> string list \<Rightarrow> string list option" where
  "collect_parts [] parts = Some parts"
| "collect_parts (p # ps) parts =
     (if p = [] \<or> p = ''.'' then collect_parts ps parts
      else if p = ''..'' then None
      else collect_parts ps (parts @ [p]))"

definition ends_with_char :: "char \<Rightarrow> string \<Rightarrow> bool" where
  "ends_with_char c s = (s \<noteq> [] \<and> last s = c)"

definition normalize_absolute_path :: "string \<Rightarrow> path_kind \<Rightarrow> host_api_error + string" where
  "normalize_absolute_path raw kind =
     (let bad = invalid_path_error_value raw kind in
      if raw = [] then Err (InvalidPath bad ''path must not be empty'')
      else if CHR 0x00 \<in> set raw \<or> any_control raw
        then Err (InvalidPath bad ''NUL/control characters are not allowed'')
      else if contains_char (CHR 0x5C) raw
        then Err (InvalidPath bad ''backslashes are not allowed'')
      else if \<not> starts_with ''/'' raw then Err (InvalidPath bad ''path must be absolute'')
      else (case collect_parts (split_on (CHR ''/'') raw) [] of
          None \<Rightarrow> Err (InvalidPath bad ''`..` segments are not allowed'')
        | Some parts \<Rightarrow>
            if parts = [] then Err (InvalidPath bad ''root path is not valid here'')
            else
              (let normalized = CHR ''/'' # join_with (CHR ''/'') parts in
               if kind = PKMountAlias \<and> ends_with_char (CHR ''/'') normalized
               then Err (InvalidPath normalized ''mount alias must not end with slash'')
               else Ok normalized)))"

definition path_matches_alias :: "string \<Rightarrow> string \<Rightarrow> bool" where
  "path_matches_alias alias path = (path = alias \<or> starts_with (alias @ ''/'') path)"

definition virtual_path_new :: "string \<Rightarrow> host_api_error + virtual_path" where
  "virtual_path_new value =
     rbind (normalize_absolute_path value PKVirtual) (\<lambda>normalized.
       if \<not> list_ex (\<lambda>root. normalized = root \<or> starts_with (root @ ''/'') normalized) VIRTUAL_ROOTS
       then Err (InvalidPath normalized ''virtual path must begin with a known root'')
       else Ok normalized)"

definition join_tail :: "virtual_path \<Rightarrow> string \<Rightarrow> host_api_error + virtual_path" where
  "join_tail self tail =
     (if tail = [] then Ok self
      else virtual_path_new (trim_end_char (CHR ''/'') self @ ''/'' @ tail))"

definition looks_like_url :: "string \<Rightarrow> bool" where
  "looks_like_url value = contains_str ''://'' value"

definition looks_like_windows_path :: "string \<Rightarrow> bool" where
  "looks_like_windows_path value =
     (length value \<ge> 3 \<and> value ! 1 = CHR '':'' \<and> (value ! 2 = CHR 0x5C \<or> value ! 2 = CHR ''/''))"

definition new_with_allowed_raw_host_aliases ::
  "string \<Rightarrow> string list \<Rightarrow> host_api_error + scoped_path" where
  "new_with_allowed_raw_host_aliases raw raw_host_aliases =
     (if looks_like_url raw
      then Err (InvalidPath REDACTED_PATH_VALUE ''URLs are not scoped paths'')
      else if looks_like_windows_path raw
      then Err (InvalidPath REDACTED_PATH_VALUE ''Windows host paths are not scoped paths'')
      else if list_ex (\<lambda>prefix. starts_with prefix raw) RAW_HOST_PREFIXES
              \<and> \<not> list_ex (\<lambda>alias. path_matches_alias alias raw) raw_host_aliases
      then Err (InvalidPath REDACTED_PATH_VALUE ''raw host paths are not scoped paths'')
      else normalize_absolute_path raw PKScoped)"

definition scoped_path_new :: "string \<Rightarrow> host_api_error + scoped_path" where
  "scoped_path_new value = new_with_allowed_raw_host_aliases value []"

definition mount_alias_new :: "string \<Rightarrow> host_api_error + mount_alias" where
  "mount_alias_new value = normalize_absolute_path value PKMountAlias"

section \<open>Mounts\<close>

record mount_permissions =
  perm_read :: bool
  perm_write :: bool
  perm_delete :: bool
  perm_list :: bool
  perm_execute :: bool

definition permissions_none :: mount_permissions where
  "permissions_none =
     \<lparr>perm_read = False, perm_write = False, perm_delete = False, perm_list = False,
      perm_execute = False\<rparr>"

definition permissions_read_only :: mount_permissions where
  "permissions_read_only =
     \<lparr>perm_read = True, perm_write = False, perm_delete = False, perm_list = True,
      perm_execute = False\<rparr>"

definition permissions_read_write :: mount_permissions where
  "permissions_read_write =
     \<lparr>perm_read = True, perm_write = True, perm_delete = False, perm_list = True,
      perm_execute = False\<rparr>"

definition permissions_read_write_list_delete :: mount_permissions where
  "permissions_read_write_list_delete =
     \<lparr>perm_read = True, perm_write = True, perm_delete = True, perm_list = True,
      perm_execute = False\<rparr>"

definition permissions_subset :: "mount_permissions \<Rightarrow> mount_permissions \<Rightarrow> bool" where
  "permissions_subset self parent =
     ((\<not> perm_read self \<or> perm_read parent) \<and> (\<not> perm_write self \<or> perm_write parent)
      \<and> (\<not> perm_delete self \<or> perm_delete parent) \<and> (\<not> perm_list self \<or> perm_list parent)
      \<and> (\<not> perm_execute self \<or> perm_execute parent))"

record mount_grant =
  mount_alias :: mount_alias
  mount_target :: virtual_path
  mount_permissions :: mount_permissions

type_synonym mount_view = "mount_grant list"

fun view_validate_from :: "mount_alias list \<Rightarrow> mount_view \<Rightarrow> host_api_error + unit" where
  "view_validate_from seen [] = Ok ()"
| "view_validate_from seen (m # ms) =
     (if mount_alias m \<in> set seen
      then Err (InvalidMount (mount_alias m) ''duplicate mount alias'')
      else view_validate_from (mount_alias m # seen) ms)"

definition view_validate :: "mount_view \<Rightarrow> host_api_error + unit" where
  "view_validate view = view_validate_from [] view"

definition view_new :: "mount_grant list \<Rightarrow> host_api_error + mount_view" where
  "view_new mounts = rbind (view_validate mounts) (\<lambda>_. Ok mounts)"

text \<open>\<open>Iterator::max_by_key\<close> returns the last of the greatest elements.\<close>

fun max_by_key :: "('a \<Rightarrow> nat) \<Rightarrow> 'a list \<Rightarrow> 'a option" where
  "max_by_key key [] = None"
| "max_by_key key (x # xs) =
     (case max_by_key key xs of
        None \<Rightarrow> Some x
      | Some y \<Rightarrow> if key x > key y then Some x else Some y)"

definition view_scoped_path :: "mount_view \<Rightarrow> string \<Rightarrow> host_api_error + scoped_path" where
  "view_scoped_path view value = new_with_allowed_raw_host_aliases value (map mount_alias view)"

definition resolve_with_grant ::
  "mount_view \<Rightarrow> scoped_path \<Rightarrow> host_api_error + (virtual_path \<times> mount_grant)" where
  "resolve_with_grant view raw =
     (case max_by_key (\<lambda>m. length (mount_alias m))
             (filter (\<lambda>m. path_matches_alias (mount_alias m) raw) view) of
        None \<Rightarrow> Err (InvalidMount raw ''no mount alias matches scoped path'')
      | Some m \<Rightarrow>
          (let tail = trim_start_char (CHR ''/'') (unwrap_or (strip_prefix (mount_alias m) raw) [])
           in rbind (join_tail (mount_target m) tail) (\<lambda>v. Ok (v, m))))"

definition view_resolve :: "mount_view \<Rightarrow> scoped_path \<Rightarrow> host_api_error + virtual_path" where
  "view_resolve view path = rbind (resolve_with_grant view path) (\<lambda>(v, g). Ok v)"

definition view_subset :: "mount_view \<Rightarrow> mount_view \<Rightarrow> bool" where
  "view_subset self parent =
     list_all (\<lambda>child. list_ex (\<lambda>pm.
         mount_alias child = mount_alias pm \<and> mount_target child = mount_target pm
         \<and> permissions_subset (mount_permissions child) (mount_permissions pm)) parent) self"

section \<open>Segments of a normalized path\<close>

text \<open>A normalized path is a slash followed by slash-separated proper segments.\<close>

definition proper_segment :: "string \<Rightarrow> bool" where
  "proper_segment p \<longleftrightarrow>
     p \<noteq> [] \<and> p \<noteq> ''.'' \<and> p \<noteq> ''..'' \<and> CHR ''/'' \<notin> set p \<and> CHR 0x5C \<notin> set p \<and> CHR 0x00 \<notin> set p
     \<and> \<not> any_control p"

definition path_of :: "string list \<Rightarrow> string" where
  "path_of ps = CHR ''/'' # join_with (CHR ''/'') ps"

definition canonical :: "string \<Rightarrow> bool" where
  "canonical s \<longleftrightarrow> (\<exists>ps. ps \<noteq> [] \<and> list_all proper_segment ps \<and> s = path_of ps)"

definition segments :: "string \<Rightarrow> string list" where
  "segments s = split_on (CHR ''/'') (tl s)"

lemma list_all_proper_noslash:
  "list_all proper_segment ps \<Longrightarrow> \<forall>p \<in> set ps. CHR ''/'' \<notin> set p"
  by (simp add: list_all_iff proper_segment_def)

lemma segments_path_of:
  "ps \<noteq> [] \<Longrightarrow> list_all proper_segment ps \<Longrightarrow> segments (path_of ps) = ps"
  by (simp add: segments_def path_of_def split_on_join list_all_proper_noslash)

lemma path_of_append:
  "ps \<noteq> [] \<Longrightarrow> qs \<noteq> [] \<Longrightarrow> path_of (ps @ qs) = path_of ps @ path_of qs"
  by (simp add: path_of_def join_with_append)

lemma collect_parts_Some:
  "collect_parts xs acc = Some parts \<longleftrightarrow>
     ''..'' \<notin> set xs \<and> parts = acc @ filter (\<lambda>p. p \<noteq> [] \<and> p \<noteq> ''.'') xs"
  by (induction xs arbitrary: acc) auto

lemma collect_parts_proper:
  "list_all proper_segment ps \<Longrightarrow> collect_parts ps acc = Some (acc @ ps)"
  by (induction ps arbitrary: acc) (auto simp: proper_segment_def)

lemma last_join_with:
  "ps \<noteq> [] \<Longrightarrow> last ps \<noteq> [] \<Longrightarrow> last (join_with c ps) = last (last ps)"
proof (induction c ps rule: join_with.induct)
  case (3 c p q ps)
  then have "join_with c (q # ps) \<noteq> []" by (cases ps) auto
  with 3 show ?case by simp
qed auto

lemma join_with_Nil: "join_with c ps = [] \<longleftrightarrow> ps = [] \<or> ps = [[]]"
  by (induction c ps rule: join_with.induct) auto

lemma canonical_last: "canonical s \<Longrightarrow> \<not> ends_with_char (CHR ''/'') s"
proof -
  assume "canonical s"
  then obtain ps where ps: "ps \<noteq> []" "list_all proper_segment ps" "s = path_of ps"
    by (auto simp: canonical_def)
  then have l: "proper_segment (last ps)" by (simp add: list_all_iff)
  then have "last (last ps) \<in> set (last ps)" by (simp add: proper_segment_def)
  with l have "last (last ps) \<noteq> CHR ''/''" by (metis proper_segment_def)
  moreover have "join_with (CHR ''/'') ps \<noteq> []"
    using ps l by (auto simp: join_with_Nil proper_segment_def)
  ultimately show ?thesis
    using ps l by (simp add: ends_with_char_def path_of_def last_join_with proper_segment_def)
qed

lemma set_path_of: "c \<in> set (path_of ps) \<Longrightarrow> c = CHR ''/'' \<or> (\<exists>p \<in> set ps. c \<in> set p)"
  using set_join_with [of "CHR ''/''" ps] by (auto simp: path_of_def)

lemma canonical_plain:
  assumes "canonical s"
  shows "CHR 0x00 \<notin> set s" and "CHR 0x5C \<notin> set s" and "\<not> any_control s"
proof -
  from assms obtain ps where ps: "list_all proper_segment ps" "s = path_of ps"
    by (auto simp: canonical_def)
  then show "CHR 0x00 \<notin> set s" "CHR 0x5C \<notin> set s"
    by (auto simp: list_all_iff proper_segment_def dest: set_path_of)
  show "\<not> any_control s"
    using ps byte_slash
    by (auto simp: path_of_def control_head_sep any_control_join list_all_iff proper_segment_def)
qed

lemma normalize_canonical:
  assumes "canonical s"
  shows "normalize_absolute_path s k = Ok s"
proof -
  from assms obtain ps where ps: "ps \<noteq> []" "list_all proper_segment ps" "s = path_of ps"
    by (auto simp: canonical_def)
  have "s \<noteq> []" "starts_with ''/'' s"
    using ps(3) by (simp_all add: path_of_def starts_with_def)
  moreover have "collect_parts (split_on (CHR ''/'') s) [] = Some ps"
    using ps by (simp add: path_of_def split_on_join list_all_proper_noslash collect_parts_proper)
  ultimately show ?thesis
    using ps(1) canonical_plain [OF assms] canonical_last [OF assms] ps(3) [unfolded path_of_def]
    by (simp add: normalize_absolute_path_def contains_char_def Let_def del: any_control.simps)
qed

lemma normalize_Ok_canonical:
  assumes "normalize_absolute_path raw k = Ok n"
  shows "canonical n"
proof -
  let ?ps = "filter (\<lambda>p. p \<noteq> [] \<and> p \<noteq> ''.'') (split_on (CHR ''/'') raw)"
  have n: "n = path_of ?ps" and ne: "?ps \<noteq> []" and dd: "''..'' \<notin> set (split_on (CHR ''/'') raw)"
    and raw: "CHR 0x00 \<notin> set raw" "\<not> any_control raw" "CHR 0x5C \<notin> set raw"
    using assms
    by (auto simp: normalize_absolute_path_def Let_def collect_parts_Some path_of_def
        contains_char_def split: if_splits option.splits)
  have "proper_segment p" if "p \<in> set ?ps" for p
    using that dd raw split_on_seps [of p "CHR ''/''" raw] split_on_subset [of p "CHR ''/''" raw]
      any_control_split [OF byte_slash, of raw]
    by (auto simp: proper_segment_def)
  then show ?thesis using n ne by (auto simp: canonical_def list_all_iff)
qed

section \<open>Aliases, roots and segments\<close>

lemma split_on_join_sep:
  "ps \<noteq> [] \<Longrightarrow> \<forall>p \<in> set ps. c \<notin> set p \<Longrightarrow>
     split_on c (join_with c ps @ c # t) = ps @ split_on c t"
  by (induction c ps rule: join_with.induct) (auto simp: split_on_append_sep)

lemma path_matches_alias_segments:
  assumes "canonical a" and "canonical p"
  shows "path_matches_alias a p \<longleftrightarrow> (\<exists>rest. segments p = segments a @ rest)"
proof -
  from assms(1) obtain as where as: "as \<noteq> []" "list_all proper_segment as" "a = path_of as"
    by (auto simp: canonical_def)
  from assms(2) obtain ps where ps: "ps \<noteq> []" "list_all proper_segment ps" "p = path_of ps"
    by (auto simp: canonical_def)
  note seg = segments_path_of [OF as(1,2)] segments_path_of [OF ps(1,2)]
  show ?thesis
  proof
    assume "path_matches_alias a p"
    then consider "p = a" | t where "p = a @ CHR ''/'' # t"
      by (auto simp: path_matches_alias_def starts_with_iff)
    then show "\<exists>rest. segments p = segments a @ rest"
    proof cases
      case 1
      then show ?thesis by (intro exI [of _ "[]"]) simp
    next
      case 2
      then have "segments p = as @ split_on (CHR ''/'') t"
        using as by (simp add: segments_def path_of_def split_on_join_sep list_all_proper_noslash)
      then show ?thesis using seg as(3) by simp
    qed
  next
    assume "\<exists>rest. segments p = segments a @ rest"
    then obtain rest where r: "ps = as @ rest" using seg as(3) ps(3) by auto
    show "path_matches_alias a p"
    proof (cases "rest = []")
      case True
      then show ?thesis using r as ps by (simp add: path_matches_alias_def)
    next
      case False
      then have "p = a @ ''/'' @ join_with (CHR ''/'') rest"
        using r as ps path_of_append [of as rest] by (simp add: path_of_def)
      then show ?thesis
        unfolding path_matches_alias_def starts_with_iff by (metis append.assoc)
    qed
  qed
qed

definition in_known_root :: "string \<Rightarrow> bool" where
  "in_known_root v = list_ex (\<lambda>root. path_matches_alias root v) VIRTUAL_ROOTS"

lemma virtual_path_new_alt:
  "virtual_path_new s = rbind (normalize_absolute_path s PKVirtual)
     (\<lambda>n. if in_known_root n then Ok n
          else Err (InvalidPath n ''virtual path must begin with a known root''))"
  by (cases "normalize_absolute_path s PKVirtual")
     (simp_all add: virtual_path_new_def in_known_root_def path_matches_alias_def)

lemma virtual_path_new_Ok:
  "virtual_path_new s = Ok v \<Longrightarrow> canonical v \<and> in_known_root v"
  by (auto simp: virtual_path_new_alt rbind_eq_Inr normalize_Ok_canonical split: if_splits)

lemma virtual_path_new_fixed:
  "virtual_path_new v = Ok v \<longleftrightarrow> canonical v \<and> in_known_root v"
  using virtual_path_new_Ok [of v v]
  by (auto simp: virtual_path_new_alt normalize_canonical)

lemma in_known_root_extend: "in_known_root v \<Longrightarrow> in_known_root (v @ CHR ''/'' # t)"
  unfolding in_known_root_def list_ex_iff path_matches_alias_def starts_with_iff
  by (metis append.assoc append_Cons append_Nil)

lemma trim_end_canonical: "canonical s \<Longrightarrow> trim_end_char (CHR ''/'') s = s"
proof -
  assume c: "canonical s"
  then have "s \<noteq> []" by (auto simp: canonical_def path_of_def)
  with canonical_last [OF c] have "\<exists>x xs. rev s = x # xs \<and> x \<noteq> CHR ''/''"
    by (cases s rule: rev_cases) (auto simp: ends_with_char_def)
  then show ?thesis by (auto simp: trim_end_char_def)
qed

lemma canonical_append:
  assumes "canonical a" and "list_all proper_segment rest" and "rest \<noteq> []"
  shows "canonical (a @ path_of rest)" and "segments (a @ path_of rest) = segments a @ rest"
proof -
  from assms(1) obtain as where as: "as \<noteq> []" "list_all proper_segment as" "a = path_of as"
    by (auto simp: canonical_def)
  have e: "a @ path_of rest = path_of (as @ rest)" using as assms by (simp add: path_of_append)
  show "canonical (a @ path_of rest)"
    unfolding e canonical_def using as assms by (intro exI [of _ "as @ rest"]) simp
  show "segments (a @ path_of rest) = segments a @ rest"
    unfolding e using as assms by (simp add: segments_path_of)
qed

lemma canonical_segments: "canonical p \<Longrightarrow> segments p \<noteq> [] \<and> list_all proper_segment (segments p)
    \<and> p = path_of (segments p)"
  by (auto simp: canonical_def segments_path_of)

lemma join_tail_segments:
  assumes "canonical v" and "in_known_root v" and "list_all proper_segment rest" and "rest \<noteq> []"
  shows "join_tail v (join_with (CHR ''/'') rest) = Ok (v @ path_of rest)"
proof -
  have "join_with (CHR ''/'') rest \<noteq> []"
    using assms(3,4) by (auto simp: join_with_Nil proper_segment_def)
  moreover have "virtual_path_new (v @ path_of rest) = Ok (v @ path_of rest)"
    unfolding virtual_path_new_fixed
    using canonical_append [OF assms(1,3,4)] in_known_root_extend [OF assms(2)]
    by (simp add: path_of_def)
  ultimately show ?thesis
    using trim_end_canonical [OF assms(1)] by (simp add: join_tail_def path_of_def)
qed

lemma max_by_key_None [simp]: "max_by_key key xs = None \<longleftrightarrow> xs = []"
  by (cases xs) (auto split: option.splits)

lemma max_by_key_Some:
  "max_by_key key xs = Some m \<Longrightarrow> m \<in> set xs \<and> (\<forall>x \<in> set xs. key x \<le> key m)"
proof (induction xs arbitrary: m)
  case (Cons a xs)
  show ?case
  proof (cases "max_by_key key xs")
    case None
    then show ?thesis using Cons.prems by simp
  next
    case (Some y)
    then show ?thesis using Cons.prems Cons.IH [OF Some] by (auto split: if_splits)
  qed
qed simp

section \<open>Resolution\<close>

definition view_wf :: "mount_view \<Rightarrow> bool" where
  "view_wf view = list_all (\<lambda>m. mount_alias_new (mount_alias m) = Ok (mount_alias m)
     \<and> virtual_path_new (mount_target m) = Ok (mount_target m)) view"

lemma view_wf_mount:
  "view_wf view \<Longrightarrow> m \<in> set view \<Longrightarrow>
     canonical (mount_alias m) \<and> canonical (mount_target m) \<and> in_known_root (mount_target m)"
  by (auto simp: view_wf_def list_all_iff mount_alias_new_def virtual_path_new_fixed
      intro: normalize_Ok_canonical)

lemma resolve_tail:
  assumes "canonical a" and "canonical p" and "segments p = segments a @ rest"
  shows "trim_start_char (CHR ''/'') (unwrap_or (strip_prefix a p) []) = join_with (CHR ''/'') rest"
    and "list_all proper_segment rest"
proof -
  note a = canonical_segments [OF assms(1)] and p = canonical_segments [OF assms(2)]
  show r: "list_all proper_segment rest" using p assms(3) by simp
  show "trim_start_char (CHR ''/'') (unwrap_or (strip_prefix a p) []) = join_with (CHR ''/'') rest"
  proof (cases rest)
    case Nil
    then have "p = a" using a p assms(3) by simp
    then show ?thesis using Nil strip_prefix_append [of a "[]"]
      by (simp add: unwrap_or_def trim_start_char_def)
  next
    case (Cons q qs)
    then have "p = a @ path_of rest" using a p assms(3) path_of_append by (metis list.simps(3))
    moreover have "q \<noteq> []" "hd q \<noteq> CHR ''/''"
      using r Cons by (auto simp: proper_segment_def dest: hd_in_set)
    ultimately show ?thesis
      using Cons by (cases q; cases qs) (auto simp: unwrap_or_def trim_start_char_def path_of_def)
  qed
qed

lemma resolve_with_grant_cases:
  assumes "view_wf view" and "canonical p"
  shows "if \<exists>m \<in> set view. path_matches_alias (mount_alias m) p
    then \<exists>m \<in> set view. \<exists>rest. segments p = segments (mount_alias m) @ rest
       \<and> resolve_with_grant view p =
           Ok (if rest = [] then mount_target m else mount_target m @ path_of rest, m)
       \<and> list_all proper_segment rest
       \<and> (\<forall>m' \<in> set view. path_matches_alias (mount_alias m') p \<longrightarrow>
            length (mount_alias m') \<le> length (mount_alias m))
    else resolve_with_grant view p = Err (InvalidMount p ''no mount alias matches scoped path'')"
proof (cases "max_by_key (\<lambda>m. length (mount_alias m))
      (filter (\<lambda>m. path_matches_alias (mount_alias m) p) view)")
  case None
  then show ?thesis by (auto simp: resolve_with_grant_def filter_empty_conv)
next
  case (Some m)
  from max_by_key_Some [OF this] have m: "m \<in> set view" "path_matches_alias (mount_alias m) p"
    and longest: "\<forall>m' \<in> set view. path_matches_alias (mount_alias m') p \<longrightarrow>
            length (mount_alias m') \<le> length (mount_alias m)" by auto
  note wf = view_wf_mount [OF assms(1) m(1)]
  obtain rest where rest: "segments p = segments (mount_alias m) @ rest"
    using m(2) path_matches_alias_segments wf assms(2) by blast
  note tail = resolve_tail [OF _ assms(2) rest]
  have "resolve_with_grant view p =
      Ok (if rest = [] then mount_target m else mount_target m @ path_of rest, m)"
    using wf tail join_tail_segments [of "mount_target m" rest]
    by (simp add: resolve_with_grant_def Some Let_def) (simp add: join_tail_def)
  with m rest longest tail(2) wf show ?thesis by auto
qed


section \<open>Properties\<close>

text \<open>Normalization of paths: the result is a slash followed by non-empty segments, none of them
  a dot or dot-dot segment and none with a backslash, a NUL or a control character, and
  normalizing it again, as a path of any kind, returns it unchanged.\<close>

theorem normalize_canonical_fixpoint:
  assumes "normalize_absolute_path raw k = Ok n"
  shows "canonical n \<and> normalize_absolute_path n k' = Ok n"
  using normalize_Ok_canonical [OF assms] normalize_canonical by blast

theorem normalize_canonical_fixpoint_witness:
  "normalize_absolute_path ''/projects/p1/a.txt'' PKScoped = Ok ''/projects/p1/a.txt''"
  using normalize_canonical_fixpoint [of "''//projects/./p1//a.txt/''" PKVirtual]
  by (simp add: normalize_absolute_path_def starts_with_def contains_char_def control_head_def
      byte_def ends_with_char_def Let_def)

text \<open>(C8) Mount resolution is total and contained: for a view of valid mounts and a normalized path,
  resolution fails only when no alias covers the path; otherwise the longest covering alias wins,
  and the result is the grant's target followed by exactly the segments of the path below the
  alias, a valid virtual path.\<close>

theorem mount_resolution_contained:
  assumes "view_wf view" and "canonical p"
  shows "(case resolve_with_grant view p of
      Inl e \<Rightarrow> e = InvalidMount p ''no mount alias matches scoped path''
        \<and> (\<forall>m \<in> set view. \<not> path_matches_alias (mount_alias m) p)
    | Inr (v, m) \<Rightarrow> m \<in> set view
        \<and> (\<exists>rest. segments p = segments (mount_alias m) @ rest
             \<and> segments v = segments (mount_target m) @ rest)
        \<and> virtual_path_new v = Ok v
        \<and> (\<forall>m' \<in> set view. path_matches_alias (mount_alias m') p \<longrightarrow>
             length (mount_alias m') \<le> length (mount_alias m)))"
proof (cases "\<exists>m \<in> set view. path_matches_alias (mount_alias m) p")
  case False
  with resolve_with_grant_cases [OF assms] show ?thesis by auto
next
  case True
  with resolve_with_grant_cases [OF assms] obtain m rest where m: "m \<in> set view"
      "segments p = segments (mount_alias m) @ rest"
      "resolve_with_grant view p =
         Ok (if rest = [] then mount_target m else mount_target m @ path_of rest, m)"
      "list_all proper_segment rest"
    and longest: "\<forall>m' \<in> set view. path_matches_alias (mount_alias m') p \<longrightarrow>
            length (mount_alias m') \<le> length (mount_alias m)"
    by auto
  note wf = view_wf_mount [OF assms(1) m(1)]
  have "virtual_path_new (mount_target m @ path_of rest) = Ok (mount_target m @ path_of rest)"
    if "rest \<noteq> []"
    unfolding virtual_path_new_fixed
    using that m(4) wf canonical_append(1) in_known_root_extend by (auto simp: path_of_def)
  moreover have "virtual_path_new (mount_target m) = Ok (mount_target m)"
    using wf by (simp add: virtual_path_new_fixed)
  ultimately show ?thesis
    using m longest wf canonical_append(2) by (cases "rest = []") auto
qed

definition sample_view :: mount_view where
  "sample_view =
     [\<lparr>mount_alias = ''/workspace'', mount_target = ''/projects/p1'',
       mount_permissions = permissions_read_write\<rparr>,
      \<lparr>mount_alias = ''/workspace/out'', mount_target = ''/artifacts'',
       mount_permissions = permissions_read_only\<rparr>]"

lemmas path_eval =
  normalize_absolute_path_def starts_with_def contains_char_def control_head_def byte_def
  ends_with_char_def Let_def virtual_path_new_def mount_alias_new_def VIRTUAL_ROOTS_def
  path_matches_alias_def resolve_with_grant_def join_tail_def trim_end_char_def trim_start_char_def
  strip_prefix_def unwrap_or_def segments_def

theorem mount_resolution_contained_witness:
  "resolve_with_grant sample_view ''/workspace/out/a'' = Ok (''/artifacts/a'', sample_view ! 1)
   \<and> virtual_path_new ''/artifacts/a'' = Ok ''/artifacts/a''"
proof -
  have "view_wf sample_view" by (simp add: view_wf_def sample_view_def path_eval)
  moreover have "canonical ''/workspace/out/a''"
    by (rule normalize_Ok_canonical [of "''/workspace/out/a''" PKScoped]) (simp add: path_eval)
  moreover have "resolve_with_grant sample_view ''/workspace/out/a''
      = Ok (''/artifacts/a'', sample_view ! 1)"
    by (simp add: sample_view_def path_eval)
  ultimately show ?thesis
    using mount_resolution_contained [of sample_view "''/workspace/out/a''"] by simp
qed

text \<open>Attenuation of mount views: the subset test is transitive, and whatever a
  subset view resolves lies under a target its parent grants under the same alias with at least
  the same permissions.\<close>

theorem mount_attenuation:
  assumes "view_subset child parent"
  shows "(view_subset parent host \<longrightarrow> view_subset child host)
    \<and> (resolve_with_grant child p = Ok (v, m) \<longrightarrow>
        (\<exists>pm \<in> set parent. mount_alias pm = mount_alias m \<and> mount_target pm = mount_target m
           \<and> permissions_subset (mount_permissions m) (mount_permissions pm)))"
proof
  have trans: "permissions_subset a b \<Longrightarrow> permissions_subset b c \<Longrightarrow> permissions_subset a c" for a b c
    by (auto simp: permissions_subset_def)
  show "view_subset parent host \<longrightarrow> view_subset child host"
    using assms trans unfolding view_subset_def list_all_iff list_ex_iff by metis
  show "resolve_with_grant child p = Ok (v, m) \<longrightarrow>
        (\<exists>pm \<in> set parent. mount_alias pm = mount_alias m \<and> mount_target pm = mount_target m
           \<and> permissions_subset (mount_permissions m) (mount_permissions pm))"
    using assms
    by (fastforce simp: resolve_with_grant_def view_subset_def list_all_iff list_ex_iff rbind_eq_Inr
        Let_def split: option.splits dest: max_by_key_Some)
qed

theorem mount_attenuation_witness:
  "let child = [(sample_view ! 0)\<lparr>mount_permissions := permissions_read_only\<rparr>]
   in view_subset child sample_view \<and>
      (\<exists>pm \<in> set sample_view. mount_alias pm = ''/workspace'' \<and> mount_target pm = ''/projects/p1''
         \<and> permissions_subset permissions_read_only (mount_permissions pm))"
proof -
  let ?c = "[(sample_view ! 0)\<lparr>mount_permissions := permissions_read_only\<rparr>]"
  have s: "view_subset ?c sample_view"
    by (simp add: view_subset_def sample_view_def permissions_subset_def permissions_read_only_def
        permissions_read_write_def)
  have "resolve_with_grant ?c ''/workspace/a'' = Ok (''/projects/p1/a'', ?c ! 0)"
    by (simp add: sample_view_def path_eval)
  from mount_attenuation [OF s, THEN conjunct2, THEN mp, OF this] s show ?thesis
    by (simp add: sample_view_def)
qed

text \<open>The raw-host-path filter is applied before normalization: a doubled slash passes it and
  normalizes to a path the filter refuses, so such a scoped path does not survive being
  serialized and parsed again.\<close>

theorem raw_host_filter_bypassed:
  "scoped_path_new ''//etc/passwd'' = Ok ''/etc/passwd'' \<and> \<not> is_ok (scoped_path_new ''/etc/passwd'')"
  by (simp add: scoped_path_new_def new_with_allowed_raw_host_aliases_def looks_like_url_def
      looks_like_windows_path_def RAW_HOST_PREFIXES_def path_eval)

end
