(* ===== verification/Host_Actions.thy ===== *)
theory Host_Actions
  imports Host_Paths Resource_Types
begin

text \<open>
  Actions, principals, grants and approval requests of the host API (\<open>ironclaw_host_api\<close>:
  \<open>action.rs\<close>, \<open>capability.rs\<close>, \<open>approval.rs\<close>, \<open>scope.rs\<close>) and the execution context with its
  consistency check. Fingerprints are digests of serialized input and are modelled by their text.
\<close>

section \<open>Principals and effects\<close>

datatype principal =
    PTenant tenant_id
  | PUser user_id
  | PAgent agent_id
  | PProject project_id
  | PMission mission_id
  | PThread thread_id
  | PExtension extension_id
  | PHostRuntime
  | PSystem system_service_id

datatype effect_kind =
    EffReadFilesystem | EffWriteFilesystem | EffDeleteFilesystem | EffNetwork | EffUseSecret
  | EffExecuteCode | EffSpawnProcess | EffDispatchCapability | EffModifyExtension
  | EffModifyApproval | EffModifyBudget | EffExternalWrite | EffFinancial

definition effect_is_write :: "effect_kind \<Rightarrow> bool" where
  "effect_is_write e =
     (case e of
        EffReadFilesystem \<Rightarrow> False | EffNetwork \<Rightarrow> False | EffUseSecret \<Rightarrow> False
      | EffDispatchCapability \<Rightarrow> False | _ \<Rightarrow> True)"

datatype permission_mode = PmAllow | PmAsk | PmDeny

section \<open>Network targets\<close>

datatype network_scheme = Http | Https

datatype network_method = NmGet | NmPost | NmPut | NmPatch | NmDelete | NmHead

record network_target =
  nt_scheme :: network_scheme
  nt_host :: string
  nt_port :: "u16 option"

record network_target_pattern =
  ntp_scheme :: "network_scheme option"
  ntp_host_pattern :: string
  ntp_port :: "u16 option"

record network_policy =
  allowed_targets :: "network_target_pattern list"
  deny_private_ip_ranges :: bool
  max_egress_bytes :: "u64 option"

definition validate_network_host_pattern :: "string \<Rightarrow> host_api_error + unit" where
  "validate_network_host_pattern pattern =
     (if pattern = [] \<or> length pattern > 253
      then Err (InvalidNetworkTarget pattern ''host pattern must be non-empty and at most 253 bytes'')
      else if pattern = ''*'' then Ok ()
      else if CHR 0x00 \<in> set pattern \<or> any_control pattern
      then Err (InvalidNetworkTarget pattern ''host pattern must not contain NUL/control characters'')
      else
        (let host = unwrap_or (strip_prefix ''*.'' pattern) pattern in
         if host = [] \<or> starts_with ''.'' host \<or> ends_with_char (CHR ''.'') host
            \<or> contains_str ''..'' host
            \<or> \<not> list_all (\<lambda>b. is_ascii_alphanumeric b \<or> b = CHR ''.'' \<or> b = CHR ''-'' \<or> b = CHR ''_'') host
         then Err (InvalidNetworkTarget pattern
                ''host pattern must contain only ASCII host-label characters'')
         else Ok ()))"

section \<open>Actions and approval requests\<close>

datatype secret_use_mode = InjectIntoRequest | InjectIntoEnvironment | ReadRaw

datatype extension_lifecycle_operation = ExtInstall | ExtUpdate | ExtRemove | ExtEnable | ExtDisable

datatype file_action_kind = FaRead | FaList | FaWrite | FaDelete

datatype 'd action =
    ActReadFile scoped_path
  | ActListDir scoped_path
  | ActWriteFile scoped_path "u64 option"
  | ActDeleteFile scoped_path
  | ActDispatch capability_id "'d resource_estimate"
  | ActSpawnCapability capability_id "'d resource_estimate"
  | ActUseSecret secret_handle secret_use_mode
  | ActNetwork network_target network_method "u64 option"
  | ActReserveResources "'d resource_estimate"
  | ActApprove "'d approval_request"
  | ActExtensionLifecycle extension_id extension_lifecycle_operation
  | ActEmitExternalEffect effect_kind
and 'd approval_request =
    ApprovalRequest
      (req_id: approval_request_id)
      (req_correlation_id: correlation_id)
      (req_requested_by: principal)
      (req_action: "'d action")
      (req_invocation_fingerprint: "string option")
      (req_reason: string)
      (req_reusable_scope: "'d approval_scope option")
and 'd approval_scope =
    ApprovalScope (asc_principal: principal) (asc_pattern: "'d action_pattern")
      (asc_expires_at: "instant option")
and 'd action_pattern =
    PatExactAction "'d action"
  | PatCapability capability_id
  | PatPathPrefix file_action_kind scoped_path
  | PatNetworkTarget network_target_pattern

section \<open>Grants\<close>

record sandbox_quota =
  sq_cpu_time_ms :: "u64 option"
  sq_memory_bytes :: "u64 option"
  sq_disk_bytes :: "u64 option"
  sq_network_egress_bytes :: "u64 option"
  sq_process_count :: "u32 option"

record 'd resource_ceiling =
  ceil_usd :: "'d option"
  ceil_input_tokens :: "u64 option"
  ceil_output_tokens :: "u64 option"
  ceil_wall_clock_ms :: "u64 option"
  ceil_output_bytes :: "u64 option"
  ceil_sandbox :: "sandbox_quota option"

record 'd grant_constraints =
  gc_allowed_effects :: "effect_kind list"
  gc_mounts :: mount_view
  gc_network :: network_policy
  gc_secrets :: "secret_handle list"
  gc_resource_ceiling :: "'d resource_ceiling option"
  gc_expires_at :: "instant option"
  gc_max_invocations :: "u64 option"

record 'd capability_grant =
  cg_id :: capability_grant_id
  cg_capability :: capability_id
  cg_grantee :: principal
  cg_issued_by :: principal
  cg_constraints :: "'d grant_constraints"

section \<open>Execution contexts\<close>

datatype runtime_kind = RtWasm | RtMcp | RtScript | RtFirstParty | RtSystem

datatype trust_class = TcSandbox | TcUserTrusted | TcFirstParty | TcSystem

record 'd execution_context =
  ctx_invocation_id :: invocation_id
  ctx_correlation_id :: correlation_id
  ctx_process_id :: "process_id option"
  ctx_parent_process_id :: "process_id option"
  ctx_tenant_id :: tenant_id
  ctx_user_id :: user_id
  ctx_authenticated_actor_user_id :: "user_id option"
  ctx_agent_id :: "agent_id option"
  ctx_project_id :: "project_id option"
  ctx_mission_id :: "mission_id option"
  ctx_thread_id :: "thread_id option"
  ctx_extension_id :: extension_id
  ctx_runtime :: runtime_kind
  ctx_trust :: trust_class
  ctx_grants :: "'d capability_grant list"
  ctx_mounts :: mount_view
  ctx_resource_scope :: resource_scope

definition context_validate :: "'d execution_context \<Rightarrow> host_api_error + unit" where
  "context_validate c =
     (let rs = ctx_resource_scope c in
      if invocation_id rs \<noteq> ctx_invocation_id c
        then Err (InvariantViolation
          ''resource_scope.invocation_id must match execution context invocation_id'')
      else if tenant_id rs \<noteq> ctx_tenant_id c
        then Err (InvariantViolation ''resource_scope.tenant_id must match execution context tenant_id'')
      else if user_id rs \<noteq> ctx_user_id c
        then Err (InvariantViolation ''resource_scope.user_id must match execution context user_id'')
      else if agent_id rs \<noteq> ctx_agent_id c
        then Err (InvariantViolation ''resource_scope.agent_id must match execution context agent_id'')
      else if project_id rs \<noteq> ctx_project_id c
        then Err (InvariantViolation ''resource_scope.project_id must match execution context project_id'')
      else if mission_id rs \<noteq> ctx_mission_id c
        then Err (InvariantViolation ''resource_scope.mission_id must match execution context mission_id'')
      else if thread_id rs \<noteq> ctx_thread_id c
        then Err (InvariantViolation ''resource_scope.thread_id must match execution context thread_id'')
      else view_validate (ctx_mounts c))"

definition context_local_default ::
  "user_id \<Rightarrow> extension_id \<Rightarrow> runtime_kind \<Rightarrow> trust_class \<Rightarrow> 'd capability_grant list \<Rightarrow> mount_view
    \<Rightarrow> invocation_id \<Rightarrow> correlation_id \<Rightarrow> host_api_error + 'd execution_context" where
  "context_local_default u ext rt tr grants mounts invid corr =
     rbind (local_default_scope u invid) (\<lambda>rs.
       let c = \<lparr>ctx_invocation_id = invid, ctx_correlation_id = corr, ctx_process_id = None,
                ctx_parent_process_id = None, ctx_tenant_id = tenant_id rs, ctx_user_id = u,
                ctx_authenticated_actor_user_id = None, ctx_agent_id = agent_id rs,
                ctx_project_id = project_id rs, ctx_mission_id = None, ctx_thread_id = None,
                ctx_extension_id = ext, ctx_runtime = rt, ctx_trust = tr, ctx_grants = grants,
                ctx_mounts = mounts, ctx_resource_scope = rs\<rparr>
       in rbind (context_validate c) (\<lambda>_. Ok c))"

section \<open>Properties\<close>

lemma context_validate_Ok:
  "context_validate c = Ok () \<longleftrightarrow>
     (let rs = ctx_resource_scope c
      in invocation_id rs = ctx_invocation_id c \<and> tenant_id rs = ctx_tenant_id c
        \<and> user_id rs = ctx_user_id c \<and> agent_id rs = ctx_agent_id c \<and> project_id rs = ctx_project_id c
        \<and> mission_id rs = ctx_mission_id c \<and> thread_id rs = ctx_thread_id c
        \<and> view_validate (ctx_mounts c) = Ok ())"
  by (auto simp: context_validate_def Let_def)

lemma local_default_scope_Ok:
  "local_default_scope u i =
     Ok \<lparr>tenant_id = ''default'', user_id = u, agent_id = Some ''default'',
         project_id = Some ''bootstrap'', mission_id = None, thread_id = None, invocation_id = i\<rparr>"
  by (simp add: local_default_scope_def scope_id_new_def validate_scope_id_def contains_char_def
      has_forbidden_control_def control_head_def byte_def starts_with_def RESERVED_SENTINEL_PREFIX_def)

text \<open>Execution contexts: a context validates exactly when its resource scope agrees with it on
  every identifier and its mounts are valid, and the local default context can be built exactly
  for valid mounts; what is built validates, keeps the grants and the mounts it was given, and
  belongs to no process.\<close>

theorem local_context_validates:
  "(context_validate c = Ok () \<longleftrightarrow>
      ctx_resource_scope c =
        \<lparr>tenant_id = ctx_tenant_id c, user_id = ctx_user_id c, agent_id = ctx_agent_id c,
         project_id = ctx_project_id c, mission_id = ctx_mission_id c, thread_id = ctx_thread_id c,
         invocation_id = ctx_invocation_id c\<rparr>
      \<and> view_validate (ctx_mounts c) = Ok ())
   \<and> (case context_local_default u ext rt tr grants mounts i corr of
        Inl e \<Rightarrow> view_validate mounts = Err e
      | Inr d \<Rightarrow> view_validate mounts = Ok () \<and> context_validate d = Ok () \<and> ctx_grants d = grants
          \<and> ctx_mounts d = mounts \<and> ctx_user_id d = u \<and> ctx_invocation_id d = i
          \<and> ctx_process_id d = None)"
proof
  have eq: "rs = \<lparr>tenant_id = a, user_id = b, agent_id = c, project_id = d, mission_id = e,
      thread_id = f, invocation_id = g\<rparr> \<longleftrightarrow> tenant_id rs = a \<and> user_id rs = b \<and> agent_id rs = c
      \<and> project_id rs = d \<and> mission_id rs = e \<and> thread_id rs = f \<and> invocation_id rs = g"
    for rs a b c d e f g by (cases rs) simp
  show "context_validate c = Ok () \<longleftrightarrow>
      ctx_resource_scope c =
        \<lparr>tenant_id = ctx_tenant_id c, user_id = ctx_user_id c, agent_id = ctx_agent_id c,
         project_id = ctx_project_id c, mission_id = ctx_mission_id c, thread_id = ctx_thread_id c,
         invocation_id = ctx_invocation_id c\<rparr>
      \<and> view_validate (ctx_mounts c) = Ok ()"
    unfolding eq context_validate_Ok Let_def by blast
next
  show "case context_local_default u ext rt tr grants mounts i corr of
        Inl e \<Rightarrow> view_validate mounts = Err e
      | Inr d \<Rightarrow> view_validate mounts = Ok () \<and> context_validate d = Ok () \<and> ctx_grants d = grants
          \<and> ctx_mounts d = mounts \<and> ctx_user_id d = u \<and> ctx_invocation_id d = i
          \<and> ctx_process_id d = None"
    by (cases "view_validate mounts")
       (simp_all add: context_local_default_def local_default_scope_Ok context_validate_def)
qed

end
