(* ===== verification/Versioned_Store.thy ===== *)
theory Versioned_Store
  imports Host_Paths "HOL-Library.List_Lexorder" "HOL-Library.Char_ord"
begin

text \<open>
  The in-memory backend of the root filesystem (\<open>ironclaw_filesystem\<close>: \<open>in_memory.rs\<close>, with the
  types of \<open>record.rs\<close>, \<open>types.rs\<close> and \<open>backend.rs\<close>): versioned entries with compare-and-swap, deletion
  of subtrees, directory listing, append logs and reserved sequences. Bytes are a type variable
  \<open>'b\<close>, since no operation looks inside a body. The clock of \<open>SystemTime::now\<close> is an argument.
  Indexed queries (\<open>query\<close>, \<open>ensure_index\<close>) and vector search are left out.
\<close>

section \<open>Types\<close>

datatype filesystem_operation =
    MountLocal | Connect | ReadFile | WriteFile | AppendFile | ListDir | Stat | Delete
  | CreateDirAll | Query | EnsureIndex | BeginTxn | AppendOp | Tail | HeadSeq | ReserveSeq

type_synonym record_version = u64
type_synonym seq_no = u64

datatype index_conflict_reason = SpecMismatch | EmptyKeys

datatype fs_capability =
    CapRead | CapWrite | CapAppend | CapList | CapStat | CapDelete | CapRecords | CapQuery
  | CapIndexExact | CapIndexPrefix | CapIndexFts | CapIndexVector | CapEvents

datatype filesystem_error =
    Contract host_api_error
  | PermissionDenied scoped_path filesystem_operation
  | MountNotFound virtual_path
  | NotFound virtual_path filesystem_operation
  | PathOutsideMount virtual_path
  | SymlinkEscape virtual_path
  | MountConflict virtual_path
  | BackendError virtual_path filesystem_operation string
  | VersionMismatch virtual_path "record_version option" "record_version option"
  | Unsupported virtual_path filesystem_operation
  | IndexConflict virtual_path string index_conflict_reason
  | DescriptorOverclaims virtual_path "fs_capability list" bool
  | SerializeIndexed virtual_path filesystem_operation
  | DeserializeIndexed virtual_path filesystem_operation
  | CorruptRecordVersion virtual_path int
  | IndexSpecMissingAfterUpsert virtual_path string
  | BackendInfrastructure filesystem_operation string

datatype cas_expectation = CasAbsent | CasVersion record_version | CasAny

datatype 'b index_value = IvBool bool | IvI64 int | IvText string | IvBytes "'b list"

record 'b entry =
  body :: "'b list"
  content_type :: string
  entry_kind :: "string option"
  indexed :: "(string \<times> 'b index_value) list"

definition entry_bytes :: "'b list \<Rightarrow> 'b entry" where
  "entry_bytes b =
     \<lparr>body = b, content_type = ''application/octet-stream'', entry_kind = None, indexed = []\<rparr>"

record 'b versioned_entry =
  ve_path :: virtual_path
  ve_entry :: "'b entry"
  ve_version :: record_version

record 'b event_record =
  er_seq :: seq_no
  er_payload :: "'b list"

definition version_next :: "record_version \<Rightarrow> record_version" where
  "version_next v = sat_add v 1"

definition seq_next :: "seq_no \<Rightarrow> seq_no" where
  "seq_next s = sat_add s 1"

datatype file_type = FtFile | FtDirectory | FtSymlink | FtOther

record dir_entry =
  de_name :: string
  de_path :: virtual_path
  de_file_type :: file_type

record file_stat =
  fs_path :: virtual_path
  fs_file_type :: file_type
  fs_len :: nat
  fs_modified :: "instant option"
  fs_sensitive :: bool

section \<open>The in-memory backend\<close>

record 'b stored_entry =
  st_entry :: "'b entry"
  st_version :: record_version
  st_modified :: instant

record 'b mem_fs =
  entries :: "(virtual_path, 'b stored_entry) hmap"
  event_logs :: "(string, 'b event_record list) hmap"
  sequences :: "(string, seq_no) hmap"

definition fs_new :: "'b mem_fs" where
  "fs_new = \<lparr>entries = hempty, event_logs = hempty, sequences = hempty\<rparr>"

definition with_trailing_slash :: "string \<Rightarrow> string" where
  "with_trailing_slash s = (if ends_with_char (CHR ''/'') s then s else s @ ''/'')"

fun check_cas :: "virtual_path \<Rightarrow> cas_expectation \<Rightarrow> record_version option \<Rightarrow> filesystem_error + unit"
where
  "check_cas p CasAny _ = Ok ()"
| "check_cas p CasAbsent None = Ok ()"
| "check_cas p CasAbsent (Some v) = Err (VersionMismatch p None (Some v))"
| "check_cas p (CasVersion e) (Some v) =
     (if e = v then Ok () else Err (VersionMismatch p (Some e) (Some v)))"
| "check_cas p (CasVersion e) None = Err (VersionMismatch p (Some e) None)"

definition next_version :: "record_version option \<Rightarrow> record_version" where
  "next_version cur = (case cur of None \<Rightarrow> 1 | Some v \<Rightarrow> version_next v)"

definition has_children :: "'b mem_fs \<Rightarrow> virtual_path \<Rightarrow> bool" where
  "has_children fs p = list_ex (\<lambda>k. starts_with (with_trailing_slash p) k) (map fst (entries fs))"

definition fs_put ::
  "'b mem_fs \<Rightarrow> virtual_path \<Rightarrow> 'b entry \<Rightarrow> cas_expectation \<Rightarrow> instant
    \<Rightarrow> 'b mem_fs \<times> (filesystem_error + record_version)" where
  "fs_put fs p e cas now =
     (if has_children fs p then
        (fs, Err (BackendError p WriteFile ''cannot overwrite a directory''))
      else
        (let cur = map_option st_version (hget (entries fs) p) in
         case check_cas p cas cur of
           Inl err \<Rightarrow> (fs, Err err)
         | Inr _ \<Rightarrow>
             (let v = next_version cur
              in (fs\<lparr>entries := hput p \<lparr>st_entry = e, st_version = v, st_modified = now\<rparr>
                     (entries fs)\<rparr>, Ok v))))"

definition fs_get ::
  "'b mem_fs \<Rightarrow> virtual_path \<Rightarrow> filesystem_error + 'b versioned_entry option" where
  "fs_get fs p =
     Ok (map_option (\<lambda>s. \<lparr>ve_path = p, ve_entry = st_entry s, ve_version = st_version s\<rparr>)
           (hget (entries fs) p))"

definition clear_under :: "string \<Rightarrow> string \<Rightarrow> (string, 'v) hmap \<Rightarrow> (string, 'v) hmap" where
  "clear_under exact prefix m = filter (\<lambda>(k, _). k \<noteq> exact \<and> \<not> starts_with prefix k) m"

definition fs_delete ::
  "'b mem_fs \<Rightarrow> virtual_path \<Rightarrow> 'b mem_fs \<times> (filesystem_error + unit)" where
  "fs_delete fs p =
     (let prefix = with_trailing_slash p;
          sweep = (\<lambda>es. filter (\<lambda>(k, _). \<not> starts_with prefix k) es);
          cleared = (\<lambda>es. \<lparr>entries = es, event_logs = clear_under p prefix (event_logs fs),
                          sequences = clear_under p prefix (sequences fs)\<rparr>)
      in if hcontains (entries fs) p then (cleared (sweep (hdel p (entries fs))), Ok ())
         else
           (let es = sweep (entries fs)
            in (cleared es,
                if length es = length (entries fs) then Err (NotFound p Delete) else Ok ())))"

definition fs_delete_if_version ::
  "'b mem_fs \<Rightarrow> virtual_path \<Rightarrow> record_version \<Rightarrow> 'b mem_fs \<times> (filesystem_error + unit)" where
  "fs_delete_if_version fs p expected =
     (case map_option st_version (hget (entries fs) p) of
        None \<Rightarrow> (fs, Err (NotFound p Delete))
      | Some current \<Rightarrow>
          if expected \<noteq> current then (fs, Err (VersionMismatch p (Some expected) (Some current)))
          else (fs\<lparr>entries := hdel p (entries fs)\<rparr>, Ok ()))"

subsection \<open>Listing\<close>

definition first_segment :: "string \<Rightarrow> string \<times> bool" where
  "first_segment s = (takeWhile (\<lambda>c. c \<noteq> CHR ''/'') s, CHR ''/'' \<in> set s)"

definition join_path :: "string \<Rightarrow> string \<Rightarrow> string" where
  "join_path parent child =
     (if ends_with_char (CHR ''/'') parent then parent @ child else parent @ ''/'' @ child)"

fun list_seen ::
  "string \<Rightarrow> virtual_path list \<Rightarrow> (string, file_type) hmap \<Rightarrow> (string, file_type) hmap" where
  "list_seen prefix [] seen = seen"
| "list_seen prefix (k # ks) seen =
     (case strip_prefix prefix k of
        None \<Rightarrow> list_seen prefix ks seen
      | Some suffix \<Rightarrow>
          (let (head, has_more) = first_segment suffix in
           if head = [] then list_seen prefix ks seen
           else list_seen prefix ks
             (hput head
               (case hget seen head of
                  Some t \<Rightarrow> if has_more then FtDirectory else t
                | None \<Rightarrow> if has_more then FtDirectory else FtFile) seen)))"

fun list_out ::
  "virtual_path \<Rightarrow> (string \<times> file_type) list \<Rightarrow> filesystem_error + dir_entry list" where
  "list_out p [] = Ok []"
| "list_out p ((name, t) # xs) =
     (case virtual_path_new (join_path p name) of
        Inl e \<Rightarrow> Err (Contract e)
      | Inr child \<Rightarrow>
          rbind (list_out p xs) (\<lambda>out.
            Ok (\<lparr>de_name = name, de_path = child, de_file_type = t\<rparr> # out)))"

definition fs_list_dir ::
  "'b mem_fs \<Rightarrow> virtual_path \<Rightarrow> filesystem_error + dir_entry list" where
  "fs_list_dir fs p =
     rbind (list_out p (list_seen (with_trailing_slash p) (map fst (entries fs)) hempty))
       (\<lambda>out. Ok (sort_key de_name out))"

definition fs_list_dir_bounded ::
  "'b mem_fs \<Rightarrow> virtual_path \<Rightarrow> nat \<Rightarrow> filesystem_error + dir_entry list" where
  "fs_list_dir_bounded fs p n = rbind (fs_list_dir fs p) (\<lambda>out. Ok (take n out))"

definition fs_stat :: "'b mem_fs \<Rightarrow> virtual_path \<Rightarrow> filesystem_error + file_stat" where
  "fs_stat fs p =
     (case hget (entries fs) p of
        Some s \<Rightarrow>
          Ok \<lparr>fs_path = p, fs_file_type = FtFile, fs_len = length (body (st_entry s)),
              fs_modified = Some (st_modified s), fs_sensitive = (entry_kind (st_entry s) \<noteq> None)\<rparr>
      | None \<Rightarrow>
          if has_children fs p then
            Ok \<lparr>fs_path = p, fs_file_type = FtDirectory, fs_len = 0, fs_modified = None,
                fs_sensitive = False\<rparr>
          else Err (NotFound p Stat))"

definition fs_read_file_bounded ::
  "'b mem_fs \<Rightarrow> virtual_path \<Rightarrow> nat \<Rightarrow> filesystem_error + 'b list option" where
  "fs_read_file_bounded fs p max_bytes =
     rbind (fs_stat fs p) (\<lambda>stat.
       if fs_len stat > max_bytes then Ok None
       else rbind (fs_get fs p) (\<lambda>got.
         case got of
           None \<Rightarrow> Err (NotFound p ReadFile)
         | Some v \<Rightarrow>
             if length (body (ve_entry v)) > max_bytes then Ok None
             else Ok (Some (body (ve_entry v)))))"

subsection \<open>Append logs and sequences\<close>

definition log_next :: "'b event_record list \<Rightarrow> seq_no" where
  "log_next log = (if log = [] then seq_next 0 else seq_next (er_seq (last log)))"

definition fs_append ::
  "'b mem_fs \<Rightarrow> virtual_path \<Rightarrow> 'b list \<Rightarrow> 'b mem_fs \<times> (filesystem_error + seq_no)" where
  "fs_append fs p payload =
     (let log = unwrap_or (hget (event_logs fs) p) [];
          n = log_next log
      in (fs\<lparr>event_logs := hput p (log @ [\<lparr>er_seq = n, er_payload = payload\<rparr>]) (event_logs fs)\<rparr>,
          Ok n))"

fun append_all ::
  "'b event_record list \<Rightarrow> 'b list list \<Rightarrow> 'b event_record list \<times> seq_no list" where
  "append_all log [] = (log, [])"
| "append_all log (x # xs) =
     (let n = log_next log;
          (log', ns) = append_all (log @ [\<lparr>er_seq = n, er_payload = x\<rparr>]) xs
      in (log', n # ns))"

definition fs_append_batch ::
  "'b mem_fs \<Rightarrow> virtual_path \<Rightarrow> 'b list list \<Rightarrow> 'b mem_fs \<times> (filesystem_error + seq_no list)" where
  "fs_append_batch fs p payloads =
     (let (log, ns) = append_all (unwrap_or (hget (event_logs fs) p) []) payloads
      in (fs\<lparr>event_logs := hput p log (event_logs fs)\<rparr>, Ok ns))"

definition fs_tail ::
  "'b mem_fs \<Rightarrow> virtual_path \<Rightarrow> seq_no \<Rightarrow> filesystem_error + 'b event_record list" where
  "fs_tail fs p from_seq =
     Ok (filter (\<lambda>r. er_seq r > from_seq) (unwrap_or (hget (event_logs fs) p) []))"

definition fs_tail_bounded ::
  "'b mem_fs \<Rightarrow> virtual_path \<Rightarrow> seq_no \<Rightarrow> nat \<Rightarrow> filesystem_error + 'b event_record list" where
  "fs_tail_bounded fs p from_seq n =
     Ok (take n (filter (\<lambda>r. er_seq r > from_seq) (unwrap_or (hget (event_logs fs) p) [])))"

definition fs_head_seq ::
  "'b mem_fs \<Rightarrow> virtual_path \<Rightarrow> seq_no \<Rightarrow> filesystem_error + seq_no option" where
  "fs_head_seq fs p from_seq =
     rbind (fs_tail fs p from_seq) (\<lambda>rs. Ok (if rs = [] then None else Some (Max (set (map er_seq rs)))))"

definition fs_reserve_sequence ::
  "'b mem_fs \<Rightarrow> virtual_path \<Rightarrow> 'b mem_fs \<times> (filesystem_error + seq_no)" where
  "fs_reserve_sequence fs p =
     (let reserved = unwrap_or (hget (sequences fs) p) (seq_next 0)
      in (fs\<lparr>sequences := hput p (seq_next reserved) (sequences fs)\<rparr>, Ok reserved))"

definition fs_append_file ::
  "'b mem_fs \<Rightarrow> virtual_path \<Rightarrow> 'b list \<Rightarrow> instant \<Rightarrow> 'b mem_fs \<times> (filesystem_error + unit)" where
  "fs_append_file fs p bytes now =
     (let existing = hget (entries fs) p;
          e = (case existing of None \<Rightarrow> entry_bytes [] | Some s \<Rightarrow> st_entry s)
      in if entry_kind e \<noteq> None then
           (fs, Err (BackendError p AppendFile ''cannot append bytes to a record-shaped entry''))
         else
           (fs\<lparr>entries := hput p
                 \<lparr>st_entry = e\<lparr>body := body e @ bytes\<rparr>,
                  st_version = next_version (map_option st_version existing), st_modified = now\<rparr>
                 (entries fs)\<rparr>, Ok ()))"

end
