(* ===== verification/Run_State.thy ===== *)
theory Run_State
  imports Host_Actions Versioned_Store Lifecycle_Protocol
begin

text \<open>
  Run state and approval requests (\<open>ironclaw_run_state/src/lib.rs\<close>): the record types, the scoped keys
  and the in-memory stores. A store is the map its mutex guards; every method takes the lock once,
  so a method is one step. Where the source puts the text of a path or filesystem error into its own
  error, the model keeps the error itself. Run identifiers are kept in the order of their UUIDs by the listing
  operations, which is the order of \<open>nat\<close> here.
\<close>

section \<open>Records\<close>

datatype run_status = RsRunning | RsBlockedApproval | RsBlockedAuth | RsCompleted | RsFailed

record run_record =
  run_invocation_id :: invocation_id
  run_capability_id :: capability_id
  run_scope :: resource_scope
  run_authenticated_actor :: "user_id option"
  run_status :: run_status
  run_approval_request_id :: "approval_request_id option"
  run_error_kind :: "string option"

record run_start =
  start_invocation_id :: invocation_id
  start_capability_id :: capability_id
  start_scope :: resource_scope
  start_authenticated_actor :: "user_id option"

datatype approval_status = ApPending | ApApproved | ApDenied | ApExpired | ApDiscarded

record 'd approval_record =
  apr_scope :: resource_scope
  apr_request :: "'d approval_request"
  apr_status :: approval_status

datatype run_state_error =
    UnknownInvocation invocation_id
  | InvocationAlreadyExists invocation_id
  | UnknownApprovalRequest approval_request_id
  | ApprovalRequestAlreadyExists approval_request_id
  | ApprovalNotPending approval_request_id approval_status
  | RsInvalidPath host_api_error
  | RsFilesystem filesystem_error
  | RsSerialization string
  | RsDeserialization string
  | RsBackend string

section \<open>Keys\<close>

record scope_key =
  key_tenant_id :: tenant_id
  key_user_id :: user_id
  key_agent_id :: "agent_id option"
  key_project_id :: "project_id option"
  key_mission_id :: "mission_id option"
  key_thread_id :: "thread_id option"
  key_id :: uuid

definition run_state_key :: "resource_scope \<Rightarrow> invocation_id \<Rightarrow> scope_key" where
  "run_state_key sc i =
     \<lparr>key_tenant_id = tenant_id sc, key_user_id = user_id sc, key_agent_id = agent_id sc,
      key_project_id = project_id sc, key_mission_id = mission_id sc, key_thread_id = thread_id sc,
      key_id = i\<rparr>"

definition approval_key :: "resource_scope \<Rightarrow> approval_request_id \<Rightarrow> scope_key" where
  "approval_key sc i =
     \<lparr>key_tenant_id = tenant_id sc, key_user_id = user_id sc, key_agent_id = agent_id sc,
      key_project_id = project_id sc, key_mission_id = mission_id sc, key_thread_id = thread_id sc,
      key_id = i\<rparr>"

definition same_scope_owner :: "resource_scope \<Rightarrow> resource_scope \<Rightarrow> bool" where
  "same_scope_owner l r =
     (tenant_id l = tenant_id r \<and> user_id l = user_id r \<and> agent_id l = agent_id r
      \<and> project_id l = project_id r \<and> mission_id l = mission_id r \<and> thread_id l = thread_id r)"

section \<open>The in-memory run-state store\<close>

type_synonym run_store = "(scope_key, run_record) hmap"

definition new_run_record :: "run_start \<Rightarrow> run_record" where
  "new_run_record s =
     \<lparr>run_invocation_id = start_invocation_id s, run_capability_id = start_capability_id s,
      run_scope = start_scope s, run_authenticated_actor = start_authenticated_actor s,
      run_status = RsRunning, run_approval_request_id = None, run_error_kind = None\<rparr>"

definition rs_start :: "run_store \<Rightarrow> run_start \<Rightarrow> run_store \<times> (run_state_error + run_record)" where
  "rs_start m s =
     (let record = new_run_record s;
          key = run_state_key (run_scope record) (run_invocation_id record)
      in if hcontains m key then (m, Err (InvocationAlreadyExists (run_invocation_id record)))
         else (hput key record m, Ok record))"

definition rs_update ::
  "run_store \<Rightarrow> resource_scope \<Rightarrow> invocation_id \<Rightarrow> (run_record \<Rightarrow> run_record)
    \<Rightarrow> run_store \<times> (run_state_error + run_record)" where
  "rs_update m sc i f =
     (case hget m (run_state_key sc i) of
        None \<Rightarrow> (m, Err (UnknownInvocation i))
      | Some r \<Rightarrow> (hput (run_state_key sc i) (f r) m, Ok (f r)))"

definition mark_blocked_approval :: "'d approval_request \<Rightarrow> run_record \<Rightarrow> run_record" where
  "mark_blocked_approval a r =
     r\<lparr>run_status := RsBlockedApproval, run_approval_request_id := Some (req_id a),
       run_error_kind := None\<rparr>"

definition mark_blocked_auth :: "string \<Rightarrow> run_record \<Rightarrow> run_record" where
  "mark_blocked_auth e r =
     r\<lparr>run_status := RsBlockedAuth, run_approval_request_id := None, run_error_kind := Some e\<rparr>"

definition mark_completed :: "run_record \<Rightarrow> run_record" where
  "mark_completed r =
     r\<lparr>run_status := RsCompleted, run_approval_request_id := None, run_error_kind := None\<rparr>"

definition mark_failed :: "string \<Rightarrow> run_record \<Rightarrow> run_record" where
  "mark_failed e r =
     r\<lparr>run_status := RsFailed, run_approval_request_id := None, run_error_kind := Some e\<rparr>"

definition rs_block_approval where
  "rs_block_approval m sc i a = rs_update m sc i (mark_blocked_approval a)"

definition rs_block_auth where
  "rs_block_auth m sc i e = rs_update m sc i (mark_blocked_auth e)"

definition rs_complete where
  "rs_complete m sc i = rs_update m sc i mark_completed"

definition rs_fail where
  "rs_fail m sc i e = rs_update m sc i (mark_failed e)"

definition rs_get :: "run_store \<Rightarrow> resource_scope \<Rightarrow> invocation_id \<Rightarrow> run_state_error + run_record option"
where
  "rs_get m sc i = Ok (hget m (run_state_key sc i))"

definition rs_records_for_scope ::
  "run_store \<Rightarrow> resource_scope \<Rightarrow> run_state_error + run_record list" where
  "rs_records_for_scope m sc =
     Ok (sort_key run_invocation_id (filter (\<lambda>r. same_scope_owner (run_scope r) sc) (hvalues m)))"

section \<open>The in-memory approval store\<close>

type_synonym 'd approval_store = "(scope_key, 'd approval_record) hmap"

definition ap_save_pending ::
  "'d approval_store \<Rightarrow> resource_scope \<Rightarrow> 'd approval_request
    \<Rightarrow> 'd approval_store \<times> (run_state_error + 'd approval_record)" where
  "ap_save_pending m sc req =
     (let record = \<lparr>apr_scope = sc, apr_request = req, apr_status = ApPending\<rparr>;
          key = approval_key sc (req_id req)
      in if hcontains m key then (m, Err (ApprovalRequestAlreadyExists (req_id req)))
         else (hput key record m, Ok record))"

definition ap_get ::
  "'d approval_store \<Rightarrow> resource_scope \<Rightarrow> approval_request_id
    \<Rightarrow> run_state_error + 'd approval_record option" where
  "ap_get m sc i =
     Ok (case hget m (approval_key sc i) of
           None \<Rightarrow> None
         | Some r \<Rightarrow> if apr_status r \<noteq> ApDiscarded then Some r else None)"

definition ap_update_status ::
  "'d approval_store \<Rightarrow> resource_scope \<Rightarrow> approval_request_id \<Rightarrow> approval_status
    \<Rightarrow> 'd approval_store \<times> (run_state_error + 'd approval_record)" where
  "ap_update_status m sc i st =
     (case hget m (approval_key sc i) of
        None \<Rightarrow> (m, Err (UnknownApprovalRequest i))
      | Some r \<Rightarrow>
          if apr_status r \<noteq> ApPending then (m, Err (ApprovalNotPending i (apr_status r)))
          else (hput (approval_key sc i) (r\<lparr>apr_status := st\<rparr>) m, Ok (r\<lparr>apr_status := st\<rparr>)))"

definition ap_approve where
  "ap_approve m sc i = ap_update_status m sc i ApApproved"

definition ap_deny where
  "ap_deny m sc i = ap_update_status m sc i ApDenied"

definition ap_discard_pending ::
  "'d approval_store \<Rightarrow> resource_scope \<Rightarrow> approval_request_id
    \<Rightarrow> 'd approval_store \<times> (run_state_error + 'd approval_record)" where
  "ap_discard_pending m sc i =
     (case hget m (approval_key sc i) of
        None \<Rightarrow> (m, Err (UnknownApprovalRequest i))
      | Some r \<Rightarrow>
          if apr_status r \<noteq> ApPending then (m, Err (ApprovalNotPending i (apr_status r)))
          else (hput (approval_key sc i) (r\<lparr>apr_status := ApDiscarded\<rparr>) m, Ok r))"

definition ap_records_for_scope ::
  "'d approval_store \<Rightarrow> resource_scope \<Rightarrow> run_state_error + 'd approval_record list" where
  "ap_records_for_scope m sc =
     Ok (sort_key (\<lambda>r. req_id (apr_request r))
           (filter (\<lambda>r. same_scope_owner (apr_scope r) sc \<and> apr_status r \<noteq> ApDiscarded) (hvalues m)))"

section \<open>Sequences of calls\<close>

datatype 'd run_op =
    RoStart run_start
  | RoBlockApproval resource_scope invocation_id "'d approval_request"
  | RoBlockAuth resource_scope invocation_id string
  | RoComplete resource_scope invocation_id
  | RoFail resource_scope invocation_id string

fun run_op_scope :: "'d run_op \<Rightarrow> resource_scope" where
  "run_op_scope (RoStart s) = start_scope s"
| "run_op_scope (RoBlockApproval sc _ _) = sc"
| "run_op_scope (RoBlockAuth sc _ _) = sc"
| "run_op_scope (RoComplete sc _) = sc"
| "run_op_scope (RoFail sc _ _) = sc"

fun run_exec :: "run_store \<Rightarrow> 'd run_op \<Rightarrow> run_store \<times> (run_state_error + run_record)" where
  "run_exec m (RoStart s) = rs_start m s"
| "run_exec m (RoBlockApproval sc i a) = rs_block_approval m sc i a"
| "run_exec m (RoBlockAuth sc i e) = rs_block_auth m sc i e"
| "run_exec m (RoComplete sc i) = rs_complete m sc i"
| "run_exec m (RoFail sc i e) = rs_fail m sc i e"

datatype 'd approval_op =
    AoSave resource_scope "'d approval_request"
  | AoApprove resource_scope approval_request_id
  | AoDeny resource_scope approval_request_id
  | AoDiscard resource_scope approval_request_id

datatype 'd approval_resp =
    ArSaved "run_state_error + 'd approval_record"
  | ArResolved resource_scope approval_request_id "run_state_error + 'd approval_record"

fun approval_exec ::
  "'d approval_store \<Rightarrow> 'd approval_op \<Rightarrow> 'd approval_store \<times> 'd approval_resp" where
  "approval_exec m (AoSave sc req) = (let (m', r) = ap_save_pending m sc req in (m', ArSaved r))"
| "approval_exec m (AoApprove sc i) = (let (m', r) = ap_approve m sc i in (m', ArResolved sc i r))"
| "approval_exec m (AoDeny sc i) = (let (m', r) = ap_deny m sc i in (m', ArResolved sc i r))"
| "approval_exec m (AoDiscard sc i) =
     (let (m', r) = ap_discard_pending m sc i in (m', ArResolved sc i r))"

definition approval_opens :: "'d approval_resp \<Rightarrow> scope_key option" where
  "approval_opens r =
     (case r of ArSaved (Inr a) \<Rightarrow> Some (approval_key (apr_scope a) (req_id (apr_request a)))
      | _ \<Rightarrow> None)"

definition approval_closes :: "'d approval_resp \<Rightarrow> scope_key option" where
  "approval_closes r =
     (case r of ArResolved sc i (Inr a) \<Rightarrow> Some (approval_key sc i) | _ \<Rightarrow> None)"

definition approval_status_of :: "'d approval_store \<Rightarrow> scope_key \<Rightarrow> approval_status option" where
  "approval_status_of m k = map_option apr_status (hget m k)"

lemmas approval_op_defs =
  ap_save_pending_def ap_approve_def ap_deny_def ap_update_status_def ap_discard_pending_def

interpretation mem_approvals: lifecycle_protocol
  "\<lambda>_. True" ApPending approval_status_of approval_exec approval_opens approval_closes
proof
  fix m m' :: "'d approval_store" and x r i j
  assume e: "approval_exec m x = (m', r)"
  show "approval_opens r = Some i \<Longrightarrow>
      approval_status_of m i = None \<and> approval_status_of m' i = Some ApPending"
    using e
    by (cases x) (auto simp: approval_op_defs approval_opens_def approval_status_of_def hcontains_def
        hmap_simps Let_def split: if_splits option.splits)
  show "approval_closes r = Some i \<Longrightarrow> approval_status_of m i = Some ApPending
      \<and> (\<exists>st. st \<noteq> ApPending \<and> approval_status_of m' i = Some st)"
    using e
    by (cases x) (auto simp: approval_op_defs approval_closes_def approval_status_of_def hcontains_def
        hmap_simps Let_def split: if_splits option.splits)
  show "status_advances ApPending (approval_status_of m j) (approval_status_of m' j)"
    using e
    by (cases x) (auto simp: approval_op_defs approval_status_of_def hcontains_def status_advances_def
        hmap_simps Let_def split: if_splits option.splits)
qed simp

section \<open>Properties\<close>

text \<open>(C10) Approvals are resolved once: over any sequence of calls, an approval request is saved at
  most once under its scope and identifier and resolved (approved, denied or discarded) at most
  once, and once resolved its record never changes, so a discarded identifier cannot be reused.\<close>

theorem approval_resolved_once:
  "count_list (map approval_opens (snd (run_ops approval_exec m xs))) (Some k) \<le> 1
   \<and> count_list (map approval_closes (snd (run_ops approval_exec m xs))) (Some k) \<le> 1
   \<and> (hget m k = Some r \<and> apr_status r \<noteq> ApPending \<longrightarrow>
        hget (fst (run_ops approval_exec m xs)) k = Some r)"
proof (intro conjI impI)
  assume r: "hget m k = Some r \<and> apr_status r \<noteq> ApPending"
  show "hget (fst (run_ops approval_exec m xs)) k = Some r"
  proof (rule run_ops_invariant [where I = "\<lambda>m. hget m k = Some r"])
    fix m :: "'a approval_store" and x :: "'a approval_op"
    assume "hget m k = Some r"
    then show "hget (fst (approval_exec m x)) k = Some r"
      using r
      by (cases x) (auto simp: approval_op_defs hcontains_def hmap_simps Let_def split: option.splits)
  qed (use r in simp)
qed (use mem_approvals.opens_at_most_once [OF TrueI] mem_approvals.closes_at_most_once [OF TrueI]
     in blast)+

definition sample_request :: "approval_request_id \<Rightarrow> int approval_request" where
  "sample_request i =
     ApprovalRequest i 9 (PUser ''ann'') (ActReadFile ''/workspace/a'') None ''why'' None"

theorem approval_resolved_once_witness:
  "let sc = system_scope 1; m = fst (approval_exec [] (AoSave sc (sample_request 5)));
       m2 = fst (approval_exec m (AoDiscard sc 5))
   in hget (fst (run_ops approval_exec m2 [AoSave sc (sample_request 5), AoApprove sc 5]))
        (approval_key sc 5)
      = Some \<lparr>apr_scope = sc, apr_request = sample_request 5, apr_status = ApDiscarded\<rparr>"
  unfolding Let_def
  by (rule approval_resolved_once [THEN conjunct2, THEN conjunct2, rule_format])
     (simp add: approval_op_defs hcontains_def sample_request_def Let_def)

definition run_record_ok :: "scope_key \<Rightarrow> run_record \<Rightarrow> bool" where
  "run_record_ok k r \<longleftrightarrow>
     k = run_state_key (run_scope r) (run_invocation_id r)
     \<and> (run_approval_request_id r \<noteq> None \<longleftrightarrow> run_status r = RsBlockedApproval)
     \<and> (run_error_kind r \<noteq> None \<longleftrightarrow> run_status r = RsBlockedAuth \<or> run_status r = RsFailed)"

definition run_store_ok :: "run_store \<Rightarrow> bool" where
  "run_store_ok m \<longleftrightarrow> hwf m \<and> list_all (\<lambda>(k, r). run_record_ok k r) m"

lemmas run_op_defs =
  rs_start_def new_run_record_def rs_update_def rs_block_approval_def rs_block_auth_def
  rs_complete_def rs_fail_def mark_blocked_approval_def mark_blocked_auth_def mark_completed_def
  mark_failed_def

lemma list_all_hput:
  "hwf m \<Longrightarrow> list_all (\<lambda>(k, v). P k v) m \<Longrightarrow> P k v \<Longrightarrow> list_all (\<lambda>(k, v). P k v) (hput k v m)"
  by (induction m) (auto split: if_splits)

lemma run_store_ok_hput: "run_store_ok m \<Longrightarrow> run_record_ok k r \<Longrightarrow> run_store_ok (hput k r m)"
  by (simp add: run_store_ok_def list_all_hput)

lemma run_store_ok_get: "run_store_ok m \<Longrightarrow> hget m k = Some r \<Longrightarrow> run_record_ok k r"
  by (auto simp: run_store_ok_def list_all_iff dest: map_of_SomeD)

lemma marks_ok:
  assumes "run_record_ok k r"
  shows "run_record_ok k (mark_blocked_approval a r)" "run_record_ok k (mark_blocked_auth e r)"
    "run_record_ok k (mark_completed r)" "run_record_ok k (mark_failed e r)"
  using assms
  by (simp_all add: run_record_ok_def mark_blocked_approval_def mark_blocked_auth_def
      mark_completed_def mark_failed_def)

lemma rs_update_ok:
  assumes "run_store_ok m" and "\<And>k r. run_record_ok k r \<Longrightarrow> run_record_ok k (f r)"
  shows "run_store_ok (fst (rs_update m sc i f))"
  using assms run_store_ok_get [OF assms(1)]
  by (auto simp: rs_update_def intro: run_store_ok_hput split: option.splits)

lemma run_exec_ok:
  assumes "run_store_ok m"
  shows "run_store_ok (fst (run_exec m x))"
proof (cases x)
  case (RoStart s)
  have "run_record_ok (run_state_key (start_scope s) (start_invocation_id s)) (new_run_record s)"
    by (simp add: run_record_ok_def new_run_record_def)
  then show ?thesis
    using RoStart assms run_store_ok_hput by (simp add: rs_start_def Let_def new_run_record_def)
qed (use assms marks_ok in \<open>auto simp: rs_block_approval_def rs_block_auth_def rs_complete_def
       rs_fail_def intro!: rs_update_ok\<close>)

text \<open>Invariant of run records: over any sequence of calls from an empty store, a record names an
  approval request exactly when the run is blocked on approval, and an error kind exactly when it
  is blocked on authentication or failed, and it is stored under the key of its own scope.\<close>

theorem run_records_consistent:
  assumes "hget (fst (run_ops run_exec [] xs)) k = Some r"
  shows "run_record_ok k r"
proof -
  have "run_store_ok (fst (run_ops run_exec [] xs))"
    by (rule run_ops_invariant) (auto simp: run_exec_ok, simp add: run_store_ok_def)
  then show ?thesis using assms by (rule run_store_ok_get)
qed

definition sample_start :: "resource_scope \<Rightarrow> invocation_id \<Rightarrow> run_start" where
  "sample_start sc i =
     \<lparr>start_invocation_id = i, start_capability_id = ''demo.run'', start_scope = sc,
      start_authenticated_actor = None\<rparr>"

theorem run_records_consistent_witness:
  "let sc = system_scope 1;
       r = mark_blocked_approval (sample_request 5) (new_run_record (sample_start sc 3))
   in hget (fst (run_ops run_exec [] [RoStart (sample_start sc 3),
          RoBlockApproval sc 3 (sample_request 5)])) (run_state_key sc 3) = Some r
      \<and> run_record_ok (run_state_key sc 3) r"
proof -
  let ?sc = "system_scope 1"
  let ?r = "mark_blocked_approval (sample_request 5) (new_run_record (sample_start ?sc 3))"
  have "hget (fst (run_ops run_exec [] [RoStart (sample_start ?sc 3),
          RoBlockApproval ?sc 3 (sample_request 5)])) (run_state_key ?sc 3) = Some ?r"
    by (simp add: run_op_defs sample_start_def hcontains_def Let_def)
  from this run_records_consistent [OF this] show ?thesis by (simp add: Let_def del: run_ops.simps)
qed

lemma filter_hput_other:
  assumes "\<forall>v. hget m k = Some v \<longrightarrow> \<not> P v" and "\<not> P w"
  shows "filter P (hvalues (hput k w m)) = filter P (hvalues m)"
  using assms by (induction m) (auto simp: hvalues_def split: if_splits)

lemma run_state_key_owner:
  "run_state_key sc i = run_state_key sc' j \<longleftrightarrow> same_scope_owner sc sc' \<and> i = j"
  by (auto simp: run_state_key_def same_scope_owner_def)

lemma run_exec_other_scope:
  assumes ok: "run_store_ok m" and other: "\<not> same_scope_owner (run_op_scope x) sc"
  shows "rs_get (fst (run_exec m x)) sc i = rs_get m sc i
    \<and> rs_records_for_scope (fst (run_exec m x)) sc = rs_records_for_scope m sc"
proof -
  have owner: "\<not> same_scope_owner (run_scope r) sc"
    if "hget m (run_state_key (run_op_scope x) j) = Some r" for r j
    using run_store_ok_get [OF ok that] other
    by (auto simp: run_record_ok_def run_state_key_owner same_scope_owner_def)
  have upd: "rs_get (fst (rs_update m (run_op_scope x) j f)) sc i = rs_get m sc i
      \<and> rs_records_for_scope (fst (rs_update m (run_op_scope x) j f)) sc = rs_records_for_scope m sc"
    if "\<And>r. run_scope (f r) = run_scope r" for j f
    using that owner other
    by (auto simp: rs_update_def rs_get_def rs_records_for_scope_def hmap_simps run_state_key_owner
        same_scope_owner_def filter_hput_other split: option.splits)
  show ?thesis
  proof (cases x)
    case (RoStart s)
    then show ?thesis
      using owner other
      by (auto simp: rs_start_def new_run_record_def Let_def rs_get_def rs_records_for_scope_def
          hmap_simps run_state_key_owner same_scope_owner_def filter_hput_other)
  qed (use upd in \<open>auto simp: rs_block_approval_def rs_block_auth_def rs_complete_def rs_fail_def
        mark_blocked_approval_def mark_blocked_auth_def mark_completed_def mark_failed_def\<close>)
qed

text \<open>Scope isolation of run state: calls made under scopes of other owners (another tenant, user,
  agent, project, mission or thread) change neither what a scope reads for any of its invocations
  nor its list of records.\<close>

theorem run_state_scope_isolation:
  assumes "run_store_ok m" and "list_all (\<lambda>x. \<not> same_scope_owner (run_op_scope x) sc) xs"
  shows "rs_get (fst (run_ops run_exec m xs)) sc i = rs_get m sc i
    \<and> rs_records_for_scope (fst (run_ops run_exec m xs)) sc = rs_records_for_scope m sc"
  using assms
proof (induction xs arbitrary: m)
  case (Cons x xs)
  have "run_store_ok (fst (run_exec m x))" using Cons.prems(1) by (rule run_exec_ok)
  from Cons.IH [OF this] Cons.prems run_exec_other_scope [of m x sc i] show ?case
    by (simp add: run_ops_Cons_split del: run_ops.simps)
qed simp

theorem run_state_scope_isolation_witness:
  "let sc = system_scope 1; other = tenant_shared_managed_scope sc;
       m = fst (run_exec [] (RoStart (sample_start sc 3) :: int run_op))
   in rs_get (fst (run_ops run_exec m [RoFail other 3 ''x'', RoStart (sample_start other 3) :: int run_op])) sc 3
      = rs_get m sc 3"
  unfolding Let_def
  by (rule run_state_scope_isolation [THEN conjunct1, OF run_exec_ok])
     (simp_all add: run_store_ok_def same_scope_owner_def tenant_shared_managed_scope_def
       system_scope_def SYSTEM_RESERVED_ID_def TENANT_SHARED_MANAGED_USER_ID_def sample_start_def)

end
