(* ===== verification/Scoped_Fs.thy ===== *)
theory Scoped_Fs
  imports Versioned_Store
begin

text \<open>
  The scoped filesystem (\<open>ironclaw_filesystem/src/scoped.rs\<close>) over the in-memory backend, and the mount
  view the production composition resolves every scope to
  (\<open>ironclaw_reborn_composition/src/lib.rs\<close>: \<open>invocation_mount_view\<close>). The resolver of a
  \<open>ScopedFilesystem\<close> is a closure its builder supplies and is an argument here. Latency traces have
  no effect and are left out.
\<close>

section \<open>Permission checks\<close>

type_synonym mount_view_resolver = "resource_scope \<Rightarrow> host_api_error + mount_view"

definition operation_allowed :: "mount_permissions \<Rightarrow> filesystem_operation \<Rightarrow> bool" where
  "operation_allowed perms op =
     (case op of
        ReadFile \<Rightarrow> perm_read perms
      | WriteFile \<Rightarrow> perm_write perms | AppendFile \<Rightarrow> perm_write perms
      | CreateDirAll \<Rightarrow> perm_write perms | EnsureIndex \<Rightarrow> perm_write perms
      | BeginTxn \<Rightarrow> perm_write perms | AppendOp \<Rightarrow> perm_write perms
      | ReserveSeq \<Rightarrow> perm_write perms
      | ListDir \<Rightarrow> perm_list perms
      | Stat \<Rightarrow> perm_read perms \<or> perm_list perms
      | Delete \<Rightarrow> perm_delete perms
      | MountLocal \<Rightarrow> False | Connect \<Rightarrow> False
      | Query \<Rightarrow> perm_read perms \<and> perm_list perms
      | Tail \<Rightarrow> perm_read perms | HeadSeq \<Rightarrow> perm_read perms)"

definition contract :: "host_api_error + 'a \<Rightarrow> filesystem_error + 'a" where
  "contract r = (case r of Inl e \<Rightarrow> Err (Contract e) | Inr v \<Rightarrow> Ok v)"

definition resolve_with_permission_view ::
  "mount_view \<Rightarrow> scoped_path \<Rightarrow> filesystem_operation \<Rightarrow> filesystem_error + virtual_path" where
  "resolve_with_permission_view view p op =
     rbind (contract (resolve_with_grant view p)) (\<lambda>(v, grant).
       if \<not> operation_allowed (mount_permissions grant) op then Err (PermissionDenied p op)
       else Ok v)"

definition resolve_with_permission ::
  "mount_view_resolver \<Rightarrow> resource_scope \<Rightarrow> scoped_path \<Rightarrow> filesystem_operation
    \<Rightarrow> filesystem_error + virtual_path" where
  "resolve_with_permission resolver sc p op =
     rbind (contract (resolver sc)) (\<lambda>view. resolve_with_permission_view view p op)"

section \<open>Operations\<close>

definition scoped_update ::
  "mount_view_resolver \<Rightarrow> 'b mem_fs \<Rightarrow> resource_scope \<Rightarrow> scoped_path \<Rightarrow> filesystem_operation
    \<Rightarrow> (virtual_path \<Rightarrow> 'b mem_fs \<times> (filesystem_error + 'a)) \<Rightarrow> 'b mem_fs \<times> (filesystem_error + 'a)"
where
  "scoped_update resolver fs sc p op f =
     (case resolve_with_permission resolver sc p op of Inl e \<Rightarrow> (fs, Err e) | Inr v \<Rightarrow> f v)"

definition scoped_put where
  "scoped_put resolver fs sc p e cas now =
     scoped_update resolver fs sc p WriteFile (\<lambda>v. fs_put fs v e cas now)"

definition scoped_get where
  "scoped_get resolver fs sc p =
     rbind (resolve_with_permission resolver sc p ReadFile) (\<lambda>v. fs_get fs v)"

definition scoped_append where
  "scoped_append resolver fs sc p payload =
     scoped_update resolver fs sc p AppendOp (\<lambda>v. fs_append fs v payload)"

definition scoped_append_batch where
  "scoped_append_batch resolver fs sc p payloads =
     scoped_update resolver fs sc p AppendOp (\<lambda>v. fs_append_batch fs v payloads)"

definition scoped_tail where
  "scoped_tail resolver fs sc p from_seq =
     rbind (resolve_with_permission resolver sc p Tail) (\<lambda>v. fs_tail fs v from_seq)"

definition scoped_tail_bounded where
  "scoped_tail_bounded resolver fs sc p from_seq n =
     rbind (resolve_with_permission resolver sc p Tail) (\<lambda>v. fs_tail_bounded fs v from_seq n)"

definition scoped_head_seq where
  "scoped_head_seq resolver fs sc p from_seq =
     rbind (resolve_with_permission resolver sc p HeadSeq) (\<lambda>v. fs_head_seq fs v from_seq)"

definition scoped_reserve_sequence where
  "scoped_reserve_sequence resolver fs sc p =
     scoped_update resolver fs sc p ReserveSeq (\<lambda>v. fs_reserve_sequence fs v)"

definition scoped_append_file where
  "scoped_append_file resolver fs sc p bytes now =
     scoped_update resolver fs sc p AppendFile (\<lambda>v. fs_append_file fs v bytes now)"

definition scoped_list_dir where
  "scoped_list_dir resolver fs sc p =
     rbind (resolve_with_permission resolver sc p ListDir) (\<lambda>v. fs_list_dir fs v)"

definition scoped_list_dir_bounded where
  "scoped_list_dir_bounded resolver fs sc p n =
     rbind (resolve_with_permission resolver sc p ListDir) (\<lambda>v. fs_list_dir_bounded fs v n)"

definition scoped_stat where
  "scoped_stat resolver fs sc p =
     rbind (resolve_with_permission resolver sc p Stat) (\<lambda>v. fs_stat fs v)"

definition scoped_delete where
  "scoped_delete resolver fs sc p =
     scoped_update resolver fs sc p Delete (\<lambda>v. fs_delete fs v)"

definition scoped_delete_if_version where
  "scoped_delete_if_version resolver fs sc p expected =
     scoped_update resolver fs sc p Delete (\<lambda>v. fs_delete_if_version fs v expected)"

definition scoped_read_bytes where
  "scoped_read_bytes resolver fs sc p =
     rbind (scoped_get resolver fs sc p) (\<lambda>got.
       case got of
         Some v \<Rightarrow> Ok (body (ve_entry v))
       | None \<Rightarrow> rbind (resolve_with_permission resolver sc p ReadFile) (\<lambda>v. Err (NotFound v ReadFile)))"

definition scoped_read_bytes_bounded where
  "scoped_read_bytes_bounded resolver fs sc p n =
     rbind (resolve_with_permission resolver sc p ReadFile) (\<lambda>v. fs_read_file_bounded fs v n)"

definition scoped_write_bytes where
  "scoped_write_bytes resolver fs sc p bytes now =
     (let (fs', r) = scoped_put resolver fs sc p (entry_bytes bytes) CasAny now
      in (fs', rbind r (\<lambda>_. Ok ())))"

section \<open>The production mount view\<close>

definition PER_USER_ALIASES :: "string list" where
  "PER_USER_ALIASES =
     [''/processes'', ''/secrets'', ''/authorization'', ''/outbound'', ''/run-state'',
      ''/approvals'', ''/threads'', ''/conversations'', ''/turns'', ''/checkpoint-state'',
      ''/resources'', ''/engine'', ''/skills'', ''/workspace'']"

definition resource_scope_path_segment :: "string \<Rightarrow> string" where
  "resource_scope_path_segment value =
     (if value = SYSTEM_RESERVED_ID then ''__system__'' else value)"

fun build_grants ::
  "(string \<times> string \<times> mount_permissions) list \<Rightarrow> host_api_error + mount_grant list" where
  "build_grants [] = Ok []"
| "build_grants ((a, t, perms) # xs) =
     rbind (mount_alias_new a) (\<lambda>alias.
     rbind (virtual_path_new t) (\<lambda>target.
     rbind (build_grants xs) (\<lambda>gs.
       Ok (\<lparr>mount_alias = alias, mount_target = target, mount_permissions = perms\<rparr> # gs))))"

text \<open>The Boolean is the cargo feature \<open>slack-v2-host-beta\<close>.\<close>

definition grant_specs ::
  "bool \<Rightarrow> string \<Rightarrow> string \<Rightarrow> (string \<times> string \<times> mount_permissions) list" where
  "grant_specs slack tenant user =
     (let tenant_user_prefix = ''/tenants/'' @ tenant @ ''/users/'' @ user
      in map (\<lambda>alias. (alias, tenant_user_prefix @ alias, permissions_read_write_list_delete))
           PER_USER_ALIASES
         @ [(''/tenant-shared'', ''/tenants/'' @ tenant @ ''/shared'', permissions_read_write),
            (''/tenant-shared/reborn-identity'',
             ''/tenants/'' @ tenant @ ''/shared/reborn-identity'', permissions_read_write_list_delete)]
         @ (if slack
            then [(''/tenant-shared/slack-channel-routes'',
                   ''/tenants/'' @ tenant @ ''/shared/slack-channel-routes'', permissions_read_only)]
            else [])
         @ map (\<lambda>r. (r, r, permissions_read_only))
             [''/system/settings'', ''/system/extensions'', ''/system/skills''])"

definition invocation_mount_view_for_segments ::
  "bool \<Rightarrow> string \<Rightarrow> string \<Rightarrow> host_api_error + mount_view" where
  "invocation_mount_view_for_segments slack tenant user =
     rbind (build_grants (grant_specs slack tenant user)) view_new"

definition invocation_mount_view :: "bool \<Rightarrow> mount_view_resolver" where
  "invocation_mount_view slack sc =
     invocation_mount_view_for_segments slack
       (resource_scope_path_segment (tenant_id sc)) (resource_scope_path_segment (user_id sc))"

section \<open>The view of a validated scope\<close>

lemma validated_id_proper:
  assumes "scope_id_new k t = Ok w"
  shows "proper_segment w"
  using assms by (auto simp: scope_id_new_Ok validate_scope_id_Ok proper_segment_def
      has_forbidden_control_def)

definition spec_ok :: "string \<times> string \<times> mount_permissions \<Rightarrow> bool" where
  "spec_ok s \<longleftrightarrow> (case s of (a, t, _) \<Rightarrow> canonical a \<and> canonical t \<and> in_known_root t)"

definition spec_grant :: "string \<times> string \<times> mount_permissions \<Rightarrow> mount_grant" where
  "spec_grant s = (case s of (a, t, perms) \<Rightarrow>
     \<lparr>mount_alias = a, mount_target = t, mount_permissions = perms\<rparr>)"

lemma build_grants_Ok:
  "list_all spec_ok specs \<Longrightarrow> build_grants specs = Ok (map spec_grant specs)"
  by (induction specs rule: build_grants.induct)
     (simp_all add: spec_ok_def spec_grant_def mount_alias_new_def normalize_canonical
       virtual_path_new_fixed [THEN iffD2])

lemma canonical_by_normalize: "normalize_absolute_path s PKVirtual = Ok s \<Longrightarrow> canonical s"
  by (rule normalize_Ok_canonical)

lemma canonical_segs:
  "list_all proper_segment ps \<Longrightarrow> ps \<noteq> [] \<Longrightarrow> s = path_of ps \<Longrightarrow> canonical s"
  by (auto simp: canonical_def)

lemma tenants_root: "in_known_root (''/tenants/'' @ t)"
  by (simp add: in_known_root_def VIRTUAL_ROOTS_def path_matches_alias_def starts_with_def)

lemma alias_segments_proper:
  "\<forall>a \<in> set PER_USER_ALIASES. \<exists>q. a = ''/'' @ q \<and> proper_segment q"
  by (simp add: PER_USER_ALIASES_def proper_segment_def control_head_def byte_def)

lemma grant_specs_ok:
  assumes "proper_segment t" and "proper_segment u"
  shows "list_all spec_ok (grant_specs slack t u)"
proof -
  have seg: "proper_segment ''tenants''" "proper_segment ''users''" "proper_segment ''shared''"
    "proper_segment ''tenant-shared''" "proper_segment ''reborn-identity''"
    "proper_segment ''slack-channel-routes''"
    "proper_segment ''system''" "proper_segment ''settings''" "proper_segment ''extensions''"
    "proper_segment ''skills''"
    by (simp_all add: proper_segment_def control_head_def byte_def)
  have per_user: "spec_ok (a, ''/tenants/'' @ t @ ''/users/'' @ u @ a, perms)"
    if al: "a \<in> set PER_USER_ALIASES" for a perms
  proof -
    obtain q where q: "a = ''/'' @ q" "proper_segment q" using alias_segments_proper [rule_format, OF al] by blast
    have "canonical a" by (rule canonical_segs [of "[q]"]) (simp_all add: path_of_def q)
    moreover have "canonical (''/tenants/'' @ t @ ''/users/'' @ u @ a)"
      by (rule canonical_segs [of "[''tenants'', t, ''users'', u, q]"])
         (simp_all add: path_of_def q seg assms)
    ultimately show ?thesis using tenants_root by (simp add: spec_ok_def)
  qed
  have shared: "canonical (''/tenants/'' @ t @ ''/shared'')"
      "canonical (''/tenants/'' @ t @ ''/shared/reborn-identity'')"
      "canonical (''/tenants/'' @ t @ ''/shared/slack-channel-routes'')"
    by (rule canonical_segs [of "[''tenants'', t, ''shared'']"]
        canonical_segs [of "[''tenants'', t, ''shared'', ''reborn-identity'']"]
        canonical_segs [of "[''tenants'', t, ''shared'', ''slack-channel-routes'']"],
        simp_all add: path_of_def seg assms)+
  have aliases: "canonical ''/tenant-shared''" "canonical ''/tenant-shared/reborn-identity''"
      "canonical ''/tenant-shared/slack-channel-routes''"
      "canonical ''/system/settings''" "canonical ''/system/extensions''" "canonical ''/system/skills''"
    by (rule canonical_by_normalize, simp add: path_eval)+
  have system: "in_known_root ''/system/settings''" "in_known_root ''/system/extensions''"
      "in_known_root ''/system/skills''"
    by (simp_all add: in_known_root_def VIRTUAL_ROOTS_def path_matches_alias_def)
  show ?thesis
    using per_user shared aliases system tenants_root
    by (auto simp: grant_specs_def Let_def list_all_iff spec_ok_def)
qed


definition proper_scope :: "resource_scope \<Rightarrow> bool" where
  "proper_scope sc \<longleftrightarrow> proper_segment (resource_scope_path_segment (tenant_id sc))
     \<and> proper_segment (resource_scope_path_segment (user_id sc))"

lemma view_validate_from_Ok:
  "view_validate_from seen ms = Ok () \<longleftrightarrow> distinct (map mount_alias ms) \<and> set seen \<inter> set (map mount_alias ms) = {}"
  by (induction ms arbitrary: seen) auto

lemma invocation_mount_view_Ok:
  assumes "proper_scope sc"
  shows "invocation_mount_view slack sc =
    Ok (map spec_grant (grant_specs slack (resource_scope_path_segment (tenant_id sc))
      (resource_scope_path_segment (user_id sc))))"
proof -
  let ?t = "resource_scope_path_segment (tenant_id sc)"
  let ?u = "resource_scope_path_segment (user_id sc)"
  have "build_grants (grant_specs slack ?t ?u) = Ok (map spec_grant (grant_specs slack ?t ?u))"
    using assms by (intro build_grants_Ok grant_specs_ok) (auto simp: proper_scope_def)
  moreover have "distinct (map mount_alias (map spec_grant (grant_specs slack ?t ?u)))"
    by (simp add: grant_specs_def spec_grant_def PER_USER_ALIASES_def Let_def)
  ultimately show ?thesis
    by (simp add: invocation_mount_view_def invocation_mount_view_for_segments_def view_new_def
        view_validate_def view_validate_from_Ok [THEN iffD2])
qed

lemma invocation_view_wf:
  assumes "proper_scope sc" and "invocation_mount_view slack sc = Ok view"
  shows "view_wf view"
proof -
  have "view = map spec_grant (grant_specs slack (resource_scope_path_segment (tenant_id sc))
      (resource_scope_path_segment (user_id sc)))"
    using invocation_mount_view_Ok [OF assms(1), of slack] assms(2) by simp
  moreover have "list_all spec_ok (grant_specs slack (resource_scope_path_segment (tenant_id sc))
      (resource_scope_path_segment (user_id sc)))"
    using assms(1) by (intro grant_specs_ok) (auto simp: proper_scope_def)
  ultimately show ?thesis
    by (auto simp: view_wf_def list_all_iff spec_ok_def spec_grant_def mount_alias_new_def
        normalize_canonical virtual_path_new_fixed split: prod.splits)
qed

definition tenant_prefix :: "resource_scope \<Rightarrow> string" where
  "tenant_prefix sc = ''/tenants/'' @ resource_scope_path_segment (tenant_id sc) @ ''/''"

text \<open>Every grant of the production view points below the tenant's own directory, except the three
  system directories, which are read-only.\<close>

lemma invocation_view_targets:
  assumes "proper_scope sc" and "invocation_mount_view slack sc = Ok view" and "m \<in> set view"
  shows "starts_with (tenant_prefix sc) (mount_target m)
    \<or> (mount_permissions m = permissions_read_only \<and> starts_with ''/system/'' (mount_target m))"
proof -
  have "m \<in> set (map spec_grant (grant_specs slack (resource_scope_path_segment (tenant_id sc))
      (resource_scope_path_segment (user_id sc))))"
    using invocation_mount_view_Ok [OF assms(1), of slack] assms(2,3) by simp
  then show ?thesis
    unfolding starts_with_iff
    by (auto simp: grant_specs_def spec_grant_def tenant_prefix_def Let_def split: if_splits)
qed

lemma resolve_production:
  assumes "proper_scope sc" and "canonical p"
    and "resolve_with_permission (invocation_mount_view slack) sc p op = Ok v"
  shows "starts_with (tenant_prefix sc) v
    \<or> (operation_allowed permissions_read_only op \<and> starts_with ''/system/'' v)"
proof -
  obtain view m where view: "invocation_mount_view slack sc = Ok view"
    and r: "resolve_with_grant view p = Ok (v, m)" and a: "operation_allowed (mount_permissions m) op"
    using assms(3)
    by (auto simp: resolve_with_permission_def resolve_with_permission_view_def contract_def
        rbind_eq_Inr split: sum.splits if_splits prod.splits)
  have "m \<in> set view \<and> (\<exists>t. v = mount_target m @ t)"
    using resolve_with_grant_cases [OF invocation_view_wf [OF assms(1) view] assms(2)] r
    by (auto split: if_splits)
  then show ?thesis
    using invocation_view_targets [OF assms(1) view, of m] a by (auto simp: starts_with_iff)
qed


section \<open>What one write can touch\<close>

datatype 'b fs_write =
    SwPut scoped_path "'b entry" cas_expectation instant
  | SwAppendFile scoped_path "'b list" instant
  | SwDelete scoped_path
  | SwDeleteIfVersion scoped_path record_version
  | SwAppend scoped_path "'b list"
  | SwAppendBatch scoped_path "'b list list"
  | SwReserve scoped_path

fun write_path :: "'b fs_write \<Rightarrow> scoped_path" where
  "write_path (SwPut p _ _ _) = p" | "write_path (SwAppendFile p _ _) = p"
| "write_path (SwDelete p) = p" | "write_path (SwDeleteIfVersion p _) = p"
| "write_path (SwAppend p _) = p" | "write_path (SwAppendBatch p _) = p"
| "write_path (SwReserve p) = p"

fun scoped_write ::
  "mount_view_resolver \<Rightarrow> resource_scope \<Rightarrow> 'b mem_fs \<Rightarrow> 'b fs_write \<Rightarrow> 'b mem_fs \<times> bool" where
  "scoped_write rv sc fs (SwPut p e cas now) =
     (let (fs', r) = scoped_put rv fs sc p e cas now in (fs', is_ok r))"
| "scoped_write rv sc fs (SwAppendFile p b now) =
     (let (fs', r) = scoped_append_file rv fs sc p b now in (fs', is_ok r))"
| "scoped_write rv sc fs (SwDelete p) =
     (let (fs', r) = scoped_delete rv fs sc p in (fs', is_ok r))"
| "scoped_write rv sc fs (SwDeleteIfVersion p v) =
     (let (fs', r) = scoped_delete_if_version rv fs sc p v in (fs', is_ok r))"
| "scoped_write rv sc fs (SwAppend p x) =
     (let (fs', r) = scoped_append rv fs sc p x in (fs', is_ok r))"
| "scoped_write rv sc fs (SwAppendBatch p xs) =
     (let (fs', r) = scoped_append_batch rv fs sc p xs in (fs', is_ok r))"
| "scoped_write rv sc fs (SwReserve p) =
     (let (fs', r) = scoped_reserve_sequence rv fs sc p in (fs', is_ok r))"

definition same_at :: "virtual_path \<Rightarrow> 'b mem_fs \<Rightarrow> 'b mem_fs \<Rightarrow> bool" where
  "same_at v fs fs' \<longleftrightarrow> hget (entries fs') v = hget (entries fs) v
     \<and> hget (event_logs fs') v = hget (event_logs fs) v
     \<and> hget (sequences fs') v = hget (sequences fs) v"

lemma same_at_refl [simp]: "same_at v fs fs"
  by (simp add: same_at_def)

lemma hget_filter_key:
  "P v \<Longrightarrow> hget (filter (\<lambda>(k, _). P k) m) v = hget m v"
  by (induction m) auto

lemma fs_write_same_at:
  assumes "v \<noteq> w"
  shows "same_at v fs (fst (fs_put fs w e cas now))"
    and "same_at v fs (fst (fs_append_file fs w b now))"
    and "same_at v fs (fst (fs_delete_if_version fs w ver))"
    and "same_at v fs (fst (fs_append fs w x))"
    and "same_at v fs (fst (fs_append_batch fs w xs))"
    and "same_at v fs (fst (fs_reserve_sequence fs w))"
  using assms
  by (auto simp: same_at_def fs_put_def fs_append_file_def fs_delete_if_version_def fs_append_def
      fs_append_batch_def fs_reserve_sequence_def Let_def hmap_simps split_def
      split: sum.splits option.splits)

lemma fs_delete_same_at:
  assumes "v \<noteq> w" and "\<not> starts_with (with_trailing_slash w) v"
  shows "same_at v fs (fst (fs_delete fs w))"
  using assms
  by (simp add: same_at_def fs_delete_def Let_def clear_under_def hmap_simps
      hget_filter_key [of "\<lambda>k. \<not> starts_with (with_trailing_slash w) k" v]
      hget_filter_key [of "\<lambda>k. k \<noteq> w \<and> \<not> starts_with (with_trailing_slash w) k" v])

lemma read_only_denies [simp]:
  "\<not> operation_allowed permissions_read_only WriteFile"
  "\<not> operation_allowed permissions_read_only AppendFile"
  "\<not> operation_allowed permissions_read_only AppendOp"
  "\<not> operation_allowed permissions_read_only ReserveSeq"
  "\<not> operation_allowed permissions_read_only Delete"
  by (simp_all add: operation_allowed_def permissions_read_only_def)

lemma scoped_update_same_at:
  assumes "\<And>w. resolve_with_permission rv sc p op = Ok w \<Longrightarrow> same_at v fs (fst (f w))"
  shows "same_at v fs (fst (scoped_update rv fs sc p op f))"
  using assms by (auto simp: scoped_update_def split: sum.splits)

lemma scoped_write_same_at:
  assumes r: "\<And>op w. resolve_with_permission rv sc (write_path x) op = Ok w \<Longrightarrow>
      \<not> operation_allowed permissions_read_only op \<Longrightarrow>
      v \<noteq> w \<and> \<not> starts_with (with_trailing_slash w) v"
  shows "same_at v fs (fst (scoped_write rv sc fs x))"
proof (cases x)
  case (SwDelete p)
  then show ?thesis
    using r [of Delete]
    by (auto simp: scoped_delete_def split_def Let_def intro!: scoped_update_same_at fs_delete_same_at)
qed (use r [of WriteFile] r [of AppendFile] r [of AppendOp] r [of ReserveSeq] r [of Delete]
     in \<open>auto simp: scoped_put_def scoped_append_file_def scoped_delete_if_version_def
       scoped_append_def scoped_append_batch_def scoped_reserve_sequence_def split_def Let_def
       intro!: scoped_update_same_at fs_write_same_at\<close>)

section \<open>Tenants are isolated\<close>

lemma prefix_unique:
  assumes "CHR ''/'' \<notin> set a" and "CHR ''/'' \<notin> set b" and "a @ CHR ''/'' # x = b @ CHR ''/'' # y"
  shows "a = b"
proof -
  have "takeWhile (\<lambda>c. c \<noteq> CHR ''/'') (a @ CHR ''/'' # x) = a"
    using assms(1) by (subst takeWhile_append2) auto
  moreover have "takeWhile (\<lambda>c. c \<noteq> CHR ''/'') (b @ CHR ''/'' # y) = b"
    using assms(2) by (subst takeWhile_append2) auto
  ultimately show ?thesis using assms(3) by simp
qed

lemma tenant_prefixes_disjoint:
  assumes "proper_scope sc1" and "proper_scope sc2"
    and "resource_scope_path_segment (tenant_id sc1) \<noteq> resource_scope_path_segment (tenant_id sc2)"
    and "starts_with (tenant_prefix sc1) v"
  shows "\<not> starts_with (tenant_prefix sc2) v" and "\<not> starts_with ''/system/'' v"
  using assms prefix_unique
  by (auto simp: starts_with_iff tenant_prefix_def proper_scope_def proper_segment_def)

lemma starts_with_trailing: "starts_with p w \<Longrightarrow> starts_with (with_trailing_slash w) v \<Longrightarrow> starts_with p v"
  by (auto simp: starts_with_iff with_trailing_slash_def split: if_splits)

lemma other_tenant_untouched:
  assumes sc: "proper_scope sc1" "proper_scope sc2"
      "resource_scope_path_segment (tenant_id sc1) \<noteq> resource_scope_path_segment (tenant_id sc2)"
    and x: "canonical (write_path x)"
    and v: "starts_with (tenant_prefix sc2) v \<or> starts_with ''/system/'' v"
  shows "same_at v fs (fst (scoped_write (invocation_mount_view slack) sc1 fs x))"
proof (rule scoped_write_same_at)
  fix op w
  assume r: "resolve_with_permission (invocation_mount_view slack) sc1 (write_path x) op = Ok w"
    and "\<not> operation_allowed permissions_read_only op"
  with resolve_production [OF sc(1) x r] have w: "starts_with (tenant_prefix sc1) w" by blast
  show "v \<noteq> w \<and> \<not> starts_with (with_trailing_slash w) v"
    using tenant_prefixes_disjoint [OF sc] w starts_with_trailing [OF w] v by blast
qed

lemma other_tenant_untouched_run:
  assumes "proper_scope sc1" "proper_scope sc2"
      "resource_scope_path_segment (tenant_id sc1) \<noteq> resource_scope_path_segment (tenant_id sc2)"
    and "list_all (\<lambda>x. canonical (write_path x)) xs"
    and "starts_with (tenant_prefix sc2) v \<or> starts_with ''/system/'' v"
  shows "same_at v fs (fst (run_ops (scoped_write (invocation_mount_view slack) sc1) fs xs))"
  using assms(4)
proof (induction xs arbitrary: fs)
  case (Cons x xs)
  let ?fs1 = "fst (scoped_write (invocation_mount_view slack) sc1 fs x)"
  have "same_at v fs ?fs1"
    using Cons.prems assms by (intro other_tenant_untouched) auto
  moreover have "same_at v ?fs1 (fst (run_ops (scoped_write (invocation_mount_view slack) sc1) ?fs1 xs))"
    using Cons by simp
  ultimately show ?case by (simp add: run_ops_Cons_split same_at_def del: run_ops.simps)
qed simp


text \<open>(C3) Tenant isolation: with the production mount view, no sequence of writes, appends, deletions
  and sequence reservations made under one tenant changes what a scope of another tenant reads,
  neither the entry at any of its paths nor the events of any of its logs.\<close>

theorem tenant_isolation:
  assumes "proper_scope sc1" and "proper_scope sc2"
    and "resource_scope_path_segment (tenant_id sc1) \<noteq> resource_scope_path_segment (tenant_id sc2)"
    and "list_all (\<lambda>x. canonical (write_path x)) xs" and "canonical p"
    and "fs' = fst (run_ops (scoped_write (invocation_mount_view slack) sc1) fs xs)"
  shows "scoped_get (invocation_mount_view slack) fs' sc2 p
      = scoped_get (invocation_mount_view slack) fs sc2 p
    \<and> scoped_tail (invocation_mount_view slack) fs' sc2 p from_seq
      = scoped_tail (invocation_mount_view slack) fs sc2 p from_seq"
proof -
  have same: "same_at v fs fs'"
    if "resolve_with_permission (invocation_mount_view slack) sc2 p op = Ok v" for op v
    unfolding assms(6)
    using other_tenant_untouched_run [OF assms(1-4)] resolve_production [OF assms(2,5) that] by blast
  have "scoped_get (invocation_mount_view slack) fs' sc2 p
      = scoped_get (invocation_mount_view slack) fs sc2 p"
    using same [of ReadFile]
    by (cases "resolve_with_permission (invocation_mount_view slack) sc2 p ReadFile")
       (simp_all add: scoped_get_def fs_get_def same_at_def)
  moreover have "scoped_tail (invocation_mount_view slack) fs' sc2 p from_seq
      = scoped_tail (invocation_mount_view slack) fs sc2 p from_seq"
    using same [of Tail]
    by (cases "resolve_with_permission (invocation_mount_view slack) sc2 p Tail")
       (simp_all add: scoped_tail_def fs_tail_def same_at_def)
  ultimately show ?thesis ..
qed

definition named_scope :: "string \<Rightarrow> string \<Rightarrow> resource_scope" where
  "named_scope t u =
     \<lparr>tenant_id = t, user_id = u, agent_id = None, project_id = None, mission_id = None,
      thread_id = None, invocation_id = 1\<rparr>"

lemma named_scope_proper:
  "scope_id_new ''tenant'' t = Ok t \<Longrightarrow> scope_id_new ''user'' u = Ok u \<Longrightarrow>
     proper_scope (named_scope t u) \<and> resource_scope_path_segment t = t"
  using validated_id_not_sentinel [of "''tenant''" t t] validated_id_not_sentinel [of "''user''" u u]
  by (simp add: proper_scope_def named_scope_def resource_scope_path_segment_def validated_id_proper)

lemmas scope_id_eval =
  scope_id_new_def validate_scope_id_def has_forbidden_control_def control_head_def byte_def
  contains_char_def starts_with_def RESERVED_SENTINEL_PREFIX_def

theorem tenant_isolation_witness:
  "scoped_get (invocation_mount_view False)
     (fst (run_ops (scoped_write (invocation_mount_view False) (named_scope ''acme'' ''ann'')) fs_new
       [SwPut ''/secrets/k'' (entry_bytes [True]) CasAny 1, SwDelete ''/secrets/k'']))
     (named_scope ''globex'' ''ann'') ''/secrets/k''
   = scoped_get (invocation_mount_view False) fs_new (named_scope ''globex'' ''ann'') ''/secrets/k''"
proof -
  have ids: "scope_id_new ''tenant'' ''acme'' = Ok ''acme''" "scope_id_new ''tenant'' ''globex'' = Ok ''globex''"
    "scope_id_new ''user'' ''ann'' = Ok ''ann''"
    by (simp_all add: scope_id_eval)
  have "canonical ''/secrets/k''"
    by (rule canonical_by_normalize) (simp add: path_eval)
  then show ?thesis
    using named_scope_proper [OF ids(1,3)] named_scope_proper [OF ids(2,3)]
    by (intro tenant_isolation [THEN conjunct1, OF _ _ _ _ _ refl])
       (auto simp: named_scope_def)
qed

text \<open>Validated scope identifiers: one that passes validation is unchanged, fits one path segment
  and equals no sentinel, so a scope decoded from text is the system scope, or carries the shared
  administrator, only where the text itself was the sentinel; both decoders give the text back.\<close>

theorem scope_ids_unforgeable:
  assumes "deserialize_system_aware_tenant_id t = Ok t'" and "deserialize_system_aware_user_id u = Ok u'"
  shows "t' = t \<and> u' = u \<and> length t \<le> 256 \<and> length u \<le> 256
    \<and> (t = SYSTEM_RESERVED_ID \<or> proper_segment t \<and> scope_id_new ''tenant'' t = Ok t)
    \<and> (u = SYSTEM_RESERVED_ID \<or> u = TENANT_SHARED_MANAGED_USER_ID
       \<or> proper_segment u \<and> scope_id_new ''user'' u = Ok u)
    \<and> \<not> is_ok (scope_id_new k SYSTEM_RESERVED_ID)
    \<and> \<not> is_ok (scope_id_new k TENANT_SHARED_MANAGED_USER_ID)
    \<and> deserialize_system_aware_tenant_id TENANT_SHARED_MANAGED_USER_ID
        = Err (InvalidId ''tenant'' TENANT_SHARED_MANAGED_USER_ID
            ''the `__ironclaw_` prefix is reserved for host sentinel identities'')"
proof -
  have no: "\<not> is_ok (scope_id_new k SYSTEM_RESERVED_ID)"
    "\<not> is_ok (scope_id_new k TENANT_SHARED_MANAGED_USER_ID)"
    using system_id_has_control shared_id_has_prefix
    by (auto simp: is_ok_def scope_id_new_Ok validate_scope_id_Ok split: sum.splits)
  have len: "length SYSTEM_RESERVED_ID \<le> 256" "length TENANT_SHARED_MANAGED_USER_ID \<le> 256"
    by (simp_all add: SYSTEM_RESERVED_ID_def TENANT_SHARED_MANAGED_USER_ID_def)
  have sh: "deserialize_system_aware_tenant_id TENANT_SHARED_MANAGED_USER_ID
        = Err (InvalidId ''tenant'' TENANT_SHARED_MANAGED_USER_ID
            ''the `__ironclaw_` prefix is reserved for host sentinel identities'')"
    by (simp add: deserialize_system_aware_tenant_id_def SYSTEM_RESERVED_ID_def scope_id_eval
        TENANT_SHARED_MANAGED_USER_ID_def)
  show ?thesis
    using assms no len sh validated_id_proper
    by (auto simp: deserialize_system_aware_tenant_id_def [of t] deserialize_system_aware_user_id_def
        scope_id_new_Ok validate_scope_id_Ok split: if_splits)
qed

theorem scope_ids_unforgeable_witness:
  "\<not> is_ok (scope_id_new ''user'' SYSTEM_RESERVED_ID) \<and> proper_segment ''acme''"
  using scope_ids_unforgeable [of "''acme''" "''acme''" SYSTEM_RESERVED_ID SYSTEM_RESERVED_ID "''user''"]
  by (auto simp: deserialize_system_aware_tenant_id_def deserialize_system_aware_user_id_def
      scope_id_eval SYSTEM_RESERVED_ID_def)

text \<open>The system scope is not isolated from every tenant: the segment \<open>__system__\<close> that stands
  for the unforgeable system identifier in virtual paths is itself a valid identifier, so a tenant
  and user of that name get exactly the system scope's mount view.\<close>

theorem system_segment_collision:
  "scope_id_new ''tenant'' ''__system__'' = Ok ''__system__''
   \<and> scope_id_new ''user'' ''__system__'' = Ok ''__system__''
   \<and> \<not> is_system (named_scope ''__system__'' ''__system__'')
   \<and> invocation_mount_view slack (named_scope ''__system__'' ''__system__'')
       = invocation_mount_view slack (system_scope i)"
  by (simp add: scope_id_eval is_system_def named_scope_def system_scope_def SYSTEM_RESERVED_ID_def
      invocation_mount_view_def resource_scope_path_segment_def)

text \<open>Compare-and-swap of the backend: a put succeeds only when its precondition holds and the
  path is not a directory; then a get returns the new entry with the version the put returned,
  which is 1 for a new entry and otherwise the successor of the old version, and no other path
  changes. A refused put changes nothing.\<close>

theorem put_compare_and_swap:
  assumes "fs_put fs p e cas now = (fs', r)"
  shows "case r of
      Inl err \<Rightarrow> fs' = fs
    | Inr v \<Rightarrow> check_cas p cas (map_option st_version (hget (entries fs) p)) = Ok ()
        \<and> \<not> has_children fs p \<and> v = next_version (map_option st_version (hget (entries fs) p))
        \<and> fs_get fs' p = Ok (Some \<lparr>ve_path = p, ve_entry = e, ve_version = v\<rparr>)
        \<and> (\<forall>q. q \<noteq> p \<longrightarrow> same_at q fs fs')"
proof (cases r)
  case (Inl err)
  with assms show ?thesis by (auto simp: fs_put_def Let_def split: if_splits sum.splits)
next
  case (Inr v)
  have "same_at q fs fs'" if "q \<noteq> p" for q
    using fs_write_same_at(1) [OF that, of fs e cas now] assms by simp
  with Inr assms show ?thesis
    by (auto simp: fs_put_def fs_get_def Let_def hmap_simps split: if_splits sum.splits)
qed

theorem put_compare_and_swap_witness:
  "fst (fs_put (fst (fs_put fs_new ''/turns/s'' (entry_bytes [True]) CasAbsent 1))
      ''/turns/s'' (entry_bytes [False]) (CasVersion 2) 2)
   = fst (fs_put fs_new ''/turns/s'' (entry_bytes [True]) CasAbsent 1)"
  using put_compare_and_swap [of "fst (fs_put fs_new ''/turns/s'' (entry_bytes [True]) CasAbsent 1)"
      "''/turns/s''" "entry_bytes [False]" "CasVersion 2" 2]
  by (simp add: fs_put_def fs_new_def has_children_def starts_with_def with_trailing_slash_def
      ends_with_char_def next_version_def)

text \<open>A refused deletion of the in-memory backend is not free of effects: deleting a path that
  holds an event log but no entry answers that nothing was found and drops the log.\<close>

theorem delete_not_found_drops_log:
  "let fs1 = fst (fs_append fs_new ''/events/a'' [True]); (fs2, r) = fs_delete fs1 ''/events/a''
   in r = Err (NotFound ''/events/a'' Delete)
     \<and> fs_tail fs1 ''/events/a'' 0 = Ok [\<lparr>er_seq = 1, er_payload = [True]\<rparr>]
     \<and> fs_tail fs2 ''/events/a'' 0 = Ok []"
  by (simp add: fs_append_def fs_delete_def fs_tail_def fs_new_def clear_under_def hcontains_def
      log_next_def seq_next_def sat_add_def Let_def)

end
