(* ===== verification/Cas_Update.thy ===== *)
theory Cas_Update
  imports Scoped_Fs
begin

text \<open>
  The lock-free read-modify-write helper (\<open>ironclaw_filesystem/src/cas.rs\<close>) over the scoped filesystem.
  What other tasks do while a call awaits is explicit: \<open>others k\<close> is the list of writes, each with the
  scope it is made under, that land in gap \<open>k\<close> of the call, where the gap \<open>2 * n\<close> precedes the read of
  attempt \<open>n\<close> and the gap \<open>2 * n + 1\<close> lies between that read and its put. The deadline of the whole
  loop is the gap at which it strikes, if any. Backoff only waits and is left out; the retry bound
  is the source's.
\<close>

section \<open>Types\<close>

record ('s, 't) cas_apply =
  ca_snapshot :: 's
  ca_outcome :: 't
  ca_write :: bool

definition cas_apply_new :: "'s \<Rightarrow> 't \<Rightarrow> ('s, 't) cas_apply" where
  "cas_apply_new s t = \<lparr>ca_snapshot = s, ca_outcome = t, ca_write = True\<rparr>"

definition cas_apply_no_op :: "'s \<Rightarrow> 't \<Rightarrow> ('s, 't) cas_apply" where
  "cas_apply_no_op s t = \<lparr>ca_snapshot = s, ca_outcome = t, ca_write = False\<rparr>"

datatype 'e cas_update_error =
    CasApplyError 'e
  | CasTimeout
  | CasRetriesExhausted
  | CasUnsupported
  | CasBackend filesystem_error

definition FILESYSTEM_CAS_RETRIES :: nat where
  "FILESYSTEM_CAS_RETRIES = 32"

datatype txn_capability = TxnNone | TxnCas | TxnMultiKey

record backend_capabilities =
  cap_flags :: "fs_capability list"
  cap_txn :: txn_capability

definition capabilities_default :: backend_capabilities where
  "capabilities_default = \<lparr>cap_flags = [], cap_txn = TxnNone\<rparr>"

definition capabilities_known :: "backend_capabilities \<Rightarrow> bool" where
  "capabilities_known caps = (caps \<noteq> capabilities_default)"

definition capabilities_support_cas :: "backend_capabilities \<Rightarrow> bool" where
  "capabilities_support_cas caps = (cap_txn caps = TxnCas \<or> cap_txn caps = TxnMultiKey)"

section \<open>One attempt\<close>

datatype ('b, 't) cas_plan = PlanReturn 't | PlanWrite "'b entry" cas_expectation 't

definition apply_error :: "'e + 'a \<Rightarrow> 'e cas_update_error + 'a" where
  "apply_error r = (case r of Inl e \<Rightarrow> Err (CasApplyError e) | Inr v \<Rightarrow> Ok v)"

definition cas_plan_from ::
  "('s \<Rightarrow> 'e + 'b entry) \<Rightarrow> ('s option \<Rightarrow> 'e + ('s, 't) cas_apply)
    \<Rightarrow> 's option \<times> record_version option \<Rightarrow> 'e cas_update_error + ('b, 't) cas_plan" where
  "cas_plan_from encode apply cv =
     (case cv of (current, version) \<Rightarrow>
       rbind (apply_error (apply current)) (\<lambda>ca.
         if \<not> ca_write ca then Ok (PlanReturn (ca_outcome ca))
         else if current = Some (ca_snapshot ca) then Ok (PlanReturn (ca_outcome ca))
         else rbind (apply_error (encode (ca_snapshot ca))) (\<lambda>e.
           Ok (PlanWrite e (case version of Some v \<Rightarrow> CasVersion v | None \<Rightarrow> CasAbsent)
                 (ca_outcome ca)))))"

definition cas_read ::
  "mount_view_resolver \<Rightarrow> ('b list \<Rightarrow> 'e + 's) \<Rightarrow> resource_scope \<Rightarrow> scoped_path \<Rightarrow> 'b mem_fs
    \<Rightarrow> 'e cas_update_error + ('s option \<times> record_version option)" where
  "cas_read rv decode sc p fs =
     (case scoped_get rv fs sc p of
        Inl e \<Rightarrow> Err (CasBackend e)
      | Inr None \<Rightarrow> Ok (None, None)
      | Inr (Some ve) \<Rightarrow>
          rbind (apply_error (decode (body (ve_entry ve)))) (\<lambda>s. Ok (Some s, Some (ve_version ve))))"

section \<open>The loop\<close>

definition interfere ::
  "mount_view_resolver \<Rightarrow> (resource_scope \<times> 'b fs_write) list \<Rightarrow> 'b mem_fs \<Rightarrow> 'b mem_fs" where
  "interfere rv ws fs = fold (\<lambda>(sc, w) fs. fst (scoped_write rv sc fs w)) ws fs"

record ('b, 's, 't, 'e) cas_call =
  call_scope :: resource_scope
  call_path :: scoped_path
  call_decode :: "'b list \<Rightarrow> 'e + 's"
  call_encode :: "'s \<Rightarrow> 'e + 'b entry"
  call_apply :: "'s option \<Rightarrow> 'e + ('s, 't) cas_apply"

definition cas_plan ::
  "mount_view_resolver \<Rightarrow> ('b, 's, 't, 'e) cas_call \<Rightarrow> 'b mem_fs
    \<Rightarrow> 'e cas_update_error + ('b, 't) cas_plan" where
  "cas_plan rv c fs =
     rbind (cas_read rv (call_decode c) (call_scope c) (call_path c) fs)
       (cas_plan_from (call_encode c) (call_apply c))"

fun cas_update_loop ::
  "mount_view_resolver \<Rightarrow> ('b, 's, 't, 'e) cas_call \<Rightarrow> instant
    \<Rightarrow> (nat \<Rightarrow> (resource_scope \<times> 'b fs_write) list) \<Rightarrow> nat option \<Rightarrow> nat \<Rightarrow> nat \<Rightarrow> 'b mem_fs
    \<Rightarrow> 'b mem_fs \<times> ('e cas_update_error + 't)" where
  "cas_update_loop rv c now others deadline 0 attempt fs = (fs, Err CasRetriesExhausted)"
| "cas_update_loop rv c now others deadline (Suc left) attempt fs =
     (if deadline = Some (2 * attempt) then (fs, Err CasTimeout)
      else
        (let fs1 = interfere rv (others (2 * attempt)) fs in
         case cas_plan rv c fs1 of
           Inl e \<Rightarrow> (fs1, Err e)
         | Inr (PlanReturn t) \<Rightarrow> (fs1, Ok t)
         | Inr (PlanWrite e cas t) \<Rightarrow>
             if deadline = Some (2 * attempt + 1) then (fs1, Err CasTimeout)
             else
               (let fs2 = interfere rv (others (2 * attempt + 1)) fs1;
                    (fs3, r) = scoped_put rv fs2 (call_scope c) (call_path c) e cas now
                in case r of
                     Inr _ \<Rightarrow> (fs3, Ok t)
                   | Inl (VersionMismatch _ _ _) \<Rightarrow>
                       cas_update_loop rv c now others deadline left (Suc attempt) fs3
                   | Inl (Unsupported q op) \<Rightarrow>
                       (fs3, Err (if op = WriteFile then CasUnsupported
                                  else CasBackend (Unsupported q op)))
                   | Inl err \<Rightarrow> (fs3, Err (CasBackend err)))))"

definition cas_update ::
  "mount_view_resolver \<Rightarrow> backend_capabilities \<Rightarrow> ('b, 's, 't, 'e) cas_call \<Rightarrow> instant
    \<Rightarrow> (nat \<Rightarrow> (resource_scope \<times> 'b fs_write) list) \<Rightarrow> nat option \<Rightarrow> 'b mem_fs
    \<Rightarrow> 'b mem_fs \<times> ('e cas_update_error + 't)" where
  "cas_update rv caps c now others deadline fs =
     (if capabilities_known caps \<and> \<not> capabilities_support_cas caps then (fs, Err CasUnsupported)
      else cas_update_loop rv c now others deadline FILESYSTEM_CAS_RETRIES 0 fs)"

text \<open>The specification: the same call with no other task running.\<close>

definition cas_atomic ::
  "mount_view_resolver \<Rightarrow> ('b, 's, 't, 'e) cas_call \<Rightarrow> instant \<Rightarrow> 'b mem_fs
    \<Rightarrow> 'b mem_fs \<times> ('e cas_update_error + 't)" where
  "cas_atomic rv c now fs =
     (case cas_plan rv c fs of
        Inl e \<Rightarrow> (fs, Err e)
      | Inr (PlanReturn t) \<Rightarrow> (fs, Ok t)
      | Inr (PlanWrite e cas t) \<Rightarrow>
          (let (fs', r) = scoped_put rv fs (call_scope c) (call_path c) e cas now
           in (fs', case r of Inr _ \<Rightarrow> Ok t | Inl err \<Rightarrow> Err (CasBackend err))))"

section \<open>Versions tell whether an entry changed\<close>

definition version_rank :: "'b mem_fs \<Rightarrow> virtual_path \<Rightarrow> nat" where
  "version_rank fs v = (case hget (entries fs) v of None \<Rightarrow> 0 | Some s \<Rightarrow> unat (st_version s))"

definition honest :: "virtual_path \<Rightarrow> nat \<Rightarrow> 'b mem_fs \<Rightarrow> 'b mem_fs \<Rightarrow> bool" where
  "honest v n fs fs' \<longleftrightarrow> version_rank fs v \<le> version_rank fs' v
     \<and> version_rank fs' v \<le> version_rank fs v + n
     \<and> (version_rank fs' v = version_rank fs v \<longrightarrow> hget (entries fs') v = hget (entries fs) v)"

fun is_delete :: "'b fs_write \<Rightarrow> bool" where
  "is_delete (SwDelete _) = True"
| "is_delete (SwDeleteIfVersion _ _) = True"
| "is_delete _ = False"

lemma honest_refl [simp]: "honest v n fs fs"
  by (simp add: honest_def)

lemma honest_trans:
  "honest v m fs fs1 \<Longrightarrow> honest v n fs1 fs2 \<Longrightarrow> honest v (m + n) fs fs2"
  unfolding honest_def by auto

lemma honest_same_entries: "hget (entries fs') v = hget (entries fs) v \<Longrightarrow> honest v n fs fs'"
  by (simp add: honest_def version_rank_def)

lemma unat_version_next:
  "unat v < 2 ^ 64 - 1 \<Longrightarrow> unat (version_next v) = unat v + 1"
  by (simp add: version_next_def word_nat)

lemma honest_store:
  assumes "version_rank fs v < 2 ^ 64 - 1"
    and "hget (entries fs') v = Some s"
    and "st_version s = next_version (map_option st_version (hget (entries fs) v))"
  shows "honest v (Suc 0) fs fs'"
  using assms
  by (auto simp: honest_def version_rank_def next_version_def unat_version_next
      split: option.splits)

lemma honest_hput:
  assumes "version_rank fs v < 2 ^ 64 - 1"
    and "st_version s = next_version (map_option st_version (hget (entries fs) w))"
  shows "honest v (Suc 0) fs (fs\<lparr>entries := hput w s (entries fs)\<rparr>)"
proof (cases "v = w")
  case True
  then show ?thesis using assms by (intro honest_store [of fs v _ s]) (simp_all add: hmap_simps)
next
  case False
  then show ?thesis by (intro honest_same_entries) (simp add: hmap_simps)
qed

lemma fs_put_honest:
  "version_rank fs v < 2 ^ 64 - 1 \<Longrightarrow> honest v (Suc 0) fs (fst (fs_put fs w e cas now))"
  by (auto simp: fs_put_def Let_def intro!: honest_hput split: sum.splits)

lemma fs_append_file_honest:
  "version_rank fs v < 2 ^ 64 - 1 \<Longrightarrow> honest v (Suc 0) fs (fst (fs_append_file fs w b now))"
  by (auto simp: fs_append_file_def Let_def intro!: honest_hput)

lemma fs_log_honest [simp]:
  "honest v n fs (fst (fs_append fs w x))" "honest v n fs (fst (fs_append_batch fs w xs))"
  "honest v n fs (fst (fs_reserve_sequence fs w))"
  by (auto simp: fs_append_def fs_append_batch_def fs_reserve_sequence_def Let_def split_def
      intro!: honest_same_entries)

lemma scoped_update_honest:
  "(\<And>w. honest v n fs (fst (f w))) \<Longrightarrow> honest v n fs (fst (scoped_update rv fs sc p op f))"
  by (auto simp: scoped_update_def split: sum.splits)

lemma scoped_write_honest:
  assumes "\<not> is_delete x" and "version_rank fs v < 2 ^ 64 - 1"
  shows "honest v (Suc 0) fs (fst (scoped_write rv sc fs x))"
  using assms fs_put_honest [OF assms(2)] fs_append_file_honest [OF assms(2)]
  by (cases x)
     (auto simp: scoped_put_def scoped_append_file_def scoped_append_def scoped_append_batch_def
       scoped_reserve_sequence_def split_def Let_def intro!: scoped_update_honest)

lemma interfere_honest:
  assumes "\<forall>(sc, w) \<in> set ws. \<not> is_delete w" and "version_rank fs v + length ws < 2 ^ 64"
  shows "honest v (length ws) fs (interfere rv ws fs)"
  using assms
proof (induction ws arbitrary: fs)
  case (Cons x ws)
  obtain sc w where x: "x = (sc, w)" by (cases x)
  let ?fs1 = "fst (scoped_write rv sc fs w)"
  have h: "honest v (Suc 0) fs ?fs1" using Cons.prems x by (intro scoped_write_honest) auto
  moreover have "honest v (length ws) ?fs1 (interfere rv ws ?fs1)"
    using Cons.prems h by (intro Cons.IH) (auto simp: honest_def)
  ultimately show ?case using honest_trans [OF h] x by (simp add: interfere_def)
qed (simp add: interfere_def)

lemma interfere_append: "interfere rv (xs @ ys) fs = interfere rv ys (interfere rv xs fs)"
  by (simp add: interfere_def)


section \<open>The loop is atomic\<close>

lemma resolve_same_path:
  "resolve_with_permission rv sc p op = Ok v \<Longrightarrow> resolve_with_permission rv sc p op' = Ok w \<Longrightarrow> v = w"
  by (auto simp: resolve_with_permission_def resolve_with_permission_view_def rbind_eq_Inr
      split: if_splits prod.splits)

lemma check_cas_Ok_versions:
  "check_cas p (case ver of Some v \<Rightarrow> CasVersion v | None \<Rightarrow> CasAbsent) cur = Ok () \<Longrightarrow> cur = ver"
  by (cases ver; cases cur) (auto split: if_splits)

lemma cas_plan_cong:
  assumes "resolve_with_permission rv (call_scope c) (call_path c) ReadFile = Ok v"
    and "hget (entries fs') v = hget (entries fs) v"
  shows "cas_plan rv c fs' = cas_plan rv c fs"
  using assms by (simp add: cas_plan_def cas_read_def scoped_get_def fs_get_def)

text \<open>A planned write carries the version the plan was read at.\<close>

lemma cas_plan_write:
  assumes "cas_plan rv c fs = Ok (PlanWrite e cas t)"
  obtains v where "resolve_with_permission rv (call_scope c) (call_path c) ReadFile = Ok v"
    and "cas = (case map_option st_version (hget (entries fs) v) of
            Some x \<Rightarrow> CasVersion x | None \<Rightarrow> CasAbsent)"
  using assms
  by (auto simp: cas_plan_def cas_plan_from_def cas_read_def scoped_get_def fs_get_def rbind_eq_Inr
      split: sum.splits option.splits if_splits prod.splits)

lemma put_Ok_unchanged:
  assumes plan: "cas_plan rv c fs1 = Ok (PlanWrite e cas t)"
    and put: "scoped_put rv fs2 (call_scope c) (call_path c) e cas now = (fs3, Ok ver)"
    and honest: "\<And>v. honest v n fs1 fs2"
  shows "cas_atomic rv c now fs2 = (fs3, Ok t)"
proof -
  obtain v where v: "resolve_with_permission rv (call_scope c) (call_path c) ReadFile = Ok v"
    and cas: "cas = (case map_option st_version (hget (entries fs1) v) of
            Some x \<Rightarrow> CasVersion x | None \<Rightarrow> CasAbsent)"
    using plan by (rule cas_plan_write)
  obtain w where w: "resolve_with_permission rv (call_scope c) (call_path c) WriteFile = Ok w"
    and p: "fs_put fs2 w e cas now = (fs3, Ok ver)"
    using put by (auto simp: scoped_put_def scoped_update_def split: sum.splits)
  have "w = v" using resolve_same_path [OF w v] .
  with p have "check_cas v cas (map_option st_version (hget (entries fs2) v)) = Ok ()"
    by (auto simp: fs_put_def Let_def split: if_splits sum.splits)
  then have "map_option st_version (hget (entries fs2) v) = map_option st_version (hget (entries fs1) v)"
    unfolding cas by (rule check_cas_Ok_versions)
  then have "version_rank fs2 v = version_rank fs1 v"
    by (auto simp: version_rank_def split: option.splits)
  with honest [of v] have "hget (entries fs2) v = hget (entries fs1) v" by (simp add: honest_def)
  from cas_plan_cong [OF v this] plan put show ?thesis by (simp add: cas_atomic_def)
qed

lemma put_Err_unchanged: "scoped_put rv fs sc p e cas now = (fs', Inl err) \<Longrightarrow> fs' = fs"
  by (auto simp: scoped_put_def scoped_update_def fs_put_def Let_def split: sum.splits if_splits)

definition gaps ::
  "(nat \<Rightarrow> (resource_scope \<times> 'b fs_write) list) \<Rightarrow> nat \<Rightarrow> nat \<Rightarrow> (resource_scope \<times> 'b fs_write) list" where
  "gaps others i j = concat (map others [i..<j])"

lemma gaps_step: "i \<le> j \<Longrightarrow> gaps others i (Suc j) = gaps others i j @ others j"
  by (simp add: gaps_def)

lemma gaps_Nil [simp]: "gaps others i i = []"
  by (simp add: gaps_def)

lemma gaps_join: "i \<le> j \<Longrightarrow> j \<le> k \<Longrightarrow> gaps others i k = gaps others i j @ gaps others j k"
  unfolding gaps_def using upt_add_eq_append [of i j "k - j"] by simp

lemma gaps_one: "gaps others i (Suc i) = others i" "gaps others i (Suc (Suc i)) = others i @ others (Suc i)"
  by (simp_all add: gaps_def)

lemma cas_loop_atomic:
  assumes "\<forall>k. \<forall>(sc, w) \<in> set (others k). \<not> is_delete w"
    and "\<forall>v. version_rank fs v + length (gaps others (2 * attempt) (2 * (attempt + left))) < 2 ^ 64"
    and "cas_update_loop rv c now others deadline left attempt fs = (fs', r)"
  shows "\<exists>m. 2 * attempt \<le> m \<and> m \<le> 2 * (attempt + left) \<and>
    (case r of
       Inl e \<Rightarrow> fs' = interfere rv (gaps others (2 * attempt) m) fs
     | Inr t \<Rightarrow> cas_atomic rv c now (interfere rv (gaps others (2 * attempt) m) fs) = (fs', Ok t))"
  using assms(2,3)
proof (induction left arbitrary: attempt fs)
  case 0
  then show ?case by (intro exI [of _ "2 * attempt"]) (auto simp: interfere_def)
next
  case (Suc left)
  let ?i = "2 * attempt"
  let ?fs1 = "interfere rv (others ?i) fs"
  let ?fs2 = "interfere rv (others (Suc ?i)) ?fs1"
  have g1: "interfere rv (gaps others ?i (Suc ?i)) fs = ?fs1"
    and g2: "interfere rv (gaps others ?i (Suc (Suc ?i))) fs = ?fs2"
    by (simp_all add: gaps_one interfere_append)
  have len: "length (gaps others ?i (2 * (attempt + Suc left))) =
      length (others ?i) + length (others (Suc ?i))
      + length (gaps others (2 * Suc attempt) (2 * (Suc attempt + left)))"
    using gaps_join [of ?i "2 * Suc attempt" "2 * (attempt + Suc left)" others]
    by (simp add: gaps_one)
  have b: "version_rank fs v + length (others ?i) + length (others (Suc ?i))
      + length (gaps others (2 * Suc attempt) (2 * (Suc attempt + left))) < 2 ^ 64" for v
    using Suc.prems(1) [rule_format, of v] unfolding len by simp
  have h1: "honest v (length (others ?i)) fs ?fs1" for v
    using b [of v] assms(1) by (intro interfere_honest) auto
  have h2: "honest v (length (others (Suc ?i))) ?fs1 ?fs2" for v
    using b [of v] h1 [of v] assms(1) by (intro interfere_honest) (auto simp: honest_def)
  have next_bound: "\<forall>v. version_rank ?fs2 v
      + length (gaps others (2 * Suc attempt) (2 * (Suc attempt + left))) < 2 ^ 64"
  proof
    fix v
    show "version_rank ?fs2 v
        + length (gaps others (2 * Suc attempt) (2 * (Suc attempt + left))) < 2 ^ 64"
      using b [of v] honest_trans [OF h1 h2, of v] unfolding honest_def by linarith
  qed
  show ?case
  proof (cases "deadline = Some ?i")
    case True
    then show ?thesis using Suc.prems(2) by (intro exI [of _ ?i]) (auto simp: interfere_def)
  next
    case no_deadline: False
    show ?thesis
    proof (cases "\<exists>e cas t. cas_plan rv c ?fs1 = Ok (PlanWrite e cas t) \<and> deadline \<noteq> Some (Suc ?i)")
      case False
      then show ?thesis
        using Suc.prems(2) no_deadline g1
        by (intro exI [of _ "Suc ?i"])
           (auto simp: cas_atomic_def Let_def split: sum.splits cas_plan.splits if_splits)
    next
      case True
      then obtain e cas t where plan: "cas_plan rv c ?fs1 = Ok (PlanWrite e cas t)"
        and d: "deadline \<noteq> Some (Suc ?i)" by blast
      obtain fs3 res where put: "scoped_put rv ?fs2 (call_scope c) (call_path c) e cas now = (fs3, res)"
        by fastforce
      have same: "fs3 = ?fs2" if "res = Inl err" for err
        using put that put_Err_unchanged by blast
      show ?thesis
      proof (cases "\<exists>a b c'. res = Inl (VersionMismatch a b c')")
        case True
        then have "cas_update_loop rv c now others deadline left (Suc attempt) ?fs2 = (fs', r)"
          using Suc.prems(2) no_deadline plan d put same by (auto simp: Let_def)
        from Suc.IH [OF next_bound this] obtain m where m: "2 * Suc attempt \<le> m"
            "m \<le> 2 * (Suc attempt + left)"
            "case r of Inl e \<Rightarrow> fs' = interfere rv (gaps others (2 * Suc attempt) m) ?fs2
              | Inr t \<Rightarrow> cas_atomic rv c now (interfere rv (gaps others (2 * Suc attempt) m) ?fs2) = (fs', Ok t)"
          by blast
        have "interfere rv (gaps others ?i m) fs = interfere rv (gaps others (2 * Suc attempt) m) ?fs2"
          using gaps_join [of ?i "2 * Suc attempt" m others] m(1) g2 by (simp add: interfere_append gaps_one)
        with m show ?thesis by (intro exI [of _ m]) (auto split: sum.splits)
      next
        case False
        then show ?thesis
          using Suc.prems(2) no_deadline plan d put same put_Ok_unchanged [OF plan _ h2] g2
          by (intro exI [of _ "Suc (Suc ?i)"])
             (auto simp: Let_def split: sum.splits filesystem_error.splits)
      qed
    qed
  qed
qed


lemma cas_update_atomic:
  assumes "\<forall>k. \<forall>(sc, w) \<in> set (others k). \<not> is_delete w"
    and "\<forall>v. version_rank fs v + length (gaps others 0 (2 * FILESYSTEM_CAS_RETRIES)) < 2 ^ 64"
    and "cas_update rv caps c now others deadline fs = (fs', r)"
  shows "\<exists>m \<le> 2 * FILESYSTEM_CAS_RETRIES.
    (case r of
       Inl e \<Rightarrow> fs' = interfere rv (gaps others 0 m) fs
     | Inr t \<Rightarrow> cas_atomic rv c now (interfere rv (gaps others 0 m) fs) = (fs', Ok t))"
proof (cases "capabilities_known caps \<and> \<not> capabilities_support_cas caps")
  case True
  then show ?thesis
    using assms(3) by (intro exI [of _ 0]) (auto simp: cas_update_def interfere_def)
next
  case False
  then have "cas_update_loop rv c now others deadline FILESYSTEM_CAS_RETRIES 0 fs = (fs', r)"
    using assms(3) by (auto simp: cas_update_def)
  from cas_loop_atomic [OF assms(1) _ this] assms(2) show ?thesis unfolding mult_0_right by auto
qed

text \<open>(C4) Linearizability of \<open>cas_update\<close>: whatever other tasks write between its awaits, a call that
  succeeds has the effect and the outcome of the same read-modify-write done atomically on the
  state that some prefix of those writes produced, and a call that fails, for whatever reason, left
  exactly the state such a prefix produced: no update is lost and no failed call leaves a trace.
  The others do not delete, and their number keeps versions from saturating.\<close>

theorem cas_update_linearizable:
  assumes "\<forall>k. \<forall>(sc, w) \<in> set (others k). \<not> is_delete w"
    and "\<forall>v. version_rank fs v + length (gaps others 0 (2 * FILESYSTEM_CAS_RETRIES)) < 2 ^ 64"
    and "cas_update rv caps c now others deadline fs = (fs', r)"
  shows "\<exists>m \<le> 2 * FILESYSTEM_CAS_RETRIES.
    (case r of
       Inl e \<Rightarrow> fs' = interfere rv (gaps others 0 m) fs
     | Inr t \<Rightarrow> cas_atomic rv c now (interfere rv (gaps others 0 m) fs) = (fs', Ok t))"
  using assms by (rule cas_update_atomic)

definition counter_call :: "(nat, nat, nat, unit) cas_call" where
  "counter_call =
     \<lparr>call_scope = named_scope ''acme'' ''ann'', call_path = ''/turns/n'',
      call_decode = (\<lambda>b. Ok (hd b)), call_encode = (\<lambda>n. Ok (entry_bytes [n])),
      call_apply = (\<lambda>cur. Ok (cas_apply_new (unwrap_or cur 0 + 1) (unwrap_or cur 0 + 1)))\<rparr>"

theorem cas_update_linearizable_witness:
  "let others = (\<lambda>k. if k = 1 then [(named_scope ''acme'' ''ann'',
         SwPut ''/turns/n'' (entry_bytes [41]) CasAny 1)] else []);
       (fs', r) = cas_update (invocation_mount_view False) capabilities_default counter_call 2
         others None fs_new
   in \<exists>m \<le> 2 * FILESYSTEM_CAS_RETRIES.
     (case r of
        Inl e \<Rightarrow> fs' = interfere (invocation_mount_view False) (gaps others 0 m) fs_new
      | Inr t \<Rightarrow> cas_atomic (invocation_mount_view False) counter_call 2
          (interfere (invocation_mount_view False) (gaps others 0 m) fs_new) = (fs', Ok t))"
proof -
  let ?others = "\<lambda>k. if k = (1::nat) then [(named_scope ''acme'' ''ann'',
         SwPut ''/turns/n'' (entry_bytes [41::nat]) CasAny 1)] else []"
  have "[0..<2 * FILESYSTEM_CAS_RETRIES] = [0, 1] @ [2..<64]"
    by (simp add: FILESYSTEM_CAS_RETRIES_def upt_rec)
  then have bound: "\<forall>v. version_rank fs_new v + length (gaps ?others 0 (2 * FILESYSTEM_CAS_RETRIES)) < 2 ^ 64"
    by (simp add: gaps_def version_rank_def fs_new_def)
  have keep: "\<forall>k. \<forall>(sc, w) \<in> set (?others k). \<not> is_delete w" by simp
  show ?thesis
    unfolding Let_def split_def
    by (rule cas_update_linearizable [OF keep bound prod.collapse [symmetric]])
qed

text \<open>Progress without contention: when no other task writes and no deadline strikes, the first
  attempt of \<open>cas_update\<close> commits whatever the atomic read-modify-write commits.\<close>

theorem cas_update_uncontended:
  assumes "cas_atomic rv c now fs = (fs', Ok t)"
    and "\<not> capabilities_known caps \<or> capabilities_support_cas caps"
  shows "cas_update rv caps c now (\<lambda>_. []) None fs = (fs', Ok t)"
proof -
  have "cas_update_loop rv c now (\<lambda>_. []) None (Suc n) 0 fs = (fs', Ok t)" for n
    using assms(1)
    by (auto simp: cas_atomic_def interfere_def Let_def
        split: sum.splits cas_plan.splits prod.splits)
  from this [of 31] show ?thesis
    using assms(2) by (auto simp: cas_update_def FILESYSTEM_CAS_RETRIES_def simp del: cas_update_loop.simps)
qed


lemma counter_put:
  "cas_atomic (invocation_mount_view False) counter_call 2 fs_new =
     (fs_new\<lparr>entries := [(''/tenants/acme/users/ann/turns/n'',
        \<lparr>st_entry = entry_bytes [1], st_version = 1, st_modified = 2\<rparr>)]\<rparr>, Ok 1)"
proof -
  have ids: "scope_id_new ''tenant'' ''acme'' = Ok ''acme''" "scope_id_new ''user'' ''ann'' = Ok ''ann''"
    by (simp_all add: scope_id_eval)
  have r: "resolve_with_permission (invocation_mount_view False) (named_scope ''acme'' ''ann'')
      ''/turns/n'' op = (if operation_allowed permissions_read_write_list_delete op
        then Ok ''/tenants/acme/users/ann/turns/n'' else Err (PermissionDenied ''/turns/n'' op))" for op
    using named_scope_proper [OF ids]
    by (simp add: resolve_with_permission_def invocation_mount_view_Ok
        resolve_with_permission_view_def contract_def grant_specs_def PER_USER_ALIASES_def
        spec_grant_def path_eval named_scope_def resource_scope_path_segment_def
        SYSTEM_RESERVED_ID_def)
  show ?thesis
    by (simp add: cas_atomic_def cas_plan_def cas_read_def cas_plan_from_def counter_call_def
        scoped_get_def scoped_put_def scoped_update_def r operation_allowed_def
        permissions_read_write_list_delete_def fs_get_def fs_put_def fs_new_def has_children_def
        next_version_def apply_error_def cas_apply_new_def)
qed

theorem cas_update_uncontended_witness:
  "snd (cas_update (invocation_mount_view False) capabilities_default counter_call 2 (\<lambda>_. []) None
     fs_new) = Ok 1"
  using cas_update_uncontended [OF counter_put] by (simp add: capabilities_known_def)

end
