(* ===== verification/Run_State_Fs.thy ===== *)
theory Run_State_Fs
  imports Run_State Cas_Update
begin

text \<open>
  The filesystem-backed run-state and approval stores (\<open>ironclaw_run_state/src/lib.rs\<close>:
  \<open>FilesystemRunStateStore\<close>, \<open>FilesystemApprovalRequestStore\<close>) over the compare-and-swap helper. JSON
  encoding (\<open>serde_json\<close>) and the text of a UUID (\<open>uuid\<close>) are parameters, collected in a record;
  the environment of a call (resolver, backend capabilities, clock, the writes of other tasks and
  the deadline) is another record.
\<close>

section \<open>Parameters\<close>

record ('b, 'd) store_codec =
  uuid_text :: "uuid \<Rightarrow> string"
  run_ser :: "run_record \<Rightarrow> run_state_error + 'b list"
  run_deser :: "'b list \<Rightarrow> run_state_error + run_record"
  apr_ser :: "'d approval_record \<Rightarrow> run_state_error + 'b list"
  apr_deser :: "'b list \<Rightarrow> run_state_error + 'd approval_record"

record 'b cas_env =
  env_resolver :: mount_view_resolver
  env_caps :: backend_capabilities
  env_now :: instant
  env_others :: "nat \<Rightarrow> (resource_scope \<times> 'b fs_write) list"
  env_deadline :: "nat option"

section \<open>Paths\<close>

definition RUN_STATE_PREFIX :: string where
  "RUN_STATE_PREFIX = ''/run-state''"

definition APPROVALS_PREFIX :: string where
  "APPROVALS_PREFIX = ''/approvals''"

definition push_axis :: "string \<Rightarrow> string option \<Rightarrow> string" where
  "push_axis key v = (case v of None \<Rightarrow> [] | Some x \<Rightarrow> key @ x)"

definition scope_owner_alias_string :: "string \<Rightarrow> resource_scope \<Rightarrow> string" where
  "scope_owner_alias_string prefix sc =
     prefix @ push_axis ''/agents/'' (agent_id sc) @ push_axis ''/projects/'' (project_id sc)
       @ push_axis ''/missions/'' (mission_id sc) @ push_axis ''/threads/'' (thread_id sc)"

definition rs_scoped_path :: "string \<Rightarrow> run_state_error + scoped_path" where
  "rs_scoped_path raw =
     (case scoped_path_new raw of Inl e \<Rightarrow> Err (RsInvalidPath e) | Inr p \<Rightarrow> Ok p)"

definition join_scoped :: "scoped_path \<Rightarrow> string \<Rightarrow> run_state_error + scoped_path" where
  "join_scoped prefix leaf = rs_scoped_path (trim_end_char (CHR ''/'') prefix @ ''/'' @ leaf)"

definition run_records_root_string :: "resource_scope \<Rightarrow> string" where
  "run_records_root_string sc = scope_owner_alias_string RUN_STATE_PREFIX sc @ ''/runs''"

definition run_records_root :: "resource_scope \<Rightarrow> run_state_error + scoped_path" where
  "run_records_root sc = rs_scoped_path (run_records_root_string sc)"

definition run_record_path ::
  "(uuid \<Rightarrow> string) \<Rightarrow> resource_scope \<Rightarrow> invocation_id \<Rightarrow> run_state_error + scoped_path" where
  "run_record_path ut sc i = rs_scoped_path (run_records_root_string sc @ ''/'' @ ut i @ ''.json'')"

definition approval_records_root_string :: "resource_scope \<Rightarrow> string" where
  "approval_records_root_string sc = scope_owner_alias_string APPROVALS_PREFIX sc"

definition approval_records_root :: "resource_scope \<Rightarrow> run_state_error + scoped_path" where
  "approval_records_root sc = rs_scoped_path (approval_records_root_string sc)"

definition approval_record_path ::
  "(uuid \<Rightarrow> string) \<Rightarrow> resource_scope \<Rightarrow> approval_request_id \<Rightarrow> run_state_error + scoped_path" where
  "approval_record_path ut sc i =
     rs_scoped_path (approval_records_root_string sc @ ''/'' @ ut i @ ''.json'')"

section \<open>Calls of the helper\<close>

definition json_entry :: "string \<Rightarrow> 'b list \<Rightarrow> 'b entry" where
  "json_entry kind b =
     (entry_bytes b)\<lparr>content_type := ''application/json'', entry_kind := Some kind\<rparr>"

definition run_record_entry ::
  "('b, 'd) store_codec \<Rightarrow> run_record \<Rightarrow> run_state_error + 'b entry" where
  "run_record_entry cd r = rbind (run_ser cd r) (\<lambda>b. Ok (json_entry ''run_state_record'' b))"

definition approval_record_entry ::
  "('b, 'd) store_codec \<Rightarrow> 'd approval_record \<Rightarrow> run_state_error + 'b entry" where
  "approval_record_entry cd r = rbind (apr_ser cd r) (\<lambda>b. Ok (json_entry ''approval_record'' b))"

definition map_cas_error :: "run_state_error cas_update_error \<Rightarrow> run_state_error" where
  "map_cas_error e =
     (case e of
        CasApplyError inner \<Rightarrow> inner
      | CasTimeout \<Rightarrow> RsBackend ''filesystem CAS retries exhausted''
      | CasRetriesExhausted \<Rightarrow> RsBackend ''filesystem CAS retries exhausted''
      | CasUnsupported \<Rightarrow> RsBackend ''backend does not support versioned compare-and-swap''
      | CasBackend err \<Rightarrow> RsFilesystem err)"

definition store_update ::
  "'b cas_env \<Rightarrow> run_state_error + scoped_path \<Rightarrow> (scoped_path \<Rightarrow> ('b, 's, 't, run_state_error) cas_call)
    \<Rightarrow> 'b mem_fs \<Rightarrow> 'b mem_fs \<times> (run_state_error + 't)" where
  "store_update env path call fs =
     (case path of
        Inl e \<Rightarrow> (fs, Err e)
      | Inr p \<Rightarrow>
          (let (fs', r) = cas_update (env_resolver env) (env_caps env) (call p) (env_now env)
                 (env_others env) (env_deadline env) fs
           in (fs', case r of Inl e \<Rightarrow> Err (map_cas_error e) | Inr t \<Rightarrow> Ok t)))"

definition run_call ::
  "('b, 'd) store_codec \<Rightarrow> resource_scope
    \<Rightarrow> (run_record option \<Rightarrow> run_state_error + (run_record, run_record) cas_apply)
    \<Rightarrow> scoped_path \<Rightarrow> ('b, run_record, run_record, run_state_error) cas_call" where
  "run_call cd sc app p =
     \<lparr>call_scope = sc, call_path = p, call_decode = run_deser cd,
      call_encode = run_record_entry cd, call_apply = app\<rparr>"

definition approval_call ::
  "('b, 'd) store_codec \<Rightarrow> resource_scope
    \<Rightarrow> ('d approval_record option \<Rightarrow> run_state_error + ('d approval_record, 'd approval_record) cas_apply)
    \<Rightarrow> scoped_path \<Rightarrow> ('b, 'd approval_record, 'd approval_record, run_state_error) cas_call" where
  "approval_call cd sc app p =
     \<lparr>call_scope = sc, call_path = p, call_decode = apr_deser cd,
      call_encode = approval_record_entry cd, call_apply = app\<rparr>"

section \<open>The filesystem run-state store\<close>

definition apply_start :: "run_record \<Rightarrow> run_record option \<Rightarrow> run_state_error + (run_record, run_record) cas_apply"
where
  "apply_start record current =
     (if current \<noteq> None then Err (InvocationAlreadyExists (run_invocation_id record))
      else Ok (cas_apply_new record record))"

definition apply_run_update ::
  "resource_scope \<Rightarrow> invocation_id \<Rightarrow> (run_record \<Rightarrow> run_record) \<Rightarrow> run_record option
    \<Rightarrow> run_state_error + (run_record, run_record) cas_apply" where
  "apply_run_update sc i f current =
     (case current of
        None \<Rightarrow> Err (UnknownInvocation i)
      | Some r \<Rightarrow>
          if \<not> same_scope_owner (run_scope r) sc then Err (UnknownInvocation i)
          else Ok (cas_apply_new (f r) (f r)))"

definition frs_start where
  "frs_start cd env fs s =
     (let record = new_run_record s
      in store_update env (run_record_path (uuid_text cd) (start_scope s) (start_invocation_id s))
           (run_call cd (run_scope record) (apply_start record)) fs)"

definition frs_apply_update where
  "frs_apply_update cd env fs sc i f =
     store_update env (run_record_path (uuid_text cd) sc i)
       (run_call cd sc (apply_run_update sc i f)) fs"

definition frs_block_approval where
  "frs_block_approval cd env fs sc i a = frs_apply_update cd env fs sc i (mark_blocked_approval a)"

definition frs_block_auth where
  "frs_block_auth cd env fs sc i e = frs_apply_update cd env fs sc i (mark_blocked_auth e)"

definition frs_complete where
  "frs_complete cd env fs sc i = frs_apply_update cd env fs sc i mark_completed"

definition frs_fail where
  "frs_fail cd env fs sc i e = frs_apply_update cd env fs sc i (mark_failed e)"

definition fs_result :: "filesystem_error + 'a \<Rightarrow> run_state_error + 'a" where
  "fs_result r = (case r of Inl e \<Rightarrow> Err (RsFilesystem e) | Inr v \<Rightarrow> Ok v)"

definition frs_get ::
  "('b, 'd) store_codec \<Rightarrow> mount_view_resolver \<Rightarrow> 'b mem_fs \<Rightarrow> resource_scope \<Rightarrow> invocation_id
    \<Rightarrow> run_state_error + run_record option" where
  "frs_get cd rv fs sc i =
     rbind (run_record_path (uuid_text cd) sc i) (\<lambda>p.
     rbind (fs_result (scoped_get rv fs sc p)) (\<lambda>got.
       case got of
         None \<Rightarrow> Ok None
       | Some ve \<Rightarrow>
           rbind (run_deser cd (body (ve_entry ve))) (\<lambda>r.
             Ok (if same_scope_owner (run_scope r) sc then Some r else None))))"

definition ends_with :: "string \<Rightarrow> string \<Rightarrow> bool" where
  "ends_with suffix s = starts_with (rev suffix) (rev s)"

fun load_records ::
  "mount_view_resolver \<Rightarrow> 'b mem_fs \<Rightarrow> resource_scope \<Rightarrow> ('b list \<Rightarrow> run_state_error + 'r)
    \<Rightarrow> ('r \<Rightarrow> bool) \<Rightarrow> scoped_path \<Rightarrow> dir_entry list \<Rightarrow> run_state_error + 'r list" where
  "load_records rv fs sc deser keep root [] = Ok []"
| "load_records rv fs sc deser keep root (e # es) =
     (if \<not> ends_with ''.json'' (de_name e) then load_records rv fs sc deser keep root es
      else
        rbind (join_scoped root (de_name e)) (\<lambda>child.
        rbind (fs_result (scoped_get rv fs sc child)) (\<lambda>got.
          case got of
            None \<Rightarrow> load_records rv fs sc deser keep root es
          | Some ve \<Rightarrow>
              rbind (deser (body (ve_entry ve))) (\<lambda>r.
              rbind (load_records rv fs sc deser keep root es) (\<lambda>rs.
                Ok (if keep r then r # rs else rs))))))"

definition list_records ::
  "mount_view_resolver \<Rightarrow> 'b mem_fs \<Rightarrow> resource_scope \<Rightarrow> ('b list \<Rightarrow> run_state_error + 'r)
    \<Rightarrow> ('r \<Rightarrow> bool) \<Rightarrow> run_state_error + scoped_path \<Rightarrow> run_state_error + 'r list" where
  "list_records rv fs sc deser keep root =
     rbind root (\<lambda>rt.
       case scoped_list_dir rv fs sc rt of
         Inl (NotFound _ _) \<Rightarrow> Ok []
       | Inl e \<Rightarrow> Err (RsFilesystem e)
       | Inr es \<Rightarrow> load_records rv fs sc deser keep rt es)"

definition frs_records_for_scope ::
  "('b, 'd) store_codec \<Rightarrow> mount_view_resolver \<Rightarrow> 'b mem_fs \<Rightarrow> resource_scope
    \<Rightarrow> run_state_error + run_record list" where
  "frs_records_for_scope cd rv fs sc =
     rbind (list_records rv fs sc (run_deser cd) (\<lambda>r. same_scope_owner (run_scope r) sc)
              (run_records_root sc))
       (\<lambda>rs. Ok (sort_key run_invocation_id rs))"

section \<open>The filesystem approval store\<close>

definition apply_save ::
  "'d approval_record \<Rightarrow> 'd approval_record option
    \<Rightarrow> run_state_error + ('d approval_record, 'd approval_record) cas_apply" where
  "apply_save record current =
     (if current \<noteq> None then Err (ApprovalRequestAlreadyExists (req_id (apr_request record)))
      else Ok (cas_apply_new record record))"

definition apply_pending ::
  "resource_scope \<Rightarrow> approval_request_id
    \<Rightarrow> ('d approval_record \<Rightarrow> ('d approval_record, 'd approval_record) cas_apply)
    \<Rightarrow> 'd approval_record option \<Rightarrow> run_state_error + ('d approval_record, 'd approval_record) cas_apply"
where
  "apply_pending sc i f current =
     (case current of
        None \<Rightarrow> Err (UnknownApprovalRequest i)
      | Some r \<Rightarrow>
          if \<not> same_scope_owner (apr_scope r) sc then Err (UnknownApprovalRequest i)
          else if apr_status r \<noteq> ApPending then Err (ApprovalNotPending i (apr_status r))
          else Ok (f r))"

definition fap_save_pending where
  "fap_save_pending cd env fs sc req =
     store_update env (approval_record_path (uuid_text cd) sc (req_id req))
       (approval_call cd sc
         (apply_save \<lparr>apr_scope = sc, apr_request = req, apr_status = ApPending\<rparr>)) fs"

definition fap_update_status where
  "fap_update_status cd env fs sc i st =
     store_update env (approval_record_path (uuid_text cd) sc i)
       (approval_call cd sc
         (apply_pending sc i (\<lambda>r. cas_apply_new (r\<lparr>apr_status := st\<rparr>) (r\<lparr>apr_status := st\<rparr>)))) fs"

definition fap_approve where
  "fap_approve cd env fs sc i = fap_update_status cd env fs sc i ApApproved"

definition fap_deny where
  "fap_deny cd env fs sc i = fap_update_status cd env fs sc i ApDenied"

definition fap_discard_pending where
  "fap_discard_pending cd env fs sc i =
     store_update env (approval_record_path (uuid_text cd) sc i)
       (approval_call cd sc
         (apply_pending sc i (\<lambda>r. cas_apply_new (r\<lparr>apr_status := ApDiscarded\<rparr>) r))) fs"

definition fap_get ::
  "('b, 'd) store_codec \<Rightarrow> mount_view_resolver \<Rightarrow> 'b mem_fs \<Rightarrow> resource_scope \<Rightarrow> approval_request_id
    \<Rightarrow> run_state_error + 'd approval_record option" where
  "fap_get cd rv fs sc i =
     rbind (approval_record_path (uuid_text cd) sc i) (\<lambda>p.
     rbind (fs_result (scoped_get rv fs sc p)) (\<lambda>got.
       case got of
         None \<Rightarrow> Ok None
       | Some ve \<Rightarrow>
           rbind (apr_deser cd (body (ve_entry ve))) (\<lambda>r.
             Ok (if same_scope_owner (apr_scope r) sc \<and> apr_status r \<noteq> ApDiscarded
                 then Some r else None))))"

definition fap_records_for_scope ::
  "('b, 'd) store_codec \<Rightarrow> mount_view_resolver \<Rightarrow> 'b mem_fs \<Rightarrow> resource_scope
    \<Rightarrow> run_state_error + 'd approval_record list" where
  "fap_records_for_scope cd rv fs sc =
     rbind (list_records rv fs sc (apr_deser cd)
              (\<lambda>r. same_scope_owner (apr_scope r) sc \<and> apr_status r \<noteq> ApDiscarded)
              (approval_records_root sc))
       (\<lambda>rs. Ok (sort_key (\<lambda>r. req_id (apr_request r)) rs))"

section \<open>Record paths\<close>

lemma split_on_append: "split_on c (x @ c # y) = split_on c x @ split_on c y"
proof (induction x)
  case (Cons a x)
  obtain p ps where "split_on c x = p # ps" by (cases "split_on c x") auto
  with Cons show ?case by auto
qed simp

lemma canonical_no_url:
  assumes "canonical s"
  shows "\<not> looks_like_url s"
proof
  assume "looks_like_url s"
  then obtain u v where s: "s = u @ ''://'' @ v"
    unfolding looks_like_url_def contains_str_iff by blast
  have "segments s = split_on (CHR ''/'') (tl (u @ '':'') @ CHR ''/'' # CHR ''/'' # v)"
    using s by (cases u) (auto simp: segments_def)
  then have "[] \<in> set (segments s)" by (simp add: split_on_append)
  then show False
    using canonical_segments [OF assms] by (auto simp: list_all_iff proper_segment_def)
qed

definition axis_segments :: "string \<Rightarrow> string option \<Rightarrow> string list" where
  "axis_segments key v = (case v of None \<Rightarrow> [] | Some x \<Rightarrow> [key, x])"

definition owner_segments :: "resource_scope \<Rightarrow> string list" where
  "owner_segments sc =
     axis_segments ''agents'' (agent_id sc) @ axis_segments ''projects'' (project_id sc)
       @ axis_segments ''missions'' (mission_id sc) @ axis_segments ''threads'' (thread_id sc)"

definition proper_owner :: "resource_scope \<Rightarrow> bool" where
  "proper_owner sc \<longleftrightarrow> list_all (\<lambda>v. case v of None \<Rightarrow> True | Some x \<Rightarrow> proper_segment x)
     [agent_id sc, project_id sc, mission_id sc, thread_id sc]"

lemma path_of_axis:
  "ps \<noteq> [] \<Longrightarrow> path_of ps @ push_axis (CHR ''/'' # key @ ''/'') v = path_of (ps @ axis_segments key v)"
  by (cases v) (simp_all add: push_axis_def axis_segments_def path_of_def join_with_append)

lemma scope_owner_path:
  "scope_owner_alias_string (path_of [p]) sc = path_of (p # owner_segments sc)"
  using path_of_axis [of "[p]" "''agents''" "agent_id sc"]
    path_of_axis [of "p # axis_segments ''agents'' (agent_id sc)" "''projects''" "project_id sc"]
    path_of_axis [of "p # axis_segments ''agents'' (agent_id sc)
      @ axis_segments ''projects'' (project_id sc)" "''missions''" "mission_id sc"]
    path_of_axis [of "p # axis_segments ''agents'' (agent_id sc)
      @ axis_segments ''projects'' (project_id sc) @ axis_segments ''missions'' (mission_id sc)"
      "''threads''" "thread_id sc"]
  by (simp add: scope_owner_alias_string_def owner_segments_def flip: append_assoc)

lemma owner_segments_proper: "proper_owner sc \<Longrightarrow> list_all proper_segment (owner_segments sc)"
  by (auto simp: owner_segments_def axis_segments_def proper_owner_def proper_segment_def
      control_head_def byte_def split: option.splits)

text \<open>What the stores use of the text of a UUID: hexadecimal digits and hyphens, different for
  different identifiers.\<close>

definition uuid_text_ok :: "(uuid \<Rightarrow> string) \<Rightarrow> bool" where
  "uuid_text_ok ut \<longleftrightarrow> inj ut
     \<and> (\<forall>i. ut i \<noteq> [] \<and> set (ut i) \<subseteq> set ''0123456789abcdef-'')"

lemma hex_no_control: "set s \<subseteq> set ''0123456789abcdef-'' \<Longrightarrow> \<not> any_control (s @ ''.json'')"
  by (induction s) (auto simp: control_head_def byte_def)

lemma uuid_file_proper:
  assumes "uuid_text_ok ut"
  shows "proper_segment (ut i @ ''.json'')"
proof -
  have h: "set (ut i) \<subseteq> set ''0123456789abcdef-''" using assms by (simp add: uuid_text_ok_def)
  then show ?thesis
    using hex_no_control [OF h] by (auto simp: proper_segment_def append_eq_Cons_conv)
qed


lemma store_path_ok:
  assumes "canonical (path_of (p # ps))" and "p = ''run-state'' \<or> p = ''approvals''"
  shows "rs_scoped_path (path_of (p # ps)) = Ok (path_of (p # ps))"
proof -
  have "\<not> looks_like_windows_path (path_of (p # ps))"
    "\<not> list_ex (\<lambda>prefix. starts_with prefix (path_of (p # ps))) RAW_HOST_PREFIXES"
    using assms(2)
    by (cases ps; auto simp: looks_like_windows_path_def path_of_def RAW_HOST_PREFIXES_def
        starts_with_def)+
  then show ?thesis
    using canonical_no_url [OF assms(1)] normalize_canonical [OF assms(1)]
    by (simp add: rs_scoped_path_def scoped_path_new_def new_with_allowed_raw_host_aliases_def)
qed

lemma record_path_segments:
  assumes "uuid_text_ok ut" and "proper_owner sc"
  shows "run_record_path ut sc i =
      Ok (path_of (''run-state'' # owner_segments sc @ [''runs'', ut i @ ''.json'']))"
    and "approval_record_path ut sc i =
      Ok (path_of (''approvals'' # owner_segments sc @ [ut i @ ''.json'']))"
    and "canonical (path_of (''run-state'' # owner_segments sc @ [''runs'', ut i @ ''.json'']))"
    and "canonical (path_of (''approvals'' # owner_segments sc @ [ut i @ ''.json'']))"
proof -
  have seg: "proper_segment ''run-state''" "proper_segment ''approvals''" "proper_segment ''runs''"
    by (simp_all add: proper_segment_def control_head_def byte_def)
  show r: "canonical (path_of (''run-state'' # owner_segments sc @ [''runs'', ut i @ ''.json'']))"
    by (rule canonical_segs [OF _ _ refl])
       (simp_all add: seg owner_segments_proper [OF assms(2)] uuid_file_proper [OF assms(1)])
  show a: "canonical (path_of (''approvals'' # owner_segments sc @ [ut i @ ''.json'']))"
    by (rule canonical_segs [OF _ _ refl])
       (simp_all add: seg owner_segments_proper [OF assms(2)] uuid_file_proper [OF assms(1)])
  have pre: "RUN_STATE_PREFIX = path_of [''run-state'']" "APPROVALS_PREFIX = path_of [''approvals'']"
    by (simp_all add: RUN_STATE_PREFIX_def APPROVALS_PREFIX_def path_of_def)
  have run: "run_records_root_string sc @ ''/'' @ ut i @ ''.json''
      = path_of (''run-state'' # owner_segments sc @ [''runs'', ut i @ ''.json''])"
    unfolding run_records_root_string_def pre scope_owner_path
    using path_of_append [of "''run-state'' # owner_segments sc" "[''runs'', ut i @ ''.json'']"]
    by (simp add: path_of_def)
  have apr: "approval_records_root_string sc @ ''/'' @ ut i @ ''.json''
      = path_of (''approvals'' # owner_segments sc @ [ut i @ ''.json''])"
    unfolding approval_records_root_string_def pre scope_owner_path
    using path_of_append [of "''approvals'' # owner_segments sc" "[ut i @ ''.json'']"]
    by (simp add: path_of_def)
  show "run_record_path ut sc i =
      Ok (path_of (''run-state'' # owner_segments sc @ [''runs'', ut i @ ''.json'']))"
    unfolding run_record_path_def run using store_path_ok [OF r] by simp
  show "approval_record_path ut sc i =
      Ok (path_of (''approvals'' # owner_segments sc @ [ut i @ ''.json'']))"
    unfolding approval_record_path_def apr using store_path_ok [OF a] by simp
qed

lemma axis_split:
  assumes "axis_segments k v @ t = axis_segments k v' @ t'" and "t \<noteq> []" and "t' \<noteq> []"
    and "hd t \<noteq> k" and "hd t' \<noteq> k"
  shows "v = v' \<and> t = t'"
  using assms by (cases v; cases v'; cases t; cases t') (auto simp: axis_segments_def)

lemma axis_hd: "hd (axis_segments k v @ t) = k \<or> hd (axis_segments k v @ t) = hd t"
  by (cases v) (simp_all add: axis_segments_def)

lemma owner_segments_inj:
  assumes "owner_segments sc @ t = owner_segments sc' @ t'" and "t \<noteq> []" and "t' \<noteq> []"
    and h: "hd t \<notin> {''agents'', ''projects'', ''missions'', ''threads''}"
    and h': "hd t' \<notin> {''agents'', ''projects'', ''missions'', ''threads''}"
  shows "agent_id sc = agent_id sc' \<and> project_id sc = project_id sc' \<and> mission_id sc = mission_id sc'
    \<and> thread_id sc = thread_id sc' \<and> t = t'"
proof -
  let ?t3 = "\<lambda>sc t. axis_segments ''threads'' (thread_id sc) @ t"
  let ?t2 = "\<lambda>sc t. axis_segments ''missions'' (mission_id sc) @ ?t3 sc t"
  let ?t1 = "\<lambda>sc t. axis_segments ''projects'' (project_id sc) @ ?t2 sc t"
  have hd3: "hd (?t3 sc t) \<in> {''threads'', hd t}" for sc t
    using axis_hd [of "''threads''"] by blast
  have hd2: "hd (?t2 sc t) \<in> {''missions'', ''threads'', hd t}" for sc t
    using axis_hd [of "''missions''" _ "?t3 sc t"] hd3 [of sc t] by (metis insert_iff)
  have hd1: "hd (?t1 sc t) \<in> {''projects'', ''missions'', ''threads'', hd t}" for sc t
    using axis_hd [of "''projects''" _ "?t2 sc t"] hd2 [of sc t] by (metis insert_iff)
  have ne: "?t3 sc t \<noteq> []" "?t2 sc t \<noteq> []" "?t1 sc t \<noteq> []" "?t3 sc' t' \<noteq> []" "?t2 sc' t' \<noteq> []"
      "?t1 sc' t' \<noteq> []"
    using assms(2,3) by simp_all
  have e1: "agent_id sc = agent_id sc' \<and> ?t1 sc t = ?t1 sc' t'"
    using assms(1) ne hd1 [of sc t] hd1 [of sc' t'] h h'
    by (intro axis_split [of "''agents''"]) (auto simp: owner_segments_def)
  then have e2: "project_id sc = project_id sc' \<and> ?t2 sc t = ?t2 sc' t'"
    using ne hd2 [of sc t] hd2 [of sc' t'] h h' by (intro axis_split [of "''projects''"]) auto
  then have e3: "mission_id sc = mission_id sc' \<and> ?t3 sc t = ?t3 sc' t'"
    using ne hd3 [of sc t] hd3 [of sc' t'] h h' by (intro axis_split [of "''missions''"]) auto
  then have "thread_id sc = thread_id sc' \<and> t = t'"
    using assms(2,3) h h' by (intro axis_split [of "''threads''"]) auto
  with e1 e2 e3 show ?thesis by blast
qed

lemma uuid_file_not_keyword:
  "''agents'' \<noteq> x @ ''.json''" "''projects'' \<noteq> x @ ''.json''" "''missions'' \<noteq> x @ ''.json''"
  "''threads'' \<noteq> x @ ''.json''"
  by (auto simp: append_eq_Cons_conv Cons_eq_append_conv)

lemma path_of_eqD:
  assumes "path_of ps = path_of qs" and "ps \<noteq> []" and "qs \<noteq> []"
    and "list_all proper_segment ps" and "list_all proper_segment qs"
  shows "ps = qs"
  using segments_path_of assms by metis

text \<open>Paths of records: for a scope with valid sub-scope identifiers, the stores' record paths are
  always valid scoped paths, and two records share a path only if they have the same identifier
  and their scopes agree on agent, project, mission and thread.\<close>

theorem record_paths_injective:
  assumes "uuid_text_ok ut" and "proper_owner sc" and "proper_owner sc'"
  shows "is_ok (run_record_path ut sc i) \<and> is_ok (approval_record_path ut sc i)
    \<and> (run_record_path ut sc i = run_record_path ut sc' j
       \<or> approval_record_path ut sc i = approval_record_path ut sc' j \<longrightarrow>
         i = j \<and> agent_id sc = agent_id sc' \<and> project_id sc = project_id sc'
         \<and> mission_id sc = mission_id sc' \<and> thread_id sc = thread_id sc')"
proof -
  note p = record_path_segments [OF assms(1,2), of i] and p' = record_path_segments [OF assms(1,3), of j]
  have inj: "ut i = ut j \<Longrightarrow> i = j" using assms(1) by (auto simp: uuid_text_ok_def dest: injD)
  have seg: "proper_segment ''run-state''" "proper_segment ''approvals''" "proper_segment ''runs''"
    by (simp_all add: proper_segment_def control_head_def byte_def)
  note own = owner_segments_proper [OF assms(2)] owner_segments_proper [OF assms(3)]
    uuid_file_proper [OF assms(1)]
  have "i = j \<and> agent_id sc = agent_id sc' \<and> project_id sc = project_id sc'
      \<and> mission_id sc = mission_id sc' \<and> thread_id sc = thread_id sc'"
    if eq: "run_record_path ut sc i = run_record_path ut sc' j"
  proof -
    have "owner_segments sc @ [''runs'', ut i @ ''.json'']
        = owner_segments sc' @ [''runs'', ut j @ ''.json'']"
      using path_of_eqD [OF sum.inject(2) [THEN iffD1, OF eq [unfolded p p']]] own seg by simp
    from owner_segments_inj [OF this] inj show ?thesis by simp
  qed
  moreover have "i = j \<and> agent_id sc = agent_id sc' \<and> project_id sc = project_id sc'
      \<and> mission_id sc = mission_id sc' \<and> thread_id sc = thread_id sc'"
    if eq: "approval_record_path ut sc i = approval_record_path ut sc' j"
  proof -
    have "owner_segments sc @ [ut i @ ''.json''] = owner_segments sc' @ [ut j @ ''.json'']"
      using path_of_eqD [OF sum.inject(2) [THEN iffD1, OF eq [unfolded p p']]] own seg by simp
    from owner_segments_inj [OF this] inj show ?thesis
      by (simp add: uuid_file_not_keyword [symmetric])
  qed
  ultimately show ?thesis using p(1,2) by simp
qed


definition zeros_text :: "uuid \<Rightarrow> string" where
  "zeros_text i = replicate (Suc i) (CHR ''0'')"

lemma zeros_text_ok: "uuid_text_ok zeros_text"
  by (auto simp: uuid_text_ok_def zeros_text_def inj_def)

theorem record_paths_injective_witness:
  "let sc = system_scope 1; sc' = sc\<lparr>agent_id := Some ''a''\<rparr>
   in is_ok (run_record_path zeros_text sc' 2)
     \<and> run_record_path zeros_text sc' 2 \<noteq> run_record_path zeros_text sc 2
     \<and> run_record_path zeros_text sc' 2 \<noteq> run_record_path zeros_text sc' 3"
proof -
  let ?sc = "system_scope 1" and ?sc' = "(system_scope 1)\<lparr>agent_id := Some ''a''\<rparr>"
  have p: "proper_owner ?sc" "proper_owner ?sc'"
    by (simp_all add: proper_owner_def system_scope_def proper_segment_def control_head_def byte_def)
  have "agent_id ?sc = None" by (simp add: system_scope_def)
  with record_paths_injective [OF zeros_text_ok p(2) p(1), of 2 2]
    record_paths_injective [OF zeros_text_ok p(2) p(2), of 2 3]
  show ?thesis by (simp add: Let_def)
qed

section \<open>Resolving an approval\<close>

lemma apply_error_Ok [simp]: "apply_error r = Ok v \<longleftrightarrow> r = Ok v"
  by (cases r) (auto simp: apply_error_def)

lemma cas_plan_OkD:
  assumes "cas_plan rv c fs = Ok plan"
  shows "\<exists>cur ver ca. cas_read rv (call_decode c) (call_scope c) (call_path c) fs = Ok (cur, ver)
    \<and> call_apply c cur = Ok ca
    \<and> (case plan of
         PlanReturn t \<Rightarrow> t = ca_outcome ca \<and> (\<not> ca_write ca \<or> cur = Some (ca_snapshot ca))
       | PlanWrite e cas t \<Rightarrow> t = ca_outcome ca \<and> call_encode c (ca_snapshot ca) = Ok e)"
  using assms
  by (auto simp: cas_plan_def cas_plan_from_def rbind_eq_Inr split: if_splits)

lemma cas_atomic_OkD:
  assumes "cas_atomic rv c now fs = (fs', Ok t)"
  shows "\<exists>cur ver ca. cas_read rv (call_decode c) (call_scope c) (call_path c) fs = Ok (cur, ver)
    \<and> call_apply c cur = Ok ca \<and> t = ca_outcome ca
    \<and> ((fs' = fs \<and> (\<not> ca_write ca \<or> cur = Some (ca_snapshot ca)))
      \<or> (\<exists>e v cas ver'. call_encode c (ca_snapshot ca) = Ok e
           \<and> resolve_with_permission rv (call_scope c) (call_path c) WriteFile = Ok v
           \<and> fs_put fs v e cas now = (fs', Ok ver')))"
proof -
  obtain plan where plan: "cas_plan rv c fs = Ok plan"
    using assms by (auto simp: cas_atomic_def split: sum.splits)
  from cas_plan_OkD [OF plan] obtain cur ver ca
    where "cas_read rv (call_decode c) (call_scope c) (call_path c) fs = Ok (cur, ver)"
      "call_apply c cur = Ok ca"
      "case plan of
         PlanReturn t \<Rightarrow> t = ca_outcome ca \<and> (\<not> ca_write ca \<or> cur = Some (ca_snapshot ca))
       | PlanWrite e cas t \<Rightarrow> t = ca_outcome ca \<and> call_encode c (ca_snapshot ca) = Ok e"
    by blast
  with plan assms show ?thesis
    by (intro exI [of _ cur] exI [of _ ver] exI [of _ ca])
       (auto simp: cas_atomic_def scoped_put_def scoped_update_def
         split: cas_plan.splits prod.splits sum.splits)
qed

lemma fs_put_Ok_get:
  "fs_put fs v e cas now = (fs', Ok ver) \<Longrightarrow>
     fs_get fs' v = Ok (Some \<lparr>ve_path = v, ve_entry = e, ve_version = ver\<rparr>)
     \<and> (\<forall>q. q \<noteq> v \<longrightarrow> same_at q fs fs')"
  using fs_write_same_at(1) [of _ v fs e cas now]
  by (auto simp: fs_put_def fs_get_def Let_def hmap_simps split: if_splits sum.splits)

lemma cas_read_Some:
  "cas_read rv decode sc p fs = Ok (Some s, ver) \<Longrightarrow>
    \<exists>ve. scoped_get rv fs sc p = Ok (Some ve) \<and> decode (body (ve_entry ve)) = Ok s"
  by (auto simp: cas_read_def apply_error_def rbind_eq_Inr split: sum.splits option.splits)

lemma body_json_entry [simp]: "body (json_entry k b) = b"
  by (simp add: json_entry_def entry_bytes_def)

text \<open>An atomic update of a pending approval record.\<close>

lemma pending_update_atomic:
  fixes r :: "'d approval_record"
  assumes rt: "\<And>r b. apr_ser cd r = Ok b \<Longrightarrow> apr_deser cd b = Ok r"
    and path: "approval_record_path (uuid_text cd) sc i = Ok p"
    and atomic: "cas_atomic rv
        (approval_call cd sc
          (apply_pending sc i (\<lambda>r. cas_apply_new (r\<lparr>apr_status := st\<rparr>) (r\<lparr>apr_status := st\<rparr>))) p)
        now fs = (fs', Ok r)"
    and st: "st \<noteq> ApDiscarded"
  shows "\<exists>r0. fap_get cd rv fs sc i = Ok (Some r0) \<and> apr_status r0 = ApPending
    \<and> r = r0\<lparr>apr_status := st\<rparr> \<and> fap_get cd rv fs' sc i = Ok (Some r)
    \<and> (\<forall>q. resolve_with_permission rv sc p WriteFile \<noteq> Ok q \<longrightarrow> same_at q fs fs')"
proof -
  let ?c = "approval_call cd sc
    (apply_pending sc i (\<lambda>r. cas_apply_new (r\<lparr>apr_status := st\<rparr>) (r\<lparr>apr_status := st\<rparr>))) p"
  from cas_atomic_OkD [OF atomic] obtain cur ver ca
    where read: "cas_read rv (call_decode ?c) (call_scope ?c) (call_path ?c) fs = Ok (cur, ver)"
    and app: "call_apply ?c cur = Ok ca" and r: "r = ca_outcome ca"
    and eff: "(fs' = fs \<and> (\<not> ca_write ca \<or> cur = Some (ca_snapshot ca)))
      \<or> (\<exists>e v cas ver'. call_encode ?c (ca_snapshot ca) = Ok e
           \<and> resolve_with_permission rv (call_scope ?c) (call_path ?c) WriteFile = Ok v
           \<and> fs_put fs v e cas now = (fs', Ok ver'))"
    by blast
  obtain r0 where cur: "cur = Some r0" and own: "same_scope_owner (apr_scope r0) sc"
    and pend: "apr_status r0 = ApPending"
    and ca: "ca = cas_apply_new (r0\<lparr>apr_status := st\<rparr>) (r0\<lparr>apr_status := st\<rparr>)"
    using app by (auto simp: approval_call_def apply_pending_def split: option.splits if_splits)
  obtain ve where get: "scoped_get rv fs sc p = Ok (Some ve)"
    and dec: "apr_deser cd (body (ve_entry ve)) = Ok r0"
    using cas_read_Some [OF read [unfolded cur]] by (auto simp: approval_call_def)
  have r': "r = r0\<lparr>apr_status := st\<rparr>" using r ca by (simp add: cas_apply_new_def)
  have g0: "fap_get cd rv fs sc i = Ok (Some r0)"
    using path get dec own pend by (simp add: fap_get_def fs_result_def)
  have "fap_get cd rv fs' sc i = Ok (Some r)
    \<and> (\<forall>q. resolve_with_permission rv sc p WriteFile \<noteq> Ok q \<longrightarrow> same_at q fs fs')"
    using eff
  proof
    assume "fs' = fs \<and> (\<not> ca_write ca \<or> cur = Some (ca_snapshot ca))"
    then show ?thesis using g0 cur ca r' by (simp add: cas_apply_new_def same_at_def)
  next
    assume "\<exists>e v cas ver'. call_encode ?c (ca_snapshot ca) = Ok e
           \<and> resolve_with_permission rv (call_scope ?c) (call_path ?c) WriteFile = Ok v
           \<and> fs_put fs v e cas now = (fs', Ok ver')"
    then obtain e v cas ver' where enc: "approval_record_entry cd r = Ok e"
      and w: "resolve_with_permission rv sc p WriteFile = Ok v"
      and put: "fs_put fs v e cas now = (fs', Ok ver')"
      using ca r' by (auto simp: approval_call_def cas_apply_new_def)
    obtain b where ser: "apr_ser cd r = Ok b" and e: "body e = b"
      using enc by (auto simp: approval_record_entry_def rbind_eq_Inr)
    obtain v' where v': "resolve_with_permission rv sc p ReadFile = Ok v'"
      using get by (auto simp: scoped_get_def rbind_eq_Inr split: sum.splits)
    have "v' = v" using resolve_same_path [OF v' w] .
    then have "scoped_get rv fs' sc p = Ok (Some \<lparr>ve_path = v, ve_entry = e, ve_version = ver'\<rparr>)"
      using v' fs_put_Ok_get [OF put] by (simp add: scoped_get_def)
    then show ?thesis
      using path rt [OF ser] e own r' st w fs_put_Ok_get [OF put] by (simp add: fap_get_def fs_result_def)
  qed
  with g0 pend r' show ?thesis by blast
qed


definition sample_codec :: "(int approval_record, int) store_codec" where
  "sample_codec =
     \<lparr>uuid_text = zeros_text, run_ser = (\<lambda>_. Ok []), run_deser = (\<lambda>_. Err (RsBackend [])),
      apr_ser = (\<lambda>r. Ok [r]), apr_deser = (\<lambda>b. Ok (hd b))\<rparr>"

definition sample_env :: "(nat \<Rightarrow> (resource_scope \<times> int approval_record fs_write) list)
    \<Rightarrow> int approval_record cas_env" where
  "sample_env others =
     \<lparr>env_resolver = invocation_mount_view False, env_caps = capabilities_default, env_now = 2,
      env_others = others, env_deadline = None\<rparr>"

definition ann :: resource_scope where
  "ann = named_scope ''acme'' ''ann''"

definition pending_record :: "int approval_record" where
  "pending_record = \<lparr>apr_scope = ann, apr_request = sample_request 0, apr_status = ApPending\<rparr>"

text \<open>A file system holding one pending request, and another task that writes elsewhere.\<close>

definition pending_fs :: "int approval_record mem_fs" where
  "pending_fs = fs_new\<lparr>entries := [(''/tenants/acme/users/ann/approvals/0.json'',
     \<lparr>st_entry = json_entry ''approval_record'' [pending_record], st_version = 1, st_modified = 1\<rparr>)]\<rparr>"

definition sample_others :: "nat \<Rightarrow> (resource_scope \<times> int approval_record fs_write) list" where
  "sample_others k = (if k = 1 then [(ann, SwPut ''/turns/n'' (entry_bytes []) CasAny 1)] else [])"

lemma ann_resolve:
  "resolve_with_permission (invocation_mount_view False) ann ''/approvals/0.json'' op =
     (if operation_allowed permissions_read_write_list_delete op
      then Ok ''/tenants/acme/users/ann/approvals/0.json''
      else Err (PermissionDenied ''/approvals/0.json'' op))"
  "resolve_with_permission (invocation_mount_view False) ann ''/turns/n'' op =
     (if operation_allowed permissions_read_write_list_delete op
      then Ok ''/tenants/acme/users/ann/turns/n'' else Err (PermissionDenied ''/turns/n'' op))"
proof -
  have ids: "scope_id_new ''tenant'' ''acme'' = Ok ''acme''" "scope_id_new ''user'' ''ann'' = Ok ''ann''"
    by (simp_all add: scope_id_eval)
  show "resolve_with_permission (invocation_mount_view False) ann ''/approvals/0.json'' op =
     (if operation_allowed permissions_read_write_list_delete op
      then Ok ''/tenants/acme/users/ann/approvals/0.json''
      else Err (PermissionDenied ''/approvals/0.json'' op))"
    "resolve_with_permission (invocation_mount_view False) ann ''/turns/n'' op =
     (if operation_allowed permissions_read_write_list_delete op
      then Ok ''/tenants/acme/users/ann/turns/n'' else Err (PermissionDenied ''/turns/n'' op))"
    using named_scope_proper [OF ids]
    by (simp_all add: resolve_with_permission_def invocation_mount_view_Ok ann_def
        resolve_with_permission_view_def contract_def grant_specs_def PER_USER_ALIASES_def
        spec_grant_def path_eval named_scope_def resource_scope_path_segment_def
        SYSTEM_RESERVED_ID_def)
qed

lemma sample_approval_path:
  "approval_record_path (uuid_text sample_codec) ann 0 = Ok ''/approvals/0.json''"
proof -
  have "proper_owner ann" by (simp add: ann_def named_scope_def proper_owner_def)
  from record_path_segments(2) [OF zeros_text_ok this, of 0] show ?thesis
    by (simp add: sample_codec_def zeros_text_def ann_def named_scope_def owner_segments_def
        axis_segments_def path_of_def)
qed

lemma sample_others_length: "length (gaps sample_others 0 (2 * FILESYSTEM_CAS_RETRIES)) = 1"
proof -
  have "[0..<2 * FILESYSTEM_CAS_RETRIES] = [0, 1] @ [2..<64]"
    by (simp add: FILESYSTEM_CAS_RETRIES_def upt_rec)
  then show ?thesis by (simp add: gaps_def sample_others_def)
qed

lemma sample_approve:
  "snd (fap_update_status sample_codec (sample_env sample_others) pending_fs ann 0 ApApproved)
     = Ok (pending_record\<lparr>apr_status := ApApproved\<rparr>)"
proof -
  have r: "FILESYSTEM_CAS_RETRIES = Suc 31" by (simp add: FILESYSTEM_CAS_RETRIES_def)
  show ?thesis
    unfolding fap_update_status_def store_update_def sample_approval_path cas_update_def r
      cas_update_loop.simps(2)
    by (simp add: sample_env_def capabilities_known_def sample_others_def interfere_def
        approval_call_def cas_plan_def cas_read_def cas_plan_from_def apply_error_def
        scoped_get_def scoped_put_def scoped_update_def ann_resolve operation_allowed_def
        permissions_read_write_list_delete_def fs_get_def fs_put_def pending_fs_def
        pending_record_def sample_codec_def apply_pending_def same_scope_owner_def
        cas_apply_new_def approval_record_entry_def fs_new_def has_children_def next_version_def
        starts_with_def with_trailing_slash_def ends_with_char_def
        Let_def)
qed


end
