(* ===== verification/Runtime_Policy.thy ===== *)
theory Runtime_Policy
  imports Rust_Strings
begin

text \<open>
  Runtime policy: the vocabulary of \<open>ironclaw_host_api/src/runtime_policy.rs\<close> (deployment modes,
  runtime profiles, backend and posture enumerations with their wire names) and the resolver of
  \<open>ironclaw_runtime_policy/src/resolver.rs\<close>, which turns a deployment, a requested profile and the
  constraints of an organisation into the policy the host enforces. The enumerations are
  \<open>#[non_exhaustive]\<close> and the wildcard arms that panic are unreachable for the variants that exist.

  The theorems give the exact outcome of a resolution with its precedence of errors, the boundary
  no policy of a deployment crosses, and that a ceiling of the organisation only takes authority
  away.
\<close>

section \<open>Vocabulary\<close>

datatype deployment_mode = LocalSingleUser | HostedMultiTenant | EnterpriseDedicated

datatype runtime_profile =
    SecureDefault
  | LocalSafe | LocalDev | LocalYolo
  | HostedSafe | HostedDev | HostedYoloTenantScoped
  | EnterpriseSafe | EnterpriseDev | EnterpriseYoloDedicated
  | Sandboxed | Experiment

datatype parse_runtime_policy_enum_error = ParseRuntimePolicyEnumError string string

fun deployment_as_str :: "deployment_mode \<Rightarrow> string" where
  "deployment_as_str LocalSingleUser = ''local_single_user''"
| "deployment_as_str HostedMultiTenant = ''hosted_multi_tenant''"
| "deployment_as_str EnterpriseDedicated = ''enterprise_dedicated''"

definition deployment_from_str :: "string \<Rightarrow> parse_runtime_policy_enum_error + deployment_mode" where
  "deployment_from_str value =
     (if value = ''local_single_user'' then Ok LocalSingleUser
      else if value = ''hosted_multi_tenant'' then Ok HostedMultiTenant
      else if value = ''enterprise_dedicated'' then Ok EnterpriseDedicated
      else Err (ParseRuntimePolicyEnumError ''deployment mode'' value))"

fun profile_as_str :: "runtime_profile \<Rightarrow> string" where
  "profile_as_str SecureDefault = ''secure_default''"
| "profile_as_str LocalSafe = ''local_safe''"
| "profile_as_str LocalDev = ''local_dev''"
| "profile_as_str LocalYolo = ''local_yolo''"
| "profile_as_str HostedSafe = ''hosted_safe''"
| "profile_as_str HostedDev = ''hosted_dev''"
| "profile_as_str HostedYoloTenantScoped = ''hosted_yolo_tenant_scoped''"
| "profile_as_str EnterpriseSafe = ''enterprise_safe''"
| "profile_as_str EnterpriseDev = ''enterprise_dev''"
| "profile_as_str EnterpriseYoloDedicated = ''enterprise_yolo_dedicated''"
| "profile_as_str Sandboxed = ''sandboxed''"
| "profile_as_str Experiment = ''experiment''"

definition profile_from_str :: "string \<Rightarrow> parse_runtime_policy_enum_error + runtime_profile" where
  "profile_from_str value =
     (if value = ''secure_default'' then Ok SecureDefault
      else if value = ''local_safe'' then Ok LocalSafe
      else if value = ''local_dev'' then Ok LocalDev
      else if value = ''local_yolo'' then Ok LocalYolo
      else if value = ''hosted_safe'' then Ok HostedSafe
      else if value = ''hosted_dev'' then Ok HostedDev
      else if value = ''hosted_yolo_tenant_scoped'' then Ok HostedYoloTenantScoped
      else if value = ''enterprise_safe'' then Ok EnterpriseSafe
      else if value = ''enterprise_dev'' then Ok EnterpriseDev
      else if value = ''enterprise_yolo_dedicated'' then Ok EnterpriseYoloDedicated
      else if value = ''sandboxed'' then Ok Sandboxed
      else if value = ''experiment'' then Ok Experiment
      else Err (ParseRuntimePolicyEnumError ''runtime profile'' value))"

definition is_local :: "runtime_profile \<Rightarrow> bool" where
  "is_local p = (case p of LocalSafe \<Rightarrow> True | LocalDev \<Rightarrow> True | LocalYolo \<Rightarrow> True | _ \<Rightarrow> False)"

definition is_hosted :: "runtime_profile \<Rightarrow> bool" where
  "is_hosted p =
     (case p of HostedSafe \<Rightarrow> True | HostedDev \<Rightarrow> True | HostedYoloTenantScoped \<Rightarrow> True | _ \<Rightarrow> False)"

definition is_enterprise :: "runtime_profile \<Rightarrow> bool" where
  "is_enterprise p =
     (case p of EnterpriseSafe \<Rightarrow> True | EnterpriseDev \<Rightarrow> True | EnterpriseYoloDedicated \<Rightarrow> True
      | _ \<Rightarrow> False)"

definition is_yolo :: "runtime_profile \<Rightarrow> bool" where
  "is_yolo p =
     (case p of LocalYolo \<Rightarrow> True | HostedYoloTenantScoped \<Rightarrow> True | EnterpriseYoloDedicated \<Rightarrow> True
      | _ \<Rightarrow> False)"

definition allows_minimal_approval_bypass :: "runtime_profile \<Rightarrow> bool" where
  "allows_minimal_approval_bypass p =
     (case p of LocalYolo \<Rightarrow> True | HostedYoloTenantScoped \<Rightarrow> True | _ \<Rightarrow> False)"

datatype filesystem_backend_kind =
    ScopedVirtual | HostWorkspace | HostWorkspaceAndHome | TenantWorkspace | OrgDedicatedWorkspace

datatype process_backend_kind =
    PbNone | PbDocker | PbSrt | PbSmolVm | PbLocalHost | PbTenantSandbox | PbOrgDedicatedRunner

datatype network_mode = NetDeny | NetBrokered | NetAllowlist | NetDirectLogged | NetDirect

datatype secret_mode =
    SecDeny | SecBrokeredHandles | SecTenantBroker | SecOrgBroker | SecScrubbedEnv | SecInheritedEnv

datatype approval_policy = AskAlways | AskWrites | AskDestructive | ApprovalOrgPolicy | ApprovalMinimal

datatype audit_mode = AuditLocalMinimal | AuditStandard | AuditOrgPolicy

record effective_runtime_policy =
  erp_deployment :: deployment_mode
  erp_requested_profile :: runtime_profile
  erp_resolved_profile :: runtime_profile
  erp_filesystem_backend :: filesystem_backend_kind
  erp_process_backend :: process_backend_kind
  erp_network_mode :: network_mode
  erp_secret_mode :: secret_mode
  erp_approval_policy :: approval_policy
  erp_audit_mode :: audit_mode

definition was_reduced :: "effective_runtime_policy \<Rightarrow> bool" where
  "was_reduced p = (erp_requested_profile p \<noteq> erp_resolved_profile p)"

section \<open>The resolver\<close>

record org_policy_constraints =
  max_profile :: "runtime_profile option"
  admin_approves_dedicated_yolo :: bool

definition org_policy_default :: org_policy_constraints where
  "org_policy_default = \<lparr>max_profile = None, admin_approves_dedicated_yolo = False\<rparr>"

record resolve_request =
  rq_deployment :: deployment_mode
  rq_requested_profile :: runtime_profile
  rq_org_policy :: org_policy_constraints
  rq_yolo_disclosure_acknowledged :: bool

definition resolve_request_new :: "deployment_mode \<Rightarrow> runtime_profile \<Rightarrow> resolve_request" where
  "resolve_request_new d p =
     \<lparr>rq_deployment = d, rq_requested_profile = p, rq_org_policy = org_policy_default,
      rq_yolo_disclosure_acknowledged = False\<rparr>"

datatype resolve_error =
    IncompatibleDeployment deployment_mode runtime_profile
  | YoloRequiresDisclosure runtime_profile
  | DedicatedYoloRequiresOrgAdminApproval
  | OrgPolicyCeilingFamilyMismatch runtime_profile runtime_profile

definition is_compatible :: "deployment_mode \<Rightarrow> runtime_profile \<Rightarrow> bool" where
  "is_compatible d p =
     (case p of
        SecureDefault \<Rightarrow> True | Sandboxed \<Rightarrow> True | Experiment \<Rightarrow> True
      | LocalSafe \<Rightarrow> d = LocalSingleUser | LocalDev \<Rightarrow> d = LocalSingleUser
      | LocalYolo \<Rightarrow> d = LocalSingleUser
      | HostedSafe \<Rightarrow> d = HostedMultiTenant | HostedDev \<Rightarrow> d = HostedMultiTenant
      | HostedYoloTenantScoped \<Rightarrow> d = HostedMultiTenant
      | EnterpriseSafe \<Rightarrow> d = EnterpriseDedicated | EnterpriseDev \<Rightarrow> d = EnterpriseDedicated
      | EnterpriseYoloDedicated \<Rightarrow> d = EnterpriseDedicated)"

datatype profile_family = FamLocal | FamHosted | FamEnterprise

definition family_rank :: "runtime_profile \<Rightarrow> (profile_family \<times> u8) option" where
  "family_rank p =
     (case p of
        LocalSafe \<Rightarrow> Some (FamLocal, 1) | LocalDev \<Rightarrow> Some (FamLocal, 2) | LocalYolo \<Rightarrow> Some (FamLocal, 3)
      | HostedSafe \<Rightarrow> Some (FamHosted, 1) | HostedDev \<Rightarrow> Some (FamHosted, 2)
      | HostedYoloTenantScoped \<Rightarrow> Some (FamHosted, 3)
      | EnterpriseSafe \<Rightarrow> Some (FamEnterprise, 1) | EnterpriseDev \<Rightarrow> Some (FamEnterprise, 2)
      | EnterpriseYoloDedicated \<Rightarrow> Some (FamEnterprise, 3)
      | _ \<Rightarrow> None)"

definition narrow_to_ceiling :: "runtime_profile \<Rightarrow> runtime_profile \<Rightarrow> resolve_error + runtime_profile" where
  "narrow_to_ceiling requested ceiling =
     (case family_rank requested of
        None \<Rightarrow> Err (OrgPolicyCeilingFamilyMismatch requested ceiling)
      | Some (req_family, req_rank) \<Rightarrow>
          (case family_rank ceiling of
             None \<Rightarrow> Err (OrgPolicyCeilingFamilyMismatch requested ceiling)
           | Some (ceil_family, ceil_rank) \<Rightarrow>
               if req_family \<noteq> ceil_family
               then Err (OrgPolicyCeilingFamilyMismatch requested ceiling)
               else if ceil_rank < req_rank then Ok ceiling else Ok requested))"

fun sandboxed_filesystem_for :: "deployment_mode \<Rightarrow> filesystem_backend_kind" where
  "sandboxed_filesystem_for LocalSingleUser = ScopedVirtual"
| "sandboxed_filesystem_for HostedMultiTenant = TenantWorkspace"
| "sandboxed_filesystem_for EnterpriseDedicated = OrgDedicatedWorkspace"

fun sandboxed_secret_for :: "deployment_mode \<Rightarrow> secret_mode" where
  "sandboxed_secret_for LocalSingleUser = SecBrokeredHandles"
| "sandboxed_secret_for HostedMultiTenant = SecTenantBroker"
| "sandboxed_secret_for EnterpriseDedicated = SecOrgBroker"

fun audit_for :: "deployment_mode \<Rightarrow> audit_mode" where
  "audit_for LocalSingleUser = AuditLocalMinimal"
| "audit_for HostedMultiTenant = AuditStandard"
| "audit_for EnterpriseDedicated = AuditOrgPolicy"

type_synonym backends =
  "filesystem_backend_kind \<times> process_backend_kind \<times> network_mode \<times> secret_mode \<times> approval_policy
    \<times> audit_mode"

fun backends_for :: "deployment_mode \<Rightarrow> runtime_profile \<Rightarrow> backends" where
  "backends_for d SecureDefault =
     (ScopedVirtual, PbNone, NetBrokered, SecBrokeredHandles, AskAlways, audit_for d)"
| "backends_for d LocalSafe =
     (HostWorkspace, PbLocalHost, NetBrokered, SecScrubbedEnv, AskWrites, AuditLocalMinimal)"
| "backends_for d LocalDev =
     (HostWorkspace, PbLocalHost, NetDirectLogged, SecScrubbedEnv, AskDestructive, AuditLocalMinimal)"
| "backends_for d LocalYolo =
     (HostWorkspaceAndHome, PbLocalHost, NetDirect, SecInheritedEnv, ApprovalMinimal, AuditLocalMinimal)"
| "backends_for d HostedSafe =
     (TenantWorkspace, PbTenantSandbox, NetBrokered, SecTenantBroker, AskWrites, AuditStandard)"
| "backends_for d HostedDev =
     (TenantWorkspace, PbTenantSandbox, NetAllowlist, SecTenantBroker, AskDestructive, AuditStandard)"
| "backends_for d HostedYoloTenantScoped =
     (TenantWorkspace, PbTenantSandbox, NetAllowlist, SecTenantBroker, ApprovalMinimal, AuditStandard)"
| "backends_for d EnterpriseSafe =
     (OrgDedicatedWorkspace, PbOrgDedicatedRunner, NetBrokered, SecOrgBroker, ApprovalOrgPolicy,
      AuditOrgPolicy)"
| "backends_for d EnterpriseDev =
     (OrgDedicatedWorkspace, PbOrgDedicatedRunner, NetAllowlist, SecOrgBroker, ApprovalOrgPolicy,
      AuditOrgPolicy)"
| "backends_for d EnterpriseYoloDedicated =
     (OrgDedicatedWorkspace, PbOrgDedicatedRunner, NetDirectLogged, SecOrgBroker, ApprovalOrgPolicy,
      AuditOrgPolicy)"
| "backends_for d Sandboxed =
     (sandboxed_filesystem_for d, PbSrt, NetBrokered, sandboxed_secret_for d, AskWrites, audit_for d)"
| "backends_for d Experiment =
     (sandboxed_filesystem_for d, PbSmolVm, NetAllowlist, sandboxed_secret_for d, AskDestructive,
      audit_for d)"

definition map_to_effective ::
  "deployment_mode \<Rightarrow> runtime_profile \<Rightarrow> runtime_profile \<Rightarrow> effective_runtime_policy" where
  "map_to_effective d requested resolved =
     (case backends_for d resolved of (fs, pb, net, sec, ap, au) \<Rightarrow>
        \<lparr>erp_deployment = d, erp_requested_profile = requested, erp_resolved_profile = resolved,
         erp_filesystem_backend = fs, erp_process_backend = pb, erp_network_mode = net,
         erp_secret_mode = sec, erp_approval_policy = ap, erp_audit_mode = au\<rparr>)"

definition resolve :: "resolve_request \<Rightarrow> resolve_error + effective_runtime_policy" where
  "resolve req =
     (if \<not> is_compatible (rq_deployment req) (rq_requested_profile req)
      then Err (IncompatibleDeployment (rq_deployment req) (rq_requested_profile req))
      else if is_yolo (rq_requested_profile req) \<and> \<not> rq_yolo_disclosure_acknowledged req
      then Err (YoloRequiresDisclosure (rq_requested_profile req))
      else if rq_requested_profile req = EnterpriseYoloDedicated
        \<and> \<not> admin_approves_dedicated_yolo (rq_org_policy req)
      then Err DedicatedYoloRequiresOrgAdminApproval
      else rbind
        (case max_profile (rq_org_policy req) of
           Some ceiling \<Rightarrow> narrow_to_ceiling (rq_requested_profile req) ceiling
         | None \<Rightarrow> Ok (rq_requested_profile req))
        (\<lambda>resolved. Ok (map_to_effective (rq_deployment req) (rq_requested_profile req) resolved)))"

section \<open>What a deployment may reach\<close>

text \<open>The boundary of a deployment as the documentation of the enumerations gives it: which backends
  and postures may serve an invocation there.\<close>

fun boundary_filesystems :: "deployment_mode \<Rightarrow> filesystem_backend_kind set" where
  "boundary_filesystems LocalSingleUser = {ScopedVirtual, HostWorkspace, HostWorkspaceAndHome}"
| "boundary_filesystems HostedMultiTenant = {ScopedVirtual, TenantWorkspace}"
| "boundary_filesystems EnterpriseDedicated = {ScopedVirtual, OrgDedicatedWorkspace}"

fun boundary_processes :: "deployment_mode \<Rightarrow> process_backend_kind set" where
  "boundary_processes LocalSingleUser = {PbNone, PbSrt, PbSmolVm, PbDocker, PbLocalHost}"
| "boundary_processes HostedMultiTenant = {PbNone, PbSrt, PbSmolVm, PbDocker, PbTenantSandbox}"
| "boundary_processes EnterpriseDedicated = {PbNone, PbSrt, PbSmolVm, PbDocker, PbOrgDedicatedRunner}"

fun boundary_networks :: "deployment_mode \<Rightarrow> network_mode set" where
  "boundary_networks LocalSingleUser = UNIV"
| "boundary_networks HostedMultiTenant = {NetDeny, NetBrokered, NetAllowlist}"
| "boundary_networks EnterpriseDedicated = {NetDeny, NetBrokered, NetAllowlist, NetDirectLogged}"

fun boundary_secrets :: "deployment_mode \<Rightarrow> secret_mode set" where
  "boundary_secrets LocalSingleUser = {SecDeny, SecBrokeredHandles, SecScrubbedEnv, SecInheritedEnv}"
| "boundary_secrets HostedMultiTenant = {SecDeny, SecBrokeredHandles, SecTenantBroker}"
| "boundary_secrets EnterpriseDedicated = {SecDeny, SecBrokeredHandles, SecOrgBroker}"

definition within_boundary :: "effective_runtime_policy \<Rightarrow> bool" where
  "within_boundary p =
     (let d = erp_deployment p in
      erp_filesystem_backend p \<in> boundary_filesystems d
      \<and> erp_process_backend p \<in> boundary_processes d
      \<and> erp_network_mode p \<in> boundary_networks d
      \<and> erp_secret_mode p \<in> boundary_secrets d
      \<and> erp_audit_mode p = audit_for d)"

section \<open>How much authority a posture gives\<close>

fun filesystem_authority :: "filesystem_backend_kind \<Rightarrow> nat" where
  "filesystem_authority ScopedVirtual = 0"
| "filesystem_authority HostWorkspace = 1"
| "filesystem_authority HostWorkspaceAndHome = 2"
| "filesystem_authority TenantWorkspace = 1"
| "filesystem_authority OrgDedicatedWorkspace = 1"

fun network_authority :: "network_mode \<Rightarrow> nat" where
  "network_authority NetDeny = 0"
| "network_authority NetBrokered = 1"
| "network_authority NetAllowlist = 2"
| "network_authority NetDirectLogged = 3"
| "network_authority NetDirect = 4"

fun secret_authority :: "secret_mode \<Rightarrow> nat" where
  "secret_authority SecDeny = 0"
| "secret_authority SecBrokeredHandles = 1"
| "secret_authority SecTenantBroker = 1"
| "secret_authority SecOrgBroker = 1"
| "secret_authority SecScrubbedEnv = 2"
| "secret_authority SecInheritedEnv = 3"

fun approval_authority :: "approval_policy \<Rightarrow> nat" where
  "approval_authority AskAlways = 0"
| "approval_authority AskWrites = 1"
| "approval_authority AskDestructive = 2"
| "approval_authority ApprovalOrgPolicy = 3"
| "approval_authority ApprovalMinimal = 4"

definition no_more_authority :: "effective_runtime_policy \<Rightarrow> effective_runtime_policy \<Rightarrow> bool" where
  "no_more_authority p q =
     (erp_deployment p = erp_deployment q
      \<and> filesystem_authority (erp_filesystem_backend p) \<le> filesystem_authority (erp_filesystem_backend q)
      \<and> erp_process_backend p = erp_process_backend q
      \<and> network_authority (erp_network_mode p) \<le> network_authority (erp_network_mode q)
      \<and> secret_authority (erp_secret_mode p) \<le> secret_authority (erp_secret_mode q)
      \<and> approval_authority (erp_approval_policy p) \<le> approval_authority (erp_approval_policy q)
      \<and> erp_audit_mode p = erp_audit_mode q)"

definition without_ceiling :: "resolve_request \<Rightarrow> resolve_request" where
  "without_ceiling req = req\<lparr>rq_org_policy := (rq_org_policy req)\<lparr>max_profile := None\<rparr>\<rparr>"

section \<open>Lemmas\<close>

named_theorems policy_defs "the predicates of profiles, unfolded by case analysis"

lemmas [policy_defs] = is_local_def is_hosted_def is_enterprise_def is_yolo_def
  allows_minimal_approval_bypass_def is_compatible_def family_rank_def

lemma compatible_cases:
  "is_compatible d p \<longleftrightarrow>
     (is_local p \<longrightarrow> d = LocalSingleUser) \<and> (is_hosted p \<longrightarrow> d = HostedMultiTenant)
     \<and> (is_enterprise p \<longrightarrow> d = EnterpriseDedicated)"
  by (cases p) (simp_all add: policy_defs)

lemma narrow_Ok:
  "narrow_to_ceiling r c = Ok p \<longleftrightarrow>
     (\<exists>f m n. family_rank r = Some (f, m) \<and> family_rank c = Some (f, n)
        \<and> p = (if n < m then c else r))"
  by (auto simp: narrow_to_ceiling_def split: option.splits prod.splits)

lemma narrow_Err:
  "narrow_to_ceiling r c = Err e \<longleftrightarrow>
     e = OrgPolicyCeilingFamilyMismatch r c
     \<and> (family_rank r = None \<or> map_option fst (family_rank r) \<noteq> map_option fst (family_rank c))"
  by (auto simp: narrow_to_ceiling_def split: option.splits prod.splits)

lemma narrow_compatible:
  assumes "narrow_to_ceiling r c = Ok p" and "is_compatible d r"
  shows "is_compatible d p"
  using assms by (cases r; cases c) (auto simp: narrow_Ok policy_defs)

lemma resolve_Ok:
  "resolve req = Ok p \<longleftrightarrow>
     is_compatible (rq_deployment req) (rq_requested_profile req)
     \<and> (is_yolo (rq_requested_profile req) \<longrightarrow> rq_yolo_disclosure_acknowledged req)
     \<and> (rq_requested_profile req = EnterpriseYoloDedicated
          \<longrightarrow> admin_approves_dedicated_yolo (rq_org_policy req))
     \<and> (\<exists>resolved.
          (case max_profile (rq_org_policy req) of
             None \<Rightarrow> resolved = rq_requested_profile req
           | Some c \<Rightarrow> narrow_to_ceiling (rq_requested_profile req) c = Ok resolved)
          \<and> p = map_to_effective (rq_deployment req) (rq_requested_profile req) resolved)"
  by (auto simp: resolve_def rbind_eq_Inr split: option.splits)

lemma compatible_within_boundary: "is_compatible d p \<Longrightarrow> within_boundary (map_to_effective d r p)"
  by (cases d; cases p) (simp_all add: within_boundary_def map_to_effective_def is_compatible_def)

lemma map_to_effective_fields [simp]:
  "erp_deployment (map_to_effective d r p) = d"
  "erp_requested_profile (map_to_effective d r p) = r"
  "erp_resolved_profile (map_to_effective d r p) = p"
  by (simp_all add: map_to_effective_def split: prod.splits)

lemma minimal_iff:
  "erp_approval_policy (map_to_effective d r p) = ApprovalMinimal \<longleftrightarrow> allows_minimal_approval_bypass p"
  by (cases p) (simp_all add: map_to_effective_def policy_defs)

lemma narrow_authority:
  assumes "narrow_to_ceiling r c = Ok p"
  shows "no_more_authority (map_to_effective d x p) (map_to_effective d x r)"
  using assms
  by (cases r; cases c) (auto simp: narrow_Ok no_more_authority_def map_to_effective_def family_rank_def)

lemma narrow_yolo: "narrow_to_ceiling r c = Ok p \<Longrightarrow> is_yolo p \<Longrightarrow> p = r"
  by (cases r; cases c) (auto simp: narrow_Ok policy_defs)

lemma profile_wire_name: "profile_from_str s = Ok p \<longleftrightarrow> s = profile_as_str p"
  by (cases p) (auto simp: profile_from_str_def)

lemma deployment_wire_name: "deployment_from_str s = Ok d \<longleftrightarrow> s = deployment_as_str d"
  by (cases d) (auto simp: deployment_from_str_def)

lemma wire_name_errors:
  "profile_from_str s = Err e \<Longrightarrow> e = ParseRuntimePolicyEnumError ''runtime profile'' s"
  "deployment_from_str s = Err e' \<Longrightarrow> e' = ParseRuntimePolicyEnumError ''deployment mode'' s"
  by (auto simp: profile_from_str_def deployment_from_str_def split: if_splits)

lemma parse_refused:
  assumes "\<And>p. parse s = Inr p \<longleftrightarrow> s = print p" and "\<And>e. parse s = Inl e \<Longrightarrow> e = E"
  shows "parse s = Inl E \<longleftrightarrow> s \<notin> range print"
proof (cases "parse s")
  case (Inl e)
  then show ?thesis using assms(1) assms(2) [OF Inl] by (metis Inl_Inr_False rangeE)
next
  case (Inr p)
  then show ?thesis using assms(1) [of p] by simp
qed

section \<open>Properties\<close>

text \<open>Wire names: printing a runtime profile or a deployment mode and parsing it back gives the
  value, no other text parses to it, and every other text is refused with an error that names it.\<close>

theorem runtime_wire_names:
  "(profile_from_str s = Ok p \<longleftrightarrow> s = profile_as_str p)
   \<and> (deployment_from_str s = Ok d \<longleftrightarrow> s = deployment_as_str d)
   \<and> (profile_from_str s = Err (ParseRuntimePolicyEnumError ''runtime profile'' s)
        \<longleftrightarrow> s \<notin> range profile_as_str)
   \<and> (deployment_from_str s = Err (ParseRuntimePolicyEnumError ''deployment mode'' s)
        \<longleftrightarrow> s \<notin> range deployment_as_str)"
proof (intro conjI profile_wire_name deployment_wire_name)
  show "profile_from_str s = Err (ParseRuntimePolicyEnumError ''runtime profile'' s)
      \<longleftrightarrow> s \<notin> range profile_as_str"
    by (rule parse_refused) (fact profile_wire_name, rule wire_name_errors)
  show "deployment_from_str s = Err (ParseRuntimePolicyEnumError ''deployment mode'' s)
      \<longleftrightarrow> s \<notin> range deployment_as_str"
    by (rule parse_refused) (fact deployment_wire_name, rule wire_name_errors)
qed

text \<open>(C40) The boundary of a deployment: a resolved policy only ever names backends and postures of
  the requested deployment, so a hosted multi-tenant host never serves an invocation from a host
  workspace, a host shell, a direct network or environment secrets. Minimal approvals are given to
  exactly the two profiles that allow the bypass, a yolo profile is never reached without the
  operator's disclosure and a request for that very profile, and the dedicated one never without
  the approval of the organisation's administrator.\<close>

theorem runtime_policy_boundary:
  assumes "resolve req = Ok p"
  shows "erp_deployment p = rq_deployment req \<and> within_boundary p
    \<and> (erp_approval_policy p = ApprovalMinimal \<longleftrightarrow>
         allows_minimal_approval_bypass (erp_resolved_profile p))
    \<and> (is_yolo (erp_resolved_profile p) \<longrightarrow>
         rq_yolo_disclosure_acknowledged req \<and> erp_resolved_profile p = rq_requested_profile req)
    \<and> (erp_resolved_profile p = EnterpriseYoloDedicated \<longrightarrow>
         admin_approves_dedicated_yolo (rq_org_policy req))"
proof -
  obtain q where q: "case max_profile (rq_org_policy req) of
        None \<Rightarrow> q = rq_requested_profile req
      | Some c \<Rightarrow> narrow_to_ceiling (rq_requested_profile req) c = Ok q"
    and p: "p = map_to_effective (rq_deployment req) (rq_requested_profile req) q"
    and comp: "is_compatible (rq_deployment req) (rq_requested_profile req)"
    and yolo: "is_yolo (rq_requested_profile req) \<longrightarrow> rq_yolo_disclosure_acknowledged req"
    and admin: "rq_requested_profile req = EnterpriseYoloDedicated
      \<longrightarrow> admin_approves_dedicated_yolo (rq_org_policy req)"
    using assms unfolding resolve_Ok by blast
  have "is_compatible (rq_deployment req) q"
    using q comp by (auto split: option.splits dest: narrow_compatible)
  moreover have "is_yolo q \<longrightarrow> q = rq_requested_profile req"
    using q by (auto split: option.splits dest: narrow_yolo)
  moreover have "is_yolo EnterpriseYoloDedicated" by (simp add: is_yolo_def)
  ultimately show ?thesis
    using yolo admin by (auto simp: p minimal_iff compatible_within_boundary)
qed

theorem runtime_policy_boundary_witness:
  "\<exists>p. resolve (resolve_request_new HostedMultiTenant Experiment) = Ok p \<and> within_boundary p
     \<and> erp_filesystem_backend p = TenantWorkspace"
proof -
  define p where "p = map_to_effective HostedMultiTenant Experiment Experiment"
  have r: "resolve (resolve_request_new HostedMultiTenant Experiment) = Ok p"
    by (simp add: p_def resolve_def resolve_request_new_def org_policy_default_def policy_defs)
  then show ?thesis
    using runtime_policy_boundary [OF r] by (auto simp: p_def map_to_effective_def)
qed

text \<open>The ceiling of an organisation only takes authority away: with a ceiling the resolution
  gives no wider filesystem, network, secret or approval posture than without it, in the same
  deployment, with the same process backend and audit mode; the resolved profile is the lower
  ranked of the requested profile and the ceiling, in their common family; and a request it fails
  also failed without a ceiling, or the ceiling is of another family than the requested profile.\<close>

theorem ceiling_only_narrows:
  assumes "max_profile (rq_org_policy req) = Some c"
  shows "case resolve req of
      Inr p \<Rightarrow> (\<exists>q f m n. resolve (without_ceiling req) = Ok q \<and> no_more_authority p q
          \<and> family_rank (rq_requested_profile req) = Some (f, m) \<and> family_rank c = Some (f, n)
          \<and> family_rank (erp_resolved_profile p) = Some (f, min m n)
          \<and> (was_reduced p \<longleftrightarrow> n < m))
    | Inl e \<Rightarrow> resolve (without_ceiling req) = Err e
        \<or> (is_ok (resolve (without_ceiling req))
           \<and> e = OrgPolicyCeilingFamilyMismatch (rq_requested_profile req) c
           \<and> (family_rank (rq_requested_profile req) = None
              \<or> map_option fst (family_rank (rq_requested_profile req)) \<noteq> map_option fst (family_rank c)))"
proof (cases "resolve req")
  case (Inl e)
  then show ?thesis
    using assms
    by (auto simp: resolve_def without_ceiling_def rbind_eq_Inl narrow_Err split: if_splits)
next
  case (Inr p)
  let ?r = "rq_requested_profile req"
  obtain q where n: "narrow_to_ceiling ?r c = Ok q"
    and p: "p = map_to_effective (rq_deployment req) ?r q"
    using Inr assms by (auto simp: resolve_Ok)
  have "resolve (without_ceiling req) = Ok (map_to_effective (rq_deployment req) ?r ?r)"
    using Inr by (simp add: resolve_Ok without_ceiling_def)
  moreover note narrow_authority [OF n, of "rq_deployment req" ?r]
  moreover obtain f m k where fr: "family_rank ?r = Some (f, m)" "family_rank c = Some (f, k)"
    "q = (if k < m then c else ?r)"
    using n by (auto simp: narrow_Ok)
  moreover have "family_rank q = Some (f, min m k)"
    using fr by (auto simp: min_def)
  moreover have "was_reduced p \<longleftrightarrow> k < m"
    using fr by (auto simp: was_reduced_def p)
  ultimately show ?thesis by (auto simp: Inr p)
qed

theorem ceiling_only_narrows_witness:
  "\<exists>p. resolve \<lparr>rq_deployment = LocalSingleUser, rq_requested_profile = LocalYolo,
        rq_org_policy = \<lparr>max_profile = Some LocalDev, admin_approves_dedicated_yolo = False\<rparr>,
        rq_yolo_disclosure_acknowledged = True\<rparr> = Ok p
     \<and> erp_resolved_profile p = LocalDev \<and> was_reduced p"
proof -
  define req where "req = \<lparr>rq_deployment = LocalSingleUser, rq_requested_profile = LocalYolo,
        rq_org_policy = \<lparr>max_profile = Some LocalDev, admin_approves_dedicated_yolo = False\<rparr>,
        rq_yolo_disclosure_acknowledged = True\<rparr>"
  have m: "max_profile (rq_org_policy req) = Some LocalDev" by (simp add: req_def)
  have "resolve req = Ok (map_to_effective LocalSingleUser LocalYolo LocalDev)"
    by (simp add: req_def resolve_def narrow_to_ceiling_def policy_defs)
  then show ?thesis
    using ceiling_only_narrows [OF m] by (auto simp: req_def family_rank_def)
qed

text \<open>Failures of the resolver: which error a request gets, in the order the checks are made. A
  request fails for its deployment exactly when its profile belongs to the family of another
  deployment; only then for a missing disclosure, then for a missing administrator's approval, and
  last for a ceiling outside the profile's family. Everything else resolves.\<close>

theorem resolve_failures:
  "resolve req = Err e \<longleftrightarrow>
     (let d = rq_deployment req; p = rq_requested_profile req; org = rq_org_policy req;
          foreign = (is_local p \<and> d \<noteq> LocalSingleUser \<or> is_hosted p \<and> d \<noteq> HostedMultiTenant
            \<or> is_enterprise p \<and> d \<noteq> EnterpriseDedicated);
          undisclosed = (is_yolo p \<and> \<not> rq_yolo_disclosure_acknowledged req);
          unapproved = (p = EnterpriseYoloDedicated \<and> \<not> admin_approves_dedicated_yolo org)
      in case e of
          IncompatibleDeployment d' p' \<Rightarrow> d' = d \<and> p' = p \<and> foreign
        | YoloRequiresDisclosure p' \<Rightarrow> p' = p \<and> \<not> foreign \<and> undisclosed
        | DedicatedYoloRequiresOrgAdminApproval \<Rightarrow> \<not> foreign \<and> \<not> undisclosed \<and> unapproved
        | OrgPolicyCeilingFamilyMismatch p' c \<Rightarrow>
            p' = p \<and> max_profile org = Some c \<and> \<not> foreign \<and> \<not> undisclosed \<and> \<not> unapproved
            \<and> (family_rank p = None \<or> map_option fst (family_rank p) \<noteq> map_option fst (family_rank c)))"
  unfolding Let_def resolve_def compatible_cases
  by (cases e) (auto simp: rbind_eq_Inl narrow_Err split: option.splits)

theorem resolve_failures_witness:
  "resolve \<lparr>rq_deployment = HostedMultiTenant, rq_requested_profile = LocalDev,
     rq_org_policy = org_policy_default, rq_yolo_disclosure_acknowledged = False\<rparr>
   = Err (IncompatibleDeployment HostedMultiTenant LocalDev)"
  unfolding resolve_failures by (simp add: policy_defs)

end
