(* ===== verification/Decisions.thy ===== *)
theory Decisions
  imports Host_Actions "HOL-Library.Multiset"
begin

text \<open>
  Authorization decisions of the host API (\<open>ironclaw_host_api/src/decision.rs\<close>): decisions, reasons
  for denial and the obligations attached to an allowed action, with the constructor
  \<open>Obligations::new\<close> that puts them into the canonical evaluation order; and the capability
  descriptor with its credential requirements (\<open>capability.rs\<close>). A JSON schema is carried as its
  text. The main result is that the constructor is a stable sort guarded by a uniqueness check.
\<close>

section \<open>Capability descriptors\<close>

type_synonym runtime_credential_account_provider_id = string

datatype runtime_credential_target =
    RctHeader string "string option" | RctQueryParam string | RctPathPlaceholder string

datatype runtime_credential_account_setup = ManualToken | OAuth "string list" | RetiredSetup

datatype runtime_credential_requirement_source =
    SrcSecretHandle
  | SrcProductAuthAccount runtime_credential_account_provider_id runtime_credential_account_setup

record runtime_credential_requirement =
  rcr_handle :: secret_handle
  rcr_source :: runtime_credential_requirement_source
  rcr_provider_scopes :: "string list"
  rcr_audience :: network_target_pattern
  rcr_target :: runtime_credential_target
  rcr_required :: bool

record runtime_credential_auth_requirement =
  rca_provider :: runtime_credential_account_provider_id
  rca_setup :: runtime_credential_account_setup
  rca_requester_extension :: extension_id
  rca_provider_scopes :: "string list"

definition product_auth_requirement_for ::
  "runtime_credential_requirement \<Rightarrow> extension_id \<Rightarrow> runtime_credential_auth_requirement option" where
  "product_auth_requirement_for r requester =
     (case rcr_source r of
        SrcSecretHandle \<Rightarrow> None
      | SrcProductAuthAccount provider setup \<Rightarrow>
          Some \<lparr>rca_provider = provider, rca_setup = setup, rca_requester_extension = requester,
                rca_provider_scopes = rcr_provider_scopes r\<rparr>)"

record 'd resource_profile =
  rp_default_estimate :: "'d resource_estimate"
  rp_hard_ceiling :: "'d resource_ceiling option"

record 'd capability_descriptor =
  cd_id :: capability_id
  cd_provider :: extension_id
  cd_runtime :: runtime_kind
  cd_trust_ceiling :: trust_class
  cd_description :: string
  cd_parameters_schema :: string
  cd_effects :: "effect_kind list"
  cd_default_permission :: permission_mode
  cd_runtime_credentials :: "runtime_credential_requirement list"
  cd_network_targets :: "network_target_pattern list"
  cd_resource_profile :: "'d resource_profile option"

section \<open>Obligations\<close>

datatype deny_reason =
    MissingGrant | DenyInvalidPath | PathOutsideMount | UnknownCapability | UnknownSecret
  | NetworkDenied | BudgetDenied | ApprovalDenied | PolicyDenied | ResourceLimitExceeded
  | InternalInvariantViolation

datatype 'd obligation =
    AuditBefore
  | AuditAfter
  | RedactOutput
  | ReserveResources reservation_id
  | UseScopedMounts mount_view
  | InjectSecretOnce secret_handle
  | InjectCredentialAccountOnce secret_handle runtime_credential_account_provider_id
      runtime_credential_account_setup "string list" extension_id
  | FirstPartyCredentialStagedViaHostPort capability_id
  | ApplyNetworkPolicy network_policy
  | EnforceResourceCeiling "'d resource_ceiling"
  | EnforceOutputLimit u64

definition credential_auth_requirement ::
  "'d obligation \<Rightarrow> runtime_credential_auth_requirement option" where
  "credential_auth_requirement ob =
     (case ob of
        InjectCredentialAccountOnce h provider setup scopes requester \<Rightarrow>
          Some \<lparr>rca_provider = provider, rca_setup = setup, rca_requester_extension = requester,
                rca_provider_scopes = scopes\<rparr>
      | _ \<Rightarrow> None)"

datatype obligation_kind =
    OkReserveResources | OkUseScopedMounts | OkApplyNetworkPolicy | OkInjectSecretOnce
  | OkInjectCredentialAccountOnce | OkFirstPartyCredentialStagedViaHostPort | OkAuditBefore
  | OkRedactOutput | OkEnforceResourceCeiling | OkEnforceOutputLimit | OkAuditAfter

definition OBLIGATION_EVALUATION_ORDER :: "obligation_kind list" where
  "OBLIGATION_EVALUATION_ORDER =
     [OkReserveResources, OkUseScopedMounts, OkApplyNetworkPolicy, OkInjectSecretOnce,
      OkInjectCredentialAccountOnce, OkFirstPartyCredentialStagedViaHostPort, OkAuditBefore,
      OkRedactOutput, OkEnforceResourceCeiling, OkEnforceOutputLimit, OkAuditAfter]"

fun kind_of :: "'d obligation \<Rightarrow> obligation_kind" where
  "kind_of AuditBefore = OkAuditBefore"
| "kind_of AuditAfter = OkAuditAfter"
| "kind_of RedactOutput = OkRedactOutput"
| "kind_of (ReserveResources _) = OkReserveResources"
| "kind_of (UseScopedMounts _) = OkUseScopedMounts"
| "kind_of (InjectSecretOnce _) = OkInjectSecretOnce"
| "kind_of (InjectCredentialAccountOnce _ _ _ _ _) = OkInjectCredentialAccountOnce"
| "kind_of (FirstPartyCredentialStagedViaHostPort _) = OkFirstPartyCredentialStagedViaHostPort"
| "kind_of (ApplyNetworkPolicy _) = OkApplyNetworkPolicy"
| "kind_of (EnforceResourceCeiling _) = OkEnforceResourceCeiling"
| "kind_of (EnforceOutputLimit _) = OkEnforceOutputLimit"

fun kind_debug :: "obligation_kind \<Rightarrow> string" where
  "kind_debug OkReserveResources = ''ReserveResources''"
| "kind_debug OkUseScopedMounts = ''UseScopedMounts''"
| "kind_debug OkApplyNetworkPolicy = ''ApplyNetworkPolicy''"
| "kind_debug OkInjectSecretOnce = ''InjectSecretOnce''"
| "kind_debug OkInjectCredentialAccountOnce = ''InjectCredentialAccountOnce''"
| "kind_debug OkFirstPartyCredentialStagedViaHostPort = ''FirstPartyCredentialStagedViaHostPort''"
| "kind_debug OkAuditBefore = ''AuditBefore''"
| "kind_debug OkRedactOutput = ''RedactOutput''"
| "kind_debug OkEnforceResourceCeiling = ''EnforceResourceCeiling''"
| "kind_debug OkEnforceOutputLimit = ''EnforceOutputLimit''"
| "kind_debug OkAuditAfter = ''AuditAfter''"

text \<open>The handle of an injecting obligation; the other variants are unreachable in the code, and the
  callers below only pass obligations of the two injecting kinds.\<close>

fun extract_inject_handle :: "'d obligation \<Rightarrow> secret_handle option" where
  "extract_inject_handle (InjectSecretOnce h) = Some h"
| "extract_inject_handle (InjectCredentialAccountOnce h _ _ _ _) = Some h"
| "extract_inject_handle _ = None"

fun inject_rest ::
  "obligation_kind \<Rightarrow> secret_handle option list \<Rightarrow> 'd obligation list \<Rightarrow> 'd obligation list
    \<Rightarrow> host_api_error + 'd obligation list" where
  "inject_rest kind seen [] normalized = Ok normalized"
| "inject_rest kind seen (ob # rest) normalized =
     (let handle = extract_inject_handle ob in
      if handle \<in> set seen
      then Err (InvariantViolation
             (''duplicate '' @ kind_debug kind @ '' obligations for the same handle are not allowed''))
      else inject_rest kind (handle # seen) rest (normalized @ [ob]))"

definition normalize_multi_inject ::
  "'d obligation \<Rightarrow> 'd obligation list \<Rightarrow> obligation_kind \<Rightarrow> 'd obligation list
    \<Rightarrow> host_api_error + 'd obligation list" where
  "normalize_multi_inject first rest kind normalized =
     inject_rest kind [extract_inject_handle first] rest (normalized @ [first])"

definition is_multi_inject :: "obligation_kind \<Rightarrow> bool" where
  "is_multi_inject kind = (kind = OkInjectSecretOnce \<or> kind = OkInjectCredentialAccountOnce)"

fun normalize_kinds ::
  "'d obligation list \<Rightarrow> obligation_kind list \<Rightarrow> 'd obligation list
    \<Rightarrow> host_api_error + 'd obligation list" where
  "normalize_kinds obs [] normalized = Ok normalized"
| "normalize_kinds obs (kind # kinds) normalized =
     (case filter (\<lambda>ob. kind_of ob = kind) obs of
        [] \<Rightarrow> normalize_kinds obs kinds normalized
      | first # rest \<Rightarrow>
          if is_multi_inject kind
          then rbind (normalize_multi_inject first rest kind normalized) (normalize_kinds obs kinds)
          else if rest \<noteq> []
          then Err (InvariantViolation
                 (''duplicate or conflicting '' @ kind_debug kind @ '' obligations are not allowed''))
          else normalize_kinds obs kinds (normalized @ [first]))"

fun ensure_known_kinds :: "'d obligation list \<Rightarrow> host_api_error + unit" where
  "ensure_known_kinds [] = Ok ()"
| "ensure_known_kinds (ob # obs) =
     (if kind_of ob \<notin> set OBLIGATION_EVALUATION_ORDER
      then Err (InvariantViolation
             (kind_debug (kind_of ob) @ '' is missing from OBLIGATION_EVALUATION_ORDER''))
      else ensure_known_kinds obs)"

definition obligations_new :: "'d obligation list \<Rightarrow> host_api_error + 'd obligation list" where
  "obligations_new obs =
     rbind (ensure_known_kinds obs) (\<lambda>_. normalize_kinds obs OBLIGATION_EVALUATION_ORDER [])"

datatype 'd decision =
    DecisionAllow "'d obligation list"
  | DecisionDeny deny_reason
  | DecisionRequireApproval "'d approval_request"

section \<open>The constructor is a guarded stable sort\<close>

text \<open>The reference: an obligation list is acceptable when no kind occurs twice, except the two
  injecting kinds, which may occur once per handle; the canonical list is the stable sort by the
  position of the kind in the evaluation order.\<close>

fun kind_rank :: "obligation_kind \<Rightarrow> nat" where
  "kind_rank OkReserveResources = 0"
| "kind_rank OkUseScopedMounts = 1"
| "kind_rank OkApplyNetworkPolicy = 2"
| "kind_rank OkInjectSecretOnce = 3"
| "kind_rank OkInjectCredentialAccountOnce = 4"
| "kind_rank OkFirstPartyCredentialStagedViaHostPort = 5"
| "kind_rank OkAuditBefore = 6"
| "kind_rank OkRedactOutput = 7"
| "kind_rank OkEnforceResourceCeiling = 8"
| "kind_rank OkEnforceOutputLimit = 9"
| "kind_rank OkAuditAfter = 10"

definition slot :: "'d obligation \<Rightarrow> obligation_kind \<times> secret_handle option" where
  "slot ob = (kind_of ob, extract_inject_handle ob)"

definition acceptable :: "'d obligation list \<Rightarrow> bool" where
  "acceptable obs = distinct (map slot obs)"

definition canonical_order :: "'d obligation list \<Rightarrow> 'd obligation list" where
  "canonical_order obs = sort_key (kind_rank \<circ> kind_of) obs"

lemma inject_rest_result:
  "inject_rest kind seen obs acc =
     (if distinct (map extract_inject_handle obs) \<and> set (map extract_inject_handle obs) \<inter> set seen = {}
      then Ok (acc @ obs)
      else Err (InvariantViolation
             (''duplicate '' @ kind_debug kind @ '' obligations for the same handle are not allowed'')))"
  by (induction kind seen obs acc rule: inject_rest.induct) (auto simp: Let_def)

lemma order_covers: "kind \<in> set OBLIGATION_EVALUATION_ORDER"
  by (cases kind) (simp_all add: OBLIGATION_EVALUATION_ORDER_def)

lemma ensure_known_kinds_Ok [simp]: "ensure_known_kinds obs = Ok ()"
  by (induction obs) (simp_all add: order_covers)

text \<open>What one kind contributes: its obligations in their original order, when they are acceptable.\<close>

definition of_kind :: "obligation_kind \<Rightarrow> 'd obligation list \<Rightarrow> 'd obligation list" where
  "of_kind kind obs = filter (\<lambda>ob. kind_of ob = kind) obs"

definition kind_ok :: "'d obligation list \<Rightarrow> obligation_kind \<Rightarrow> bool" where
  "kind_ok obs kind = distinct (map slot (of_kind kind obs))"

lemma handle_of_single_kind:
  "\<not> is_multi_inject (kind_of ob) \<Longrightarrow> extract_inject_handle ob = None"
  by (cases ob) (simp_all add: is_multi_inject_def)

lemma of_kind_slots:
  "map slot (of_kind kind obs) = map (Pair kind \<circ> extract_inject_handle) (of_kind kind obs)"
  by (auto simp: of_kind_def slot_def)

lemma kind_ok_handles: "kind_ok obs kind \<longleftrightarrow> distinct (map extract_inject_handle (of_kind kind obs))"
proof -
  have "distinct (map (Pair kind \<circ> extract_inject_handle) (of_kind kind obs))
      \<longleftrightarrow> distinct (map extract_inject_handle (of_kind kind obs))"
    by (auto simp: distinct_map inj_on_def)
  then show ?thesis by (simp only: kind_ok_def of_kind_slots)
qed

lemma kind_ok_single:
  assumes "\<not> is_multi_inject kind" and "of_kind kind obs = first # rest"
  shows "kind_ok obs kind \<longleftrightarrow> rest = []"
proof -
  have "extract_inject_handle ob = None" if "ob \<in> set (first # rest)" for ob
    using that assms handle_of_single_kind [of ob] by (force simp: of_kind_def dest!: filter_eq_ConsD
        arg_cong [where f = set])
  then show ?thesis by (cases rest) (auto simp: kind_ok_handles assms(2))
qed

lemma normalize_kinds_result:
  "(list_all (kind_ok obs) kinds
      \<longrightarrow> normalize_kinds obs kinds acc = Ok (acc @ concat (map (\<lambda>k. of_kind k obs) kinds)))
   \<and> (\<not> list_all (kind_ok obs) kinds \<longrightarrow>
        (\<exists>m. normalize_kinds obs kinds acc = Err (InvariantViolation m)))"
proof (induction kinds arbitrary: acc)
  case Nil
  then show ?case by simp
next
  case (Cons kind kinds)
  note IH = Cons.IH
  show ?case
  proof (cases "of_kind kind obs")
    case Nil
    then have "kind_ok obs kind" by (simp add: kind_ok_def)
    then show ?thesis using IH Nil by (simp add: of_kind_def)
  next
    case (Cons first rest)
    show ?thesis
    proof (cases "is_multi_inject kind")
      case True
      have "kind_ok obs kind \<longleftrightarrow> distinct (map extract_inject_handle rest)
          \<and> set (map extract_inject_handle rest) \<inter> set [extract_inject_handle first] = {}"
        using Cons by (auto simp: kind_ok_handles)
      then show ?thesis
        using IH [of "acc @ first # rest"] Cons True
        by (simp add: of_kind_def normalize_multi_inject_def inject_rest_result)
    next
      case False
      then show ?thesis
        using IH [of "acc @ [first]"] Cons kind_ok_single [OF False Cons]
        by (auto simp: of_kind_def)
    qed
  qed
qed

lemma acceptable_iff: "acceptable obs \<longleftrightarrow> (\<forall>kind. kind_ok obs kind)"
proof (induction obs)
  case Nil
  then show ?case by (simp add: acceptable_def kind_ok_def of_kind_def)
next
  case (Cons ob obs)
  have "slot ob \<in> slot ` set obs \<longleftrightarrow> slot ob \<in> slot ` set (of_kind (kind_of ob) obs)"
    unfolding slot_def of_kind_def image_iff by simp metis
  moreover have "kind_ok (ob # obs) kind \<longleftrightarrow>
      kind_ok obs kind \<and> (kind = kind_of ob \<longrightarrow> slot ob \<notin> slot ` set (of_kind (kind_of ob) obs))" for kind
    by (auto simp: kind_ok_def of_kind_def)
  ultimately show ?case using Cons by (auto simp: acceptable_def)
qed

lemma filter_concat_kinds:
  "distinct kinds \<Longrightarrow> filter (\<lambda>ob. kind_of ob = kind) (concat (map (\<lambda>k. of_kind k obs) kinds))
     = (if kind \<in> set kinds then of_kind kind obs else [])"
proof (induction kinds)
  case (Cons k kinds)
  have "filter (\<lambda>ob. kind_of ob = kind) (of_kind k obs) = (if k = kind then of_kind kind obs else [])"
    by (auto simp: of_kind_def filter_empty_conv intro: filter_cong)
  with Cons show ?case by auto
qed simp

lemma kind_rank_eq [simp]: "kind_rank k = kind_rank k' \<longleftrightarrow> k = k'"
  by (cases k; cases k') simp_all

lemma map_rank_of_kind:
  "map (\<lambda>ob. kind_rank (kind_of ob)) (of_kind k obs) = replicate (length (of_kind k obs)) (kind_rank k)"
  by (induction obs) (simp_all add: of_kind_def)

lemma concat_kinds_eq_sort:
  fixes obs :: "'d obligation list"
  shows "concat (map (\<lambda>k. of_kind k obs) OBLIGATION_EVALUATION_ORDER) = canonical_order obs"
  (is "?ys = _")
proof -
  have d: "distinct OBLIGATION_EVALUATION_ORDER"
    by (simp add: OBLIGATION_EVALUATION_ORDER_def)
  have filt: "filter (\<lambda>ob. kind_of ob = kind) ?ys = filter (\<lambda>ob. kind_of ob = kind) obs" for kind
    using filter_concat_kinds [OF d, of kind obs] order_covers [of kind] by (simp add: of_kind_def)
  have "mset ?ys = mset obs"
  proof (rule multiset_eqI)
    fix ob :: "'d obligation"
    have "count (mset zs) ob = count (mset (filter (\<lambda>x. kind_of x = kind_of ob) zs)) ob"
      for zs :: "'d obligation list"
      by (simp add: count_mset)
    then show "count (mset ?ys) ob = count (mset obs) ob"
      by (metis filt)
  qed
  moreover have "sorted (map (kind_rank \<circ> kind_of) ?ys)"
  proof -
    have "sorted (map (kind_rank \<circ> kind_of) (concat (map (\<lambda>k. of_kind k obs) kinds)))"
      if "sorted (map kind_rank kinds)" for kinds
      using that
      by (induction kinds) (auto simp: sorted_append comp_def of_kind_def map_rank_of_kind [unfolded of_kind_def])
    moreover have "sorted (map kind_rank OBLIGATION_EVALUATION_ORDER)"
      by (simp add: OBLIGATION_EVALUATION_ORDER_def)
    ultimately show ?thesis by blast
  qed
  moreover have filt': "filter (\<lambda>x. kind_of k = kind_of x) ?ys = filter (\<lambda>x. kind_of k = kind_of x) obs"
    for k :: "'d obligation"
    using filt [of "kind_of k"] by (simp only: eq_commute [of "kind_of k"])
  ultimately have "sort_key (kind_rank \<circ> kind_of) obs = ?ys"
    by (intro properties_for_sort_key) (simp_all add: filt')
  then show ?thesis by (simp add: canonical_order_def)
qed

section \<open>Properties\<close>

lemma order_acceptable: "list_all (kind_ok obs) OBLIGATION_EVALUATION_ORDER \<longleftrightarrow> acceptable obs"
  by (auto simp: acceptable_iff list_all_iff order_covers)

lemma obligations_new_Ok: "obligations_new obs = Ok ns \<longleftrightarrow> acceptable obs \<and> ns = canonical_order obs"
  using normalize_kinds_result [of obs OBLIGATION_EVALUATION_ORDER "[]"]
  by (auto simp: obligations_new_def concat_kinds_eq_sort order_acceptable)

lemma obligations_new_Err: "\<not> acceptable obs \<Longrightarrow> \<exists>m. obligations_new obs = Err (InvariantViolation m)"
  using normalize_kinds_result [of obs OBLIGATION_EVALUATION_ORDER "[]"]
  by (simp add: obligations_new_def order_acceptable)

lemma acceptable_mset: "mset obs = mset obs' \<Longrightarrow> acceptable obs = acceptable obs'"
  unfolding acceptable_def by (metis mset_eq_imp_distinct_iff mset_map)

lemma obligations_new_idem:
  assumes "obligations_new obs = Ok ns"
  shows "obligations_new ns = Ok ns"
proof -
  have ns: "acceptable obs" "ns = canonical_order obs" using assms by (simp_all add: obligations_new_Ok)
  then have m: "mset ns = mset obs" by (simp add: canonical_order_def)
  have "sorted (map (kind_rank \<circ> kind_of) ns)" by (simp add: ns canonical_order_def)
  then have "canonical_order ns = ns"
    by (simp add: canonical_order_def properties_for_sort_key)
  then show ?thesis using ns(1) acceptable_mset [OF m] by (simp add: obligations_new_Ok)
qed

text \<open>(C39) Obligations of an allowed action: the constructor is a guarded stable sort. It accepts a
  list exactly when no kind of obligation occurs twice, except that secrets and credential accounts
  may be injected once per handle, and it then returns the same obligations sorted stably into the
  evaluation order. The result is a fixed point of the constructor, so an encoded list decodes to
  itself, and whether a list is accepted does not depend on its order.\<close>

theorem obligations_stable_sort:
  "(case obligations_new obs of
      Inr ns \<Rightarrow> distinct (map slot obs) \<and> ns = sort_key (kind_rank \<circ> kind_of) obs
        \<and> obligations_new ns = Ok ns
    | Inl e \<Rightarrow> \<not> distinct (map slot obs) \<and> (\<exists>m. e = InvariantViolation m))
   \<and> (\<forall>obs'. mset obs' = mset obs \<longrightarrow> is_ok (obligations_new obs') = is_ok (obligations_new obs))"
proof (intro conjI allI impI)
  show "is_ok (obligations_new obs') = is_ok (obligations_new obs)" if "mset obs' = mset obs" for obs'
    using that acceptable_mset by (auto simp: is_ok_iff obligations_new_Ok)
  show "case obligations_new obs of
      Inr ns \<Rightarrow> distinct (map slot obs) \<and> ns = sort_key (kind_rank \<circ> kind_of) obs
        \<and> obligations_new ns = Ok ns
    | Inl e \<Rightarrow> \<not> distinct (map slot obs) \<and> (\<exists>m. e = InvariantViolation m)"
  proof (cases "obligations_new obs")
    case (Inl e)
    then have "\<not> acceptable obs" using obligations_new_Ok [of obs] by auto
    then show ?thesis using obligations_new_Err [of obs] Inl by (auto simp: acceptable_def)
  next
    case (Inr ns)
    moreover have "distinct (map slot obs)" "ns = sort_key (kind_rank \<circ> kind_of) obs"
      using Inr by (simp_all add: obligations_new_Ok acceptable_def canonical_order_def)
    ultimately show ?thesis using obligations_new_idem [OF Inr] by simp
  qed
qed

text \<open>The theorem at a list that is out of order and injects two secrets.\<close>

theorem obligations_stable_sort_witness:
  "\<exists>obs ns :: nat obligation list.
     obs = [AuditAfter, InjectSecretOnce ''b'', RedactOutput, InjectSecretOnce ''a'']
     \<and> ns = [InjectSecretOnce ''b'', InjectSecretOnce ''a'', RedactOutput, AuditAfter]
     \<and> obligations_new obs = Ok ns \<and> obligations_new ns = Ok ns"
proof -
  define obs :: "nat obligation list" where
    "obs = [AuditAfter, InjectSecretOnce ''b'', RedactOutput, InjectSecretOnce ''a'']"
  define ns :: "nat obligation list" where
    "ns = [InjectSecretOnce ''b'', InjectSecretOnce ''a'', RedactOutput, AuditAfter]"
  have ok: "obligations_new obs = Ok ns"
    by (simp add: obs_def ns_def obligations_new_def OBLIGATION_EVALUATION_ORDER_def
        is_multi_inject_def normalize_multi_inject_def)
  have "obligations_new ns = Ok ns"
    using obligations_stable_sort [of obs, THEN conjunct1] unfolding ok sum.case by (elim conjE)
  with ok show ?thesis unfolding obs_def ns_def by blast
qed

end
