(* ===== verification/Audit_Envelopes.thy ===== *)
theory Audit_Envelopes
  imports Decisions
begin

text \<open>
  Audit envelopes (\<open>ironclaw_host_api/src/audit.rs\<close>): the redacted record of an authorization
  decision, its action summary and its two constructors, and the display names the summaries use
  (\<open>action.rs\<close>). The fresh event identifier and the time are arguments; the text of a UUID belongs to
  the \<open>uuid\<close> crate and is a parameter.
\<close>

section \<open>Display names\<close>

definition show_secret_use_mode :: "secret_use_mode \<Rightarrow> string" where
  "show_secret_use_mode m =
     (case m of InjectIntoRequest \<Rightarrow> ''inject_into_request''
      | InjectIntoEnvironment \<Rightarrow> ''inject_into_environment'' | ReadRaw \<Rightarrow> ''read_raw'')"

definition show_network_method :: "network_method \<Rightarrow> string" where
  "show_network_method m =
     (case m of NmGet \<Rightarrow> ''get'' | NmPost \<Rightarrow> ''post'' | NmPut \<Rightarrow> ''put'' | NmPatch \<Rightarrow> ''patch''
      | NmDelete \<Rightarrow> ''delete'' | NmHead \<Rightarrow> ''head'')"

definition show_extension_operation :: "extension_lifecycle_operation \<Rightarrow> string" where
  "show_extension_operation x =
     (case x of ExtInstall \<Rightarrow> ''install'' | ExtUpdate \<Rightarrow> ''update'' | ExtRemove \<Rightarrow> ''remove''
      | ExtEnable \<Rightarrow> ''enable'' | ExtDisable \<Rightarrow> ''disable'')"

section \<open>Envelopes\<close>

datatype audit_stage =
    AuditStageBefore | AuditStageAfter | AuditStageDenied | ApprovalRequested | ApprovalResolved
  | ResourceReserved | ResourceReconciled | ResourceReleased

datatype approval_decision_kind = DecidedApproved | DecidedDenied

definition as_wire_str :: "approval_decision_kind \<Rightarrow> string" where
  "as_wire_str k = (case k of DecidedApproved \<Rightarrow> ''approved'' | DecidedDenied \<Rightarrow> ''denied'')"

record action_summary =
  sum_kind :: string
  sum_target :: "string option"
  sum_effects :: "effect_kind list"

record decision_summary =
  dsum_kind :: string
  dsum_reason :: "deny_reason option"
  dsum_actor :: "principal option"

record action_result_summary =
  ars_success :: bool
  ars_status :: "string option"
  ars_output_bytes :: "u64 option"

record audit_envelope =
  env_event_id :: uuid
  env_correlation_id :: correlation_id
  env_stage :: audit_stage
  env_timestamp :: instant
  env_tenant_id :: tenant_id
  env_user_id :: user_id
  env_agent_id :: "agent_id option"
  env_project_id :: "project_id option"
  env_mission_id :: "mission_id option"
  env_thread_id :: "thread_id option"
  env_invocation_id :: invocation_id
  env_process_id :: "process_id option"
  env_approval_request_id :: "approval_request_id option"
  env_extension_id :: "extension_id option"
  env_action :: action_summary
  env_decision :: decision_summary
  env_result :: "action_result_summary option"

section \<open>Action summaries\<close>

definition summary_new :: "string \<Rightarrow> string option \<Rightarrow> effect_kind list \<Rightarrow> action_summary" where
  "summary_new kind target effects = \<lparr>sum_kind = kind, sum_target = target, sum_effects = effects\<rparr>"

definition summary_capability :: "string \<Rightarrow> capability_id \<Rightarrow> effect_kind list \<Rightarrow> action_summary" where
  "summary_capability kind capability effects = summary_new kind (Some capability) effects"

definition extension_from_principal :: "principal \<Rightarrow> extension_id option" where
  "extension_from_principal p = (case p of PExtension e \<Rightarrow> Some e | _ \<Rightarrow> None)"

definition network_target_text :: "network_method \<Rightarrow> string \<Rightarrow> u16 option \<Rightarrow> string" where
  "network_target_text method host port =
     (case port of
        Some p \<Rightarrow> show_network_method method @ '':'' @ host @ '':'' @ show_nat (unat p)
      | None \<Rightarrow> show_network_method method @ '':'' @ host)"

definition secret_target :: "string \<Rightarrow> secret_use_mode \<Rightarrow> string" where
  "secret_target handle mode = handle @ '':'' @ show_secret_use_mode mode"

fun from_action :: "(uuid \<Rightarrow> string) \<Rightarrow> 'd action \<Rightarrow> action_summary" where
  "from_action txt (ActReadFile path) = summary_new ''read_file'' (Some path) [EffReadFilesystem]"
| "from_action txt (ActListDir path) = summary_new ''list_dir'' (Some path) [EffReadFilesystem]"
| "from_action txt (ActWriteFile path _) = summary_new ''write_file'' (Some path) [EffWriteFilesystem]"
| "from_action txt (ActDeleteFile path) = summary_new ''delete_file'' (Some path) [EffDeleteFilesystem]"
| "from_action txt (ActDispatch capability _) =
     summary_capability ''dispatch'' capability [EffDispatchCapability]"
| "from_action txt (ActSpawnCapability capability _) =
     summary_capability ''spawn_capability'' capability [EffDispatchCapability, EffSpawnProcess]"
| "from_action txt (ActUseSecret handle mode) =
     summary_new ''use_secret'' (Some (secret_target handle mode)) [EffUseSecret]"
| "from_action txt (ActNetwork target method _) =
     summary_new ''network'' (Some (network_target_text method (nt_host target) (nt_port target)))
       [EffNetwork]"
| "from_action txt (ActReserveResources _) = summary_new ''reserve_resources'' None [EffModifyBudget]"
| "from_action txt (ActApprove request) =
     summary_new ''approve'' (Some (txt (req_id request))) [EffModifyApproval]"
| "from_action txt (ActExtensionLifecycle extension operation) =
     summary_new ''extension_lifecycle''
       (Some (extension @ '':'' @ show_extension_operation operation)) [EffModifyExtension]"
| "from_action txt (ActEmitExternalEffect effect) = summary_new ''emit_external_effect'' None [effect]"

section \<open>Constructors\<close>

definition envelope_denied ::
  "uuid \<Rightarrow> instant \<Rightarrow> 'd execution_context \<Rightarrow> audit_stage \<Rightarrow> action_summary \<Rightarrow> deny_reason
    \<Rightarrow> audit_envelope" where
  "envelope_denied event now c stage action reason =
     \<lparr>env_event_id = event, env_correlation_id = ctx_correlation_id c, env_stage = stage,
      env_timestamp = now, env_tenant_id = ctx_tenant_id c, env_user_id = ctx_user_id c,
      env_agent_id = ctx_agent_id c, env_project_id = ctx_project_id c,
      env_mission_id = ctx_mission_id c, env_thread_id = ctx_thread_id c,
      env_invocation_id = ctx_invocation_id c, env_process_id = ctx_process_id c,
      env_approval_request_id = None, env_extension_id = Some (ctx_extension_id c),
      env_action = action,
      env_decision = \<lparr>dsum_kind = ''deny'', dsum_reason = Some reason, dsum_actor = None\<rparr>,
      env_result = None\<rparr>"

definition approval_resolved ::
  "(uuid \<Rightarrow> string) \<Rightarrow> uuid \<Rightarrow> instant \<Rightarrow> resource_scope \<Rightarrow> 'd approval_request \<Rightarrow> principal
    \<Rightarrow> approval_decision_kind \<Rightarrow> audit_envelope" where
  "approval_resolved txt event now sc request resolved_by decision =
     \<lparr>env_event_id = event, env_correlation_id = req_correlation_id request,
      env_stage = ApprovalResolved, env_timestamp = now,
      env_tenant_id = tenant_id sc, env_user_id = user_id sc,
      env_agent_id = agent_id sc, env_project_id = project_id sc,
      env_mission_id = mission_id sc, env_thread_id = thread_id sc,
      env_invocation_id = invocation_id sc, env_process_id = None,
      env_approval_request_id = Some (req_id request),
      env_extension_id = extension_from_principal (req_requested_by request),
      env_action = from_action txt (req_action request),
      env_decision = \<lparr>dsum_kind = as_wire_str decision, dsum_reason = None,
        dsum_actor = Some resolved_by\<rparr>,
      env_result = None\<rparr>"

lemma as_wire_str_inject [simp]: "as_wire_str a = as_wire_str b \<longleftrightarrow> a = b"
  by (simp add: as_wire_str_def split: approval_decision_kind.splits)

end
