(* ===== verification/Trust_Policy.thy ===== *)
theory Trust_Policy
  imports Host_Actions
begin

text \<open>
  Host trust policy: package identities and requested trust (\<open>ironclaw_host_api/src/trust.rs\<close>),
  and the policy engine of \<open>ironclaw_trust\<close> (\<open>decision.rs\<close>, \<open>sources.rs\<close>, \<open>policy.rs\<close>,
  \<open>invalidation.rs\<close>). The chain of sources is a list of the four source types the crate has; their
  tables are hash maps. The closure given to \<open>mutate_with\<close> may call the mutator handles in any order
  and react to what they return, and can reach the sources in no other way: it is a tree of calls.
  The write gate makes \<open>mutate_with\<close> one step, publication included; listeners are named by values
  and a publication is the list of notifications in registration order.

  \<open>EffectiveTrustClass\<close> and \<open>HostTrustAssignment\<close> wrap a trust class and are modelled by it.
\<close>

section \<open>Package identities\<close>

type_synonym package_id = string

datatype requested_trust_class = Untrusted | ThirdParty | FirstPartyRequested | SystemRequested

datatype package_source =
    PsBundled | PsLocalManifest string | PsRegistry string | PsAdmin

record package_identity =
  pi_package_id :: package_id
  pi_source :: package_source
  pi_digest :: "string option"
  pi_signer :: "string option"

section \<open>Effective trust and authority ceilings\<close>

type_synonym effective_trust_class = trust_class
type_synonym host_trust_assignment = trust_class

definition is_privileged :: "effective_trust_class \<Rightarrow> bool" where
  "is_privileged c = (c = TcFirstParty \<or> c = TcSystem)"

fun authority_level :: "effective_trust_class \<Rightarrow> u8" where
  "authority_level TcSandbox = 0"
| "authority_level TcUserTrusted = 1"
| "authority_level TcFirstParty = 2"
| "authority_level TcSystem = 2"

datatype trust_provenance =
    ProvDefault | ProvBundled | ProvAdminConfig | ProvSignedRegistry string | ProvLocalManifest

record 'd authority_ceiling =
  ac_allowed_effects :: "effect_kind list"
  ac_max_resource_ceiling :: "'d resource_ceiling option"

definition ceiling_empty :: "'d authority_ceiling" where
  "ceiling_empty = \<lparr>ac_allowed_effects = [], ac_max_resource_ceiling = None\<rparr>"

definition allows_effect :: "'d authority_ceiling \<Rightarrow> effect_kind \<Rightarrow> bool" where
  "allows_effect c e = (e \<in> set (ac_allowed_effects c))"

fun limit_reduced :: "'a::linorder option \<Rightarrow> 'a option \<Rightarrow> bool" where
  "limit_reduced None (Some _) = True"
| "limit_reduced (Some previous) (Some current) = (current < previous)"
| "limit_reduced None None = False"
| "limit_reduced (Some _) None = False"

fun sandbox_quota_reduced :: "sandbox_quota option \<Rightarrow> sandbox_quota option \<Rightarrow> bool" where
  "sandbox_quota_reduced None (Some _) = True"
| "sandbox_quota_reduced None None = False"
| "sandbox_quota_reduced (Some _) None = False"
| "sandbox_quota_reduced (Some previous) (Some current) =
     (limit_reduced (sq_cpu_time_ms previous) (sq_cpu_time_ms current)
      \<or> limit_reduced (sq_memory_bytes previous) (sq_memory_bytes current)
      \<or> limit_reduced (sq_disk_bytes previous) (sq_disk_bytes current)
      \<or> limit_reduced (sq_network_egress_bytes previous) (sq_network_egress_bytes current)
      \<or> limit_reduced (sq_process_count previous) (sq_process_count current))"

fun resource_ceiling_reduced ::
  "'d::linorder resource_ceiling option \<Rightarrow> 'd resource_ceiling option \<Rightarrow> bool" where
  "resource_ceiling_reduced None (Some _) = True"
| "resource_ceiling_reduced None None = False"
| "resource_ceiling_reduced (Some _) None = False"
| "resource_ceiling_reduced (Some previous) (Some current) =
     (limit_reduced (ceil_usd previous) (ceil_usd current)
      \<or> limit_reduced (ceil_input_tokens previous) (ceil_input_tokens current)
      \<or> limit_reduced (ceil_output_tokens previous) (ceil_output_tokens current)
      \<or> limit_reduced (ceil_wall_clock_ms previous) (ceil_wall_clock_ms current)
      \<or> limit_reduced (ceil_output_bytes previous) (ceil_output_bytes current)
      \<or> sandbox_quota_reduced (ceil_sandbox previous) (ceil_sandbox current))"

definition is_reduction_from :: "'d::linorder authority_ceiling \<Rightarrow> 'd authority_ceiling \<Rightarrow> bool" where
  "is_reduction_from current previous =
     (list_ex (\<lambda>e. e \<notin> set (ac_allowed_effects current)) (ac_allowed_effects previous)
      \<or> resource_ceiling_reduced (ac_max_resource_ceiling previous) (ac_max_resource_ceiling current))"

record 'd trust_decision =
  td_effective_trust :: effective_trust_class
  td_authority_ceiling :: "'d authority_ceiling"
  td_provenance :: trust_provenance
  td_evaluated_at :: instant

datatype trust_error = TrustInvariantViolation string

section \<open>Policy sources\<close>

record trust_policy_input =
  tpi_identity :: package_identity
  tpi_requested_trust :: requested_trust_class
  tpi_requested_authority :: "capability_id list"

record 'd source_match =
  sm_effective_trust :: effective_trust_class
  sm_provenance :: trust_provenance
  sm_allowed_effects :: "effect_kind list"
  sm_max_resource_ceiling :: "'d resource_ceiling option"

record 'd bundled_entry =
  be_package_id :: package_id
  be_digest :: "string option"
  be_effective_trust :: effective_trust_class
  be_allowed_effects :: "effect_kind list"
  be_max_resource_ceiling :: "'d resource_ceiling option"

record 'd admin_entry =
  ae_package_id :: package_id
  ae_source :: package_source
  ae_digest :: "string option"
  ae_effective_trust :: effective_trust_class
  ae_allowed_effects :: "effect_kind list"
  ae_max_resource_ceiling :: "'d resource_ceiling option"

record 'd signer_entry =
  se_signer :: string
  se_label :: "string option"
  se_effective_trust :: effective_trust_class
  se_allowed_effects :: "effect_kind list"
  se_max_resource_ceiling :: "'d resource_ceiling option"

definition bundled_entry_new where
  "bundled_entry_new pid digest trust effects ceiling =
     \<lparr>be_package_id = pid, be_digest = digest, be_effective_trust = trust,
      be_allowed_effects = effects, be_max_resource_ceiling = ceiling\<rparr>"

definition admin_entry_for_bundled where
  "admin_entry_for_bundled pid digest trust effects ceiling =
     \<lparr>ae_package_id = pid, ae_source = PsBundled, ae_digest = digest, ae_effective_trust = trust,
      ae_allowed_effects = effects, ae_max_resource_ceiling = ceiling\<rparr>"

definition admin_entry_for_registry where
  "admin_entry_for_registry pid url digest trust effects ceiling =
     \<lparr>ae_package_id = pid, ae_source = PsRegistry url, ae_digest = digest, ae_effective_trust = trust,
      ae_allowed_effects = effects, ae_max_resource_ceiling = ceiling\<rparr>"

definition admin_entry_for_admin where
  "admin_entry_for_admin pid trust effects ceiling =
     \<lparr>ae_package_id = pid, ae_source = PsAdmin, ae_digest = None, ae_effective_trust = trust,
      ae_allowed_effects = effects, ae_max_resource_ceiling = ceiling\<rparr>"

definition admin_entry_for_local_manifest where
  "admin_entry_for_local_manifest pid path digest trust effects ceiling =
     \<lparr>ae_package_id = pid, ae_source = PsLocalManifest path, ae_digest = digest,
      ae_effective_trust = trust, ae_allowed_effects = effects, ae_max_resource_ceiling = ceiling\<rparr>"

type_synonym 'd bundled_registry = "(package_id, 'd bundled_entry) hmap"
type_synonym admin_subject = "package_id \<times> package_source"
type_synonym 'd admin_config = "(admin_subject, 'd admin_entry) hmap"
type_synonym 'd signed_registry = "(string, 'd signer_entry) hmap"

definition bundled_upsert_entry :: "'d bundled_entry \<Rightarrow> 'd bundled_registry \<Rightarrow> 'd bundled_registry" where
  "bundled_upsert_entry e m = hput (be_package_id e) e m"

definition admin_subject_from_entry :: "'d admin_entry \<Rightarrow> admin_subject" where
  "admin_subject_from_entry e = (ae_package_id e, ae_source e)"

definition admin_upsert_entry :: "'d admin_entry \<Rightarrow> 'd admin_config \<Rightarrow> 'd admin_config" where
  "admin_upsert_entry e m = hput (admin_subject_from_entry e) e m"

definition signed_upsert_entry :: "'d signer_entry \<Rightarrow> 'd signed_registry \<Rightarrow> 'd signed_registry" where
  "signed_upsert_entry e m = hput (se_signer e) e m"

definition bundled_with_entries :: "'d bundled_entry list \<Rightarrow> 'd bundled_registry" where
  "bundled_with_entries es = fold bundled_upsert_entry es hempty"

definition admin_with_entries :: "'d admin_entry list \<Rightarrow> 'd admin_config" where
  "admin_with_entries es = fold admin_upsert_entry es hempty"

definition signed_with_signers :: "'d signer_entry list \<Rightarrow> 'd signed_registry" where
  "signed_with_signers es = fold signed_upsert_entry es hempty"

text \<open>The digest pin shared by the two active sources: a pinned entry matches only the same digest.\<close>

definition digest_matches :: "string option \<Rightarrow> string option \<Rightarrow> bool" where
  "digest_matches pinned actual = (case pinned of None \<Rightarrow> True | Some d \<Rightarrow> actual = Some d)"

definition bundled_evaluate ::
  "'d bundled_registry \<Rightarrow> trust_policy_input \<Rightarrow> trust_error + 'd source_match option" where
  "bundled_evaluate entries input =
     (if pi_source (tpi_identity input) \<noteq> PsBundled then Ok None
      else case hget entries (pi_package_id (tpi_identity input)) of
        None \<Rightarrow> Ok None
      | Some entry \<Rightarrow>
          if \<not> digest_matches (be_digest entry) (pi_digest (tpi_identity input)) then Ok None
          else Ok (Some \<lparr>sm_effective_trust = be_effective_trust entry, sm_provenance = ProvBundled,
                         sm_allowed_effects = be_allowed_effects entry,
                         sm_max_resource_ceiling = be_max_resource_ceiling entry\<rparr>))"

definition admin_evaluate ::
  "'d admin_config \<Rightarrow> trust_policy_input \<Rightarrow> trust_error + 'd source_match option" where
  "admin_evaluate entries input =
     (case hget entries (pi_package_id (tpi_identity input), pi_source (tpi_identity input)) of
        None \<Rightarrow> Ok None
      | Some entry \<Rightarrow>
          if \<not> digest_matches (ae_digest entry) (pi_digest (tpi_identity input)) then Ok None
          else Ok (Some \<lparr>sm_effective_trust = ae_effective_trust entry, sm_provenance = ProvAdminConfig,
                         sm_allowed_effects = ae_allowed_effects entry,
                         sm_max_resource_ceiling = ae_max_resource_ceiling entry\<rparr>))"

definition signed_evaluate ::
  "'d signed_registry \<Rightarrow> trust_policy_input \<Rightarrow> trust_error + 'd source_match option" where
  "signed_evaluate entries input = Ok None"

definition local_dev_evaluate ::
  "bool \<Rightarrow> trust_policy_input \<Rightarrow> trust_error + 'd source_match option" where
  "local_dev_evaluate enabled input = (if \<not> enabled then Ok None else Ok None)"

datatype 'd policy_source =
    BundledRegistry "'d bundled_registry"
  | AdminConfig "'d admin_config"
  | SignedRegistry "'d signed_registry"
  | LocalDevOverride "(package_id, 'd admin_entry) hmap" bool

datatype source_type = StBundled | StAdmin | StSigned | StLocalDev

fun type_of_source :: "'d policy_source \<Rightarrow> source_type" where
  "type_of_source (BundledRegistry _) = StBundled"
| "type_of_source (AdminConfig _) = StAdmin"
| "type_of_source (SignedRegistry _) = StSigned"
| "type_of_source (LocalDevOverride _ _) = StLocalDev"

fun source_name :: "'d policy_source \<Rightarrow> string" where
  "source_name (BundledRegistry _) = ''bundled''"
| "source_name (AdminConfig _) = ''admin_config''"
| "source_name (SignedRegistry _) = ''signed_registry''"
| "source_name (LocalDevOverride _ _) = ''local_dev_override''"

fun source_evaluate ::
  "'d policy_source \<Rightarrow> trust_policy_input \<Rightarrow> trust_error + 'd source_match option" where
  "source_evaluate (BundledRegistry m) input = bundled_evaluate m input"
| "source_evaluate (AdminConfig m) input = admin_evaluate m input"
| "source_evaluate (SignedRegistry m) input = signed_evaluate m input"
| "source_evaluate (LocalDevOverride _ enabled) input = local_dev_evaluate enabled input"

section \<open>The policy\<close>

type_synonym 'd host_trust_policy = "'d policy_source list"

fun ensure_unique_source_types :: "source_type list \<Rightarrow> 'd policy_source list \<Rightarrow> trust_error + unit" where
  "ensure_unique_source_types seen [] = Ok ()"
| "ensure_unique_source_types seen (s # ss) =
     (if type_of_source s \<in> set seen
      then Err (TrustInvariantViolation
             (''policy chain contains duplicate source type `'' @ source_name s @ ''`''))
      else ensure_unique_source_types (type_of_source s # seen) ss)"

definition ensure_source_type_absent ::
  "'d policy_source list \<Rightarrow> 'd policy_source \<Rightarrow> trust_error + unit" where
  "ensure_source_type_absent sources candidate =
     (if list_ex (\<lambda>s. type_of_source s = type_of_source candidate) sources
      then Err (TrustInvariantViolation
             (''policy chain already contains source type `'' @ source_name candidate @ ''`''))
      else Ok ())"

definition policy_new :: "'d policy_source list \<Rightarrow> trust_error + 'd host_trust_policy" where
  "policy_new sources = rbind (ensure_unique_source_types [] sources) (\<lambda>_. Ok sources)"

definition policy_fail_closed :: "'d host_trust_policy" where
  "policy_fail_closed = []"

definition has_sources :: "'d host_trust_policy \<Rightarrow> bool" where
  "has_sources p = (p \<noteq> [])"

definition add_source ::
  "'d host_trust_policy \<Rightarrow> 'd policy_source \<Rightarrow> 'd host_trust_policy \<times> (trust_error + unit)" where
  "add_source p s =
     (case ensure_source_type_absent p s of
        Inl e \<Rightarrow> (p, Err e)
      | Inr _ \<Rightarrow> (p @ [s], Ok ()))"

definition default_decision :: "trust_policy_input \<Rightarrow> instant \<Rightarrow> 'd trust_decision" where
  "default_decision input now =
     \<lparr>td_effective_trust = TcSandbox, td_authority_ceiling = ceiling_empty,
      td_provenance = ProvDefault, td_evaluated_at = now\<rparr>"

fun evaluate_unlocked ::
  "instant \<Rightarrow> 'd host_trust_policy \<Rightarrow> trust_policy_input \<Rightarrow> trust_error + 'd trust_decision" where
  "evaluate_unlocked now [] input = Ok (default_decision input now)"
| "evaluate_unlocked now (source # sources) input =
     rbind (source_evaluate source input) (\<lambda>r.
       case r of
         Some matched \<Rightarrow>
           Ok \<lparr>td_effective_trust = sm_effective_trust matched,
               td_authority_ceiling =
                 \<lparr>ac_allowed_effects = sm_allowed_effects matched,
                  ac_max_resource_ceiling = sm_max_resource_ceiling matched\<rparr>,
               td_provenance = sm_provenance matched, td_evaluated_at = now\<rparr>
       | None \<Rightarrow> evaluate_unlocked now sources input)"

section \<open>Changes and the invalidation bus\<close>

record 'd trust_change =
  tc_identity :: package_identity
  tc_previous :: effective_trust_class
  tc_current :: effective_trust_class
  tc_previous_authority_ceiling :: "'d authority_ceiling"
  tc_current_authority_ceiling :: "'d authority_ceiling"
  tc_effective_at :: instant

definition trust_change_new ::
  "package_identity \<Rightarrow> 'd::linorder trust_decision \<Rightarrow> 'd trust_decision \<Rightarrow> 'd trust_change option" where
  "trust_change_new identity previous current =
     (let reduced = is_reduction_from (td_authority_ceiling current) (td_authority_ceiling previous) in
      if td_effective_trust previous = td_effective_trust current \<and> \<not> reduced then None
      else Some \<lparr>tc_identity = identity, tc_previous = td_effective_trust previous,
                 tc_current = td_effective_trust current,
                 tc_previous_authority_ceiling = td_authority_ceiling previous,
                 tc_current_authority_ceiling = td_authority_ceiling current,
                 tc_effective_at = td_evaluated_at current\<rparr>)"

definition is_downgrade :: "'d trust_change \<Rightarrow> bool" where
  "is_downgrade c = (authority_level (tc_current c) < authority_level (tc_previous c))"

definition is_upgrade :: "'d trust_change \<Rightarrow> bool" where
  "is_upgrade c = (authority_level (tc_current c) > authority_level (tc_previous c))"

definition is_kind_change :: "'d trust_change \<Rightarrow> bool" where
  "is_kind_change c =
     (tc_previous c \<noteq> tc_current c \<and> authority_level (tc_current c) = authority_level (tc_previous c))"

definition authority_ceiling_reduced :: "'d::linorder trust_change \<Rightarrow> bool" where
  "authority_ceiling_reduced c =
     is_reduction_from (tc_current_authority_ceiling c) (tc_previous_authority_ceiling c)"

type_synonym ('l, 'd) notifications = "('l \<times> 'd trust_change) list"

definition bus_publish :: "'l list \<Rightarrow> 'd::linorder trust_change \<Rightarrow> ('l, 'd) notifications" where
  "bus_publish listeners change =
     (if tc_previous change = tc_current change \<and> \<not> authority_ceiling_reduced change then []
      else map (\<lambda>l. (l, change)) listeners)"

definition bus_register :: "'l list \<Rightarrow> 'l \<Rightarrow> 'l list" where
  "bus_register listeners l = listeners @ [l]"

definition identity_changed :: "package_identity \<Rightarrow> package_identity \<Rightarrow> bool" where
  "identity_changed prev cur =
     (pi_package_id prev \<noteq> pi_package_id cur \<or> pi_source prev \<noteq> pi_source cur
      \<or> pi_digest prev \<noteq> pi_digest cur \<or> pi_signer prev \<noteq> pi_signer cur)"

definition authority_changed :: "capability_id list \<Rightarrow> capability_id list \<Rightarrow> bool" where
  "authority_changed prev cur = (set prev \<noteq> set cur)"

definition grant_retention_eligible where
  "grant_retention_eligible prev_identity curr_identity (prev_trust :: effective_trust_class) curr_trust
       prev_authority curr_authority =
     (\<not> identity_changed prev_identity curr_identity \<and> prev_trust = curr_trust
      \<and> \<not> authority_changed prev_authority curr_authority)"

section \<open>Mutating the policy\<close>

datatype 'd source_mutation =
    BundledUpsert "'d bundled_entry"
  | BundledRemove package_id
  | AdminUpsert "'d admin_entry"
  | AdminRemove package_id package_source
  | SignedUpsert "'d signer_entry"
  | SignedRemove string

fun type_name :: "source_type \<Rightarrow> string" where
  "type_name StBundled = ''ironclaw_trust::sources::BundledRegistry''"
| "type_name StAdmin = ''ironclaw_trust::sources::AdminConfig''"
| "type_name StSigned = ''ironclaw_trust::sources::SignedRegistry''"
| "type_name StLocalDev = ''ironclaw_trust::sources::LocalDevOverride''"

definition find_source :: "source_type \<Rightarrow> 'd policy_source list \<Rightarrow> trust_error + 'd policy_source" where
  "find_source t sources =
     (case filter (\<lambda>s. type_of_source s = t) sources of
        [] \<Rightarrow> Err (TrustInvariantViolation
                (''policy chain does not contain a source of type `'' @ type_name t @ ''`''))
      | [first] \<Rightarrow> Ok first
      | _ \<Rightarrow> Err (TrustInvariantViolation
                (''policy chain contains duplicate source type `'' @ type_name t @ ''`'')))"

fun mutation_target :: "'d source_mutation \<Rightarrow> source_type" where
  "mutation_target (BundledUpsert _) = StBundled"
| "mutation_target (BundledRemove _) = StBundled"
| "mutation_target (AdminUpsert _) = StAdmin"
| "mutation_target (AdminRemove _ _) = StAdmin"
| "mutation_target (SignedUpsert _) = StSigned"
| "mutation_target (SignedRemove _) = StSigned"

fun apply_mutation :: "'d source_mutation \<Rightarrow> 'd policy_source \<Rightarrow> 'd policy_source" where
  "apply_mutation (BundledUpsert e) (BundledRegistry m) = BundledRegistry (bundled_upsert_entry e m)"
| "apply_mutation (BundledRemove pid) (BundledRegistry m) = BundledRegistry (hdel pid m)"
| "apply_mutation (AdminUpsert e) (AdminConfig m) = AdminConfig (admin_upsert_entry e m)"
| "apply_mutation (AdminRemove pid src) (AdminConfig m) = AdminConfig (hdel (pid, src) m)"
| "apply_mutation (SignedUpsert e) (SignedRegistry m) = SignedRegistry (signed_upsert_entry e m)"
| "apply_mutation (SignedRemove signer) (SignedRegistry m) = SignedRegistry (hdel signer m)"
| "apply_mutation _ s = s"

fun commit :: "'d policy_source list \<Rightarrow> 'd source_mutation list \<Rightarrow> 'd policy_source list \<times> (trust_error + unit)"
where
  "commit sources [] = (sources, Ok ())"
| "commit sources (m # ms) =
     (case find_source (mutation_target m) sources of
        Inl e \<Rightarrow> (sources, Err e)
      | Inr _ \<Rightarrow> commit (map (apply_mutation m) sources) ms)"

text \<open>A closure of \<open>mutate_with\<close>: a tree of calls of the mutator handles. A removal answers with the
  entry that is committed, not the one the staged operations would leave.\<close>

datatype ('d, 'r) mutation_closure =
    Finish "trust_error + 'r"
  | CallBundledUpsert "'d bundled_entry" "trust_error + unit \<Rightarrow> ('d, 'r) mutation_closure"
  | CallBundledRemove package_id "trust_error + 'd bundled_entry option \<Rightarrow> ('d, 'r) mutation_closure"
  | CallAdminUpsert "'d admin_entry" "trust_error + unit \<Rightarrow> ('d, 'r) mutation_closure"
  | CallAdminRemove package_id package_source
      "trust_error + 'd admin_entry option \<Rightarrow> ('d, 'r) mutation_closure"
  | CallSignedUpsert "'d signer_entry" "trust_error + unit \<Rightarrow> ('d, 'r) mutation_closure"
  | CallSignedRemove string "trust_error + 'd signer_entry option \<Rightarrow> ('d, 'r) mutation_closure"

type_synonym 'd staged = "'d source_mutation list"

definition stage_upsert ::
  "'d policy_source list \<Rightarrow> 'd source_mutation \<Rightarrow> 'd staged \<Rightarrow> 'd staged \<times> (trust_error + unit)" where
  "stage_upsert sources m staged =
     (case find_source (mutation_target m) sources of
        Inl e \<Rightarrow> (staged, Err e)
      | Inr _ \<Rightarrow> (staged @ [m], Ok ()))"

definition bundled_upsert where
  "bundled_upsert sources entry staged = stage_upsert sources (BundledUpsert entry) staged"

definition admin_upsert where
  "admin_upsert sources entry staged = stage_upsert sources (AdminUpsert entry) staged"

definition signed_upsert where
  "signed_upsert sources entry staged = stage_upsert sources (SignedUpsert entry) staged"

definition bundled_remove ::
  "'d policy_source list \<Rightarrow> package_id \<Rightarrow> 'd staged \<Rightarrow> 'd staged \<times> (trust_error + 'd bundled_entry option)"
where
  "bundled_remove sources pid staged =
     (case find_source StBundled sources of
        Inr (BundledRegistry m) \<Rightarrow> (staged @ [BundledRemove pid], Ok (hget m pid))
      | Inr _ \<Rightarrow> (staged, Ok None)
      | Inl e \<Rightarrow> (staged, Err e))"

definition admin_remove ::
  "'d policy_source list \<Rightarrow> package_id \<Rightarrow> package_source \<Rightarrow> 'd staged
    \<Rightarrow> 'd staged \<times> (trust_error + 'd admin_entry option)"
where
  "admin_remove sources pid src staged =
     (case find_source StAdmin sources of
        Inr (AdminConfig m) \<Rightarrow> (staged @ [AdminRemove pid src], Ok (hget m (pid, src)))
      | Inr _ \<Rightarrow> (staged, Ok None)
      | Inl e \<Rightarrow> (staged, Err e))"

definition signed_remove ::
  "'d policy_source list \<Rightarrow> string \<Rightarrow> 'd staged \<Rightarrow> 'd staged \<times> (trust_error + 'd signer_entry option)"
where
  "signed_remove sources signer staged =
     (case find_source StSigned sources of
        Inr (SignedRegistry m) \<Rightarrow> (staged @ [SignedRemove signer], Ok (hget m signer))
      | Inr _ \<Rightarrow> (staged, Ok None)
      | Inl e \<Rightarrow> (staged, Err e))"

primrec run_closure ::
  "('d, 'r) mutation_closure \<Rightarrow> 'd policy_source list \<Rightarrow> 'd staged \<Rightarrow> 'd staged \<times> (trust_error + 'r)" where
  "run_closure (Finish r) sources staged = (staged, r)"
| "run_closure (CallBundledUpsert e k) sources staged =
     (case bundled_upsert sources e staged of (staged', r) \<Rightarrow> run_closure (k r) sources staged')"
| "run_closure (CallBundledRemove pid k) sources staged =
     (case bundled_remove sources pid staged of (staged', r) \<Rightarrow> run_closure (k r) sources staged')"
| "run_closure (CallAdminUpsert e k) sources staged =
     (case admin_upsert sources e staged of (staged', r) \<Rightarrow> run_closure (k r) sources staged')"
| "run_closure (CallAdminRemove pid src k) sources staged =
     (case admin_remove sources pid src staged of (staged', r) \<Rightarrow> run_closure (k r) sources staged')"
| "run_closure (CallSignedUpsert e k) sources staged =
     (case signed_upsert sources e staged of (staged', r) \<Rightarrow> run_closure (k r) sources staged')"
| "run_closure (CallSignedRemove signer k) sources staged =
     (case signed_remove sources signer staged of (staged', r) \<Rightarrow> run_closure (k r) sources staged')"

text \<open>The instants are those of the clock at the two evaluations.\<close>

definition mutate_with ::
  "'d::linorder host_trust_policy \<Rightarrow> 'l list \<Rightarrow> package_identity \<Rightarrow> capability_id list
    \<Rightarrow> requested_trust_class \<Rightarrow> instant \<Rightarrow> instant \<Rightarrow> ('d, 'r) mutation_closure
    \<Rightarrow> 'd host_trust_policy \<times> ('l, 'd) notifications \<times> (trust_error + 'r)" where
  "mutate_with policy bus identity authority trust now1 now2 f =
     (let probe = \<lparr>tpi_identity = identity, tpi_requested_trust = trust,
                   tpi_requested_authority = authority\<rparr> in
      case evaluate_unlocked now1 policy probe of
        Inl e \<Rightarrow> (policy, [], Err e)
      | Inr prev \<Rightarrow>
          (case run_closure f policy [] of
             (staged, Inl e) \<Rightarrow> (policy, [], Err e)
           | (staged, Inr result) \<Rightarrow>
               (case commit policy staged of
                  (policy', Inl e) \<Rightarrow> (policy', [], Err e)
                | (policy', Inr _) \<Rightarrow>
                    (case evaluate_unlocked now2 policy' probe of
                       Inl e \<Rightarrow> (policy', [], Err e)
                     | Inr now_decision \<Rightarrow>
                         (policy',
                          (case trust_change_new identity prev now_decision of
                             None \<Rightarrow> []
                           | Some change \<Rightarrow> bus_publish bus change),
                          Ok result)))))"

section \<open>Who vouches for a package\<close>

text \<open>The host entries that speak for an identity, read off the tables: a bundled entry of its name
  when it is bundled, an administrator's entry of its name and source, each with its digest pin.\<close>

definition decision_of ::
  "effective_trust_class \<Rightarrow> effect_kind list \<Rightarrow> 'd resource_ceiling option \<Rightarrow> trust_provenance \<Rightarrow> instant
    \<Rightarrow> 'd trust_decision" where
  "decision_of trust effects ceiling prov now =
     \<lparr>td_effective_trust = trust,
      td_authority_ceiling = \<lparr>ac_allowed_effects = effects, ac_max_resource_ceiling = ceiling\<rparr>,
      td_provenance = prov, td_evaluated_at = now\<rparr>"

fun vouches :: "'d policy_source \<Rightarrow> package_identity \<Rightarrow> instant \<Rightarrow> 'd trust_decision \<Rightarrow> bool" where
  "vouches (BundledRegistry m) i now d =
     (pi_source i = PsBundled
      \<and> (\<exists>e. hget m (pi_package_id i) = Some e \<and> (be_digest e = None \<or> be_digest e = pi_digest i)
          \<and> d = decision_of (be_effective_trust e) (be_allowed_effects e) (be_max_resource_ceiling e)
                  ProvBundled now))"
| "vouches (AdminConfig m) i now d =
     (\<exists>e. hget m (pi_package_id i, pi_source i) = Some e \<and> (ae_digest e = None \<or> ae_digest e = pi_digest i)
        \<and> d = decision_of (ae_effective_trust e) (ae_allowed_effects e) (ae_max_resource_ceiling e)
                ProvAdminConfig now)"
| "vouches (SignedRegistry m) i now d = False"
| "vouches (LocalDevOverride m en) i now d = False"

lemma digest_matches_iff: "digest_matches pinned actual \<longleftrightarrow> pinned = None \<or> pinned = actual"
  by (auto simp: digest_matches_def split: option.splits)

lemma source_evaluate_total: "\<exists>r. source_evaluate s input = Ok r"
  by (cases s) (auto simp: bundled_evaluate_def admin_evaluate_def signed_evaluate_def
      local_dev_evaluate_def split: option.splits)

lemma evaluate_total: "\<exists>d. evaluate_unlocked now p input = Ok d"
proof (induction p)
  case (Cons s p)
  obtain r where "source_evaluate s input = Ok r" using source_evaluate_total by blast
  then show ?case using Cons by (cases r) simp_all
qed simp

lemma source_match_vouches:
  "source_evaluate s input = Ok (Some m) \<Longrightarrow>
     vouches s (tpi_identity input) now
       (decision_of (sm_effective_trust m) (sm_allowed_effects m) (sm_max_resource_ceiling m)
          (sm_provenance m) now)"
  by (cases s) (auto simp: bundled_evaluate_def admin_evaluate_def signed_evaluate_def
      local_dev_evaluate_def digest_matches_iff split: option.splits if_splits)

lemma source_none_not_vouches:
  "source_evaluate s input = Ok None \<Longrightarrow> \<not> vouches s (tpi_identity input) now d"
  by (cases s) (auto simp: bundled_evaluate_def admin_evaluate_def signed_evaluate_def
      local_dev_evaluate_def digest_matches_iff split: option.splits if_splits)

lemma evaluate_vouched:
  assumes "evaluate_unlocked now p input = Ok d"
  shows "(\<exists>xs s ys. p = xs @ s # ys \<and> vouches s (tpi_identity input) now d
        \<and> (\<forall>x\<in>set xs. \<forall>d'. \<not> vouches x (tpi_identity input) now d'))
    \<or> (\<forall>s\<in>set p. \<forall>d'. \<not> vouches s (tpi_identity input) now d') \<and> d = default_decision input now"
  using assms
proof (induction p)
  case (Cons s p)
  obtain r where r: "source_evaluate s input = Ok r" using source_evaluate_total by blast
  show ?case
  proof (cases r)
    case None
    then have no: "\<not> vouches s (tpi_identity input) now d'" for d'
      using r source_none_not_vouches [of s input] by blast
    have "evaluate_unlocked now p input = Ok d" using Cons.prems r None by simp
    from Cons.IH [OF this] show ?thesis
      using no by (metis append_Cons set_ConsD)
  next
    case (Some m)
    then have "d = decision_of (sm_effective_trust m) (sm_allowed_effects m)
        (sm_max_resource_ceiling m) (sm_provenance m) now"
      using Cons.prems r by (simp add: decision_of_def)
    then have "vouches s (tpi_identity input) now d" using source_match_vouches r Some by blast
    then show ?thesis by (metis append_Nil empty_iff list.set(1))
  qed
qed simp

text \<open>An evaluation reads nothing of its input but the name, the source and the digest.\<close>

definition same_subject :: "package_identity \<Rightarrow> package_identity \<Rightarrow> bool" where
  "same_subject i j = (pi_package_id i = pi_package_id j \<and> pi_source i = pi_source j)"

lemma source_evaluate_cong:
  assumes "same_subject (tpi_identity a) (tpi_identity b)"
    and "pi_digest (tpi_identity a) = pi_digest (tpi_identity b)"
  shows "source_evaluate s a = source_evaluate s b"
  using assms by (cases s) (auto simp: same_subject_def bundled_evaluate_def admin_evaluate_def
      signed_evaluate_def local_dev_evaluate_def split: option.splits)

lemma evaluate_cong:
  assumes "same_subject (tpi_identity a) (tpi_identity b)"
    and "pi_digest (tpi_identity a) = pi_digest (tpi_identity b)"
  shows "evaluate_unlocked now p a = evaluate_unlocked now p b"
  by (induction p) (simp_all add: default_decision_def source_evaluate_cong [OF assms])

section \<open>What a mutation does\<close>

lemma apply_mutation_type [simp]: "type_of_source (apply_mutation m s) = type_of_source s"
  by (induction m s rule: apply_mutation.induct) simp_all

definition single_type :: "source_type \<Rightarrow> 'd policy_source list \<Rightarrow> bool" where
  "single_type t ss = (length (filter (\<lambda>s. type_of_source s = t) ss) = 1)"

lemma find_source_Ok: "is_ok (find_source t ss) \<longleftrightarrow> single_type t ss"
  by (auto simp: find_source_def single_type_def length_Suc_conv split: list.splits)

lemma single_type_map [simp]: "single_type t (map (apply_mutation m) ss) = single_type t ss"
  by (simp add: single_type_def filter_map comp_def)

lemma commit_Ok:
  "list_all (\<lambda>m. single_type (mutation_target m) ss) ms
     \<Longrightarrow> commit ss ms = (map (fold apply_mutation ms) ss, Ok ())"
proof (induction ms arbitrary: ss)
  case (Cons m ms)
  then have "is_ok (find_source (mutation_target m) ss)" by (simp add: find_source_Ok)
  then show ?case using Cons by (auto simp: is_ok_iff list_all_iff)
qed simp

lemma run_closure_staged:
  "list_all (\<lambda>m. single_type (mutation_target m) ss) staged
     \<Longrightarrow> list_all (\<lambda>m. single_type (mutation_target m) ss) (fst (run_closure f ss staged))"
proof (induction f arbitrary: staged)
  case (CallBundledUpsert e k)
  then show ?case using find_source_Ok [of StBundled ss]
    by (auto simp: bundled_upsert_def stage_upsert_def split: sum.splits)
next
  case (CallBundledRemove pid k)
  then show ?case using find_source_Ok [of StBundled ss]
    by (auto simp: bundled_remove_def split: sum.splits policy_source.splits)
next
  case (CallAdminUpsert e k)
  then show ?case using find_source_Ok [of StAdmin ss]
    by (auto simp: admin_upsert_def stage_upsert_def split: sum.splits)
next
  case (CallAdminRemove pid src k)
  then show ?case using find_source_Ok [of StAdmin ss]
    by (auto simp: admin_remove_def split: sum.splits policy_source.splits)
next
  case (CallSignedUpsert e k)
  then show ?case using find_source_Ok [of StSigned ss]
    by (auto simp: signed_upsert_def stage_upsert_def split: sum.splits)
next
  case (CallSignedRemove signer k)
  then show ?case using find_source_Ok [of StSigned ss]
    by (auto simp: signed_remove_def split: sum.splits policy_source.splits)
qed simp

lemma mutate_with_Ok:
  assumes "run_closure f p [] = (staged, Ok r)"
  shows "\<exists>prev cur. let probe = \<lparr>tpi_identity = i, tpi_requested_trust = trust,
        tpi_requested_authority = auth\<rparr>; p' = map (fold apply_mutation staged) p in
      evaluate_unlocked now1 p probe = Ok prev \<and> evaluate_unlocked now2 p' probe = Ok cur
      \<and> mutate_with p bus i auth trust now1 now2 f =
          (p', (case trust_change_new i prev cur of None \<Rightarrow> [] | Some change \<Rightarrow> bus_publish bus change), Ok r)"
proof -
  let ?probe = "\<lparr>tpi_identity = i, tpi_requested_trust = trust, tpi_requested_authority = auth\<rparr>"
  let ?p' = "map (fold apply_mutation staged) p"
  obtain prev where prev: "evaluate_unlocked now1 p ?probe = Ok prev" using evaluate_total by blast
  obtain cur where cur: "evaluate_unlocked now2 ?p' ?probe = Ok cur" using evaluate_total by blast
  have "commit p staged = (?p', Ok ())"
    using commit_Ok run_closure_staged [of p "[]" f] assms by simp
  then show ?thesis
    using assms prev cur by (auto simp: mutate_with_def)
qed

lemma mutate_with_Err:
  assumes "run_closure f p [] = (staged, Err e)"
  shows "mutate_with p bus i auth trust now1 now2 f = (p, [], Err e)"
  using assms evaluate_total
    [of now1 p "\<lparr>tpi_identity = i, tpi_requested_trust = trust, tpi_requested_authority = auth\<rparr>"]
  by (auto simp: mutate_with_def)

lemma publish_change:
  "(case trust_change_new i prev cur of None \<Rightarrow> [] | Some change \<Rightarrow> bus_publish bus change) =
     (if td_effective_trust prev \<noteq> td_effective_trust cur
         \<or> is_reduction_from (td_authority_ceiling cur) (td_authority_ceiling prev)
      then map (\<lambda>l. (l, \<lparr>tc_identity = i, tc_previous = td_effective_trust prev,
             tc_current = td_effective_trust cur,
             tc_previous_authority_ceiling = td_authority_ceiling prev,
             tc_current_authority_ceiling = td_authority_ceiling cur,
             tc_effective_at = td_evaluated_at cur\<rparr>)) bus
      else [])"
  by (simp add: trust_change_new_def bus_publish_def authority_ceiling_reduced_def)

text \<open>The subject whose entry a mutation writes; signers are not consulted by an evaluation.\<close>

fun touched :: "'d source_mutation \<Rightarrow> admin_subject option" where
  "touched (BundledUpsert e) = Some (be_package_id e, PsBundled)"
| "touched (BundledRemove pid) = Some (pid, PsBundled)"
| "touched (AdminUpsert e) = Some (ae_package_id e, ae_source e)"
| "touched (AdminRemove pid src) = Some (pid, src)"
| "touched (SignedUpsert _) = None"
| "touched (SignedRemove _) = None"

definition subject :: "package_identity \<Rightarrow> admin_subject" where
  "subject i = (pi_package_id i, pi_source i)"

lemma apply_mutation_elsewhere:
  "touched m \<noteq> Some (subject (tpi_identity input))
     \<Longrightarrow> source_evaluate (apply_mutation m s) input = source_evaluate s input"
  by (induction m s rule: apply_mutation.induct)
     (auto simp: subject_def bundled_evaluate_def admin_evaluate_def signed_evaluate_def hmap_simps
       bundled_upsert_entry_def admin_upsert_entry_def admin_subject_from_entry_def)

lemma apply_mutations_elsewhere:
  "list_all (\<lambda>m. touched m \<noteq> Some (subject (tpi_identity input))) ms
     \<Longrightarrow> source_evaluate (fold apply_mutation ms s) input = source_evaluate s input"
  by (induction ms arbitrary: s) (simp_all add: apply_mutation_elsewhere)

lemma evaluate_elsewhere:
  "list_all (\<lambda>m. touched m \<noteq> Some (subject (tpi_identity input))) ms
     \<Longrightarrow> evaluate_unlocked now (map (fold apply_mutation ms) p) input = evaluate_unlocked now p input"
  by (induction p) (simp_all add: apply_mutations_elsewhere)

section \<open>Properties\<close>

text \<open>(C37) Trust comes from the host alone: whatever a package asks for, its effective trust is that
  of the first source with an entry for its name and source whose digest pin it satisfies, and
  without such an entry it is sandboxed with an empty ceiling. Two packages of one name, source and
  digest get the same decision, whatever trust, authority or signer they declare.\<close>

theorem trust_needs_host_entry:
  assumes "evaluate_unlocked now p input = Ok d"
  shows "(case find (\<lambda>s. \<exists>d'. vouches s (tpi_identity input) now d') p of
        Some s \<Rightarrow> vouches s (tpi_identity input) now d
      | None \<Rightarrow> d = \<lparr>td_effective_trust = TcSandbox,
          td_authority_ceiling = \<lparr>ac_allowed_effects = [], ac_max_resource_ceiling = None\<rparr>,
          td_provenance = ProvDefault, td_evaluated_at = now\<rparr>)
    \<and> (\<forall>input'. pi_package_id (tpi_identity input') = pi_package_id (tpi_identity input)
        \<and> pi_source (tpi_identity input') = pi_source (tpi_identity input)
        \<and> pi_digest (tpi_identity input') = pi_digest (tpi_identity input)
        \<longrightarrow> evaluate_unlocked now p input' = Ok d)"
proof (intro conjI allI impI)
  let ?P = "\<lambda>s. \<exists>d'. vouches s (tpi_identity input) now d'"
  show "case find ?P p of
      Some s \<Rightarrow> vouches s (tpi_identity input) now d
    | None \<Rightarrow> d = \<lparr>td_effective_trust = TcSandbox,
        td_authority_ceiling = \<lparr>ac_allowed_effects = [], ac_max_resource_ceiling = None\<rparr>,
        td_provenance = ProvDefault, td_evaluated_at = now\<rparr>"
    using evaluate_vouched [OF assms]
  proof (elim disjE exE conjE)
    fix xs s ys
    assume p: "p = xs @ s # ys" and v: "vouches s (tpi_identity input) now d"
      and no: "\<forall>x\<in>set xs. \<forall>d'. \<not> vouches x (tpi_identity input) now d'"
    have "find ?P xs = None" using no by (auto simp: find_None_iff)
    then have "find ?P p = Some s" unfolding p using v by (induction xs) (auto split: if_splits)
    then show ?thesis using v by simp
  next
    assume no: "\<forall>s\<in>set p. \<forall>d'. \<not> vouches s (tpi_identity input) now d'"
      and d: "d = default_decision input now"
    then have "find ?P p = None" by (auto simp: find_None_iff)
    then show ?thesis using d by (simp add: default_decision_def ceiling_empty_def)
  qed
next
  fix input' :: trust_policy_input
  assume "pi_package_id (tpi_identity input') = pi_package_id (tpi_identity input)
      \<and> pi_source (tpi_identity input') = pi_source (tpi_identity input)
      \<and> pi_digest (tpi_identity input') = pi_digest (tpi_identity input)"
  then show "evaluate_unlocked now p input' = Ok d"
    using evaluate_cong [of input' input now p] assms by (simp add: same_subject_def)
qed

definition pinned_entry :: "string \<Rightarrow> nat admin_entry" where
  "pinned_entry digest =
     admin_entry_for_local_manifest ''ext'' ''/system/ext/manifest.toml'' (Some digest) TcUserTrusted
       [EffNetwork] None"

definition pinned_identity :: "string \<Rightarrow> package_identity" where
  "pinned_identity digest =
     \<lparr>pi_package_id = ''ext'', pi_source = PsLocalManifest ''/system/ext/manifest.toml'',
      pi_digest = Some digest, pi_signer = None\<rparr>"

definition pinned_input :: "string \<Rightarrow> trust_policy_input" where
  "pinned_input digest =
     \<lparr>tpi_identity = pinned_identity digest, tpi_requested_trust = SystemRequested,
      tpi_requested_authority = []\<rparr>"

lemmas pinned_defs = pinned_entry_def pinned_identity_def pinned_input_def
  admin_entry_for_local_manifest_def admin_with_entries_def admin_upsert_entry_def
  admin_subject_from_entry_def

theorem trust_needs_host_entry_witness:
  "\<exists>d. evaluate_unlocked 0 [AdminConfig (admin_with_entries [pinned_entry ''v1''])] (pinned_input ''v2'')
      = Ok d \<and> td_effective_trust d = TcSandbox"
proof -
  let ?p = "[AdminConfig (admin_with_entries [pinned_entry ''v1''])]"
  obtain d where d: "evaluate_unlocked 0 ?p (pinned_input ''v2'') = Ok d" using evaluate_total by blast
  have "find (\<lambda>s. \<exists>d'. vouches s (tpi_identity (pinned_input ''v2'')) 0 d') ?p = None"
    by (simp add: pinned_defs)
  then show ?thesis using trust_needs_host_entry [OF d] d by simp
qed



text \<open>The guarantee ends at the digest: publishing a new version of a package replaces its pinned
  entry, and the identity of the old version falls from user trust to the sandbox, with a smaller
  ceiling. The mutation probes the new version, so all the listeners hear of is its upgrade.\<close>

theorem repin_downgrades_unannounced:
  "\<exists>(p :: nat host_trust_policy) p' change old old'.
     mutate_with p [()] (pinned_identity ''v2'') [] Untrusted 0 1
       (CallAdminUpsert (pinned_entry ''v2'') (\<lambda>_. Finish (Ok ()))) = (p', [((), change)], Ok ())
     \<and> tc_identity change = pinned_identity ''v2'' \<and> is_upgrade change
     \<and> \<not> authority_ceiling_reduced change
     \<and> evaluate_unlocked 0 p (pinned_input ''v1'') = Ok old
     \<and> evaluate_unlocked 1 p' (pinned_input ''v1'') = Ok old'
     \<and> td_effective_trust old = TcUserTrusted \<and> td_effective_trust old' = TcSandbox
     \<and> is_reduction_from (td_authority_ceiling old') (td_authority_ceiling old)"
  apply (rule exI [of _ "[AdminConfig (admin_with_entries [pinned_entry ''v1''])]"])
  apply (simp add: mutate_with_def admin_upsert_def stage_upsert_def find_source_def pinned_defs
      admin_evaluate_def digest_matches_def default_decision_def trust_change_new_def ceiling_empty_def
      bus_publish_def is_reduction_from_def authority_ceiling_reduced_def is_upgrade_def)
  done

end
