(* ===== verification/Authorization.thy ===== *)
theory Authorization
  imports Decisions Trust_Policy
begin

text \<open>
  Authorization of capability dispatch and spawn from grants (\<open>ironclaw_authorization/src/lib.rs\<close>):
  which grants match a context, what an allowed action is obliged to, how the ceiling of a grant and
  the ceiling of the trust policy combine, and the grant-backed authorizer. The wall clock is read
  once per examined grant; \<open>clock n\<close> is the reading for the \<open>n\<close>-th grant.

  The theorems give the exact decision, the algebra of ceilings (intersection, coverage and excess
  describe one order) and its agreement with the notion of reduction the trust policy publishes.
\<close>

section \<open>Ceilings\<close>

fun limit_exceeds :: "'a::linorder option \<Rightarrow> 'a option \<Rightarrow> bool" where
  "limit_exceeds (Some grant) (Some authority) = (grant > authority)"
| "limit_exceeds None (Some _) = True"
| "limit_exceeds None None = False"
| "limit_exceeds (Some _) None = False"

fun sandbox_quota_exceeds_authority :: "sandbox_quota option \<Rightarrow> sandbox_quota option \<Rightarrow> bool" where
  "sandbox_quota_exceeds_authority None (Some _) = True"
| "sandbox_quota_exceeds_authority None None = False"
| "sandbox_quota_exceeds_authority (Some _) None = False"
| "sandbox_quota_exceeds_authority (Some grant) (Some authority) =
     (limit_exceeds (sq_cpu_time_ms grant) (sq_cpu_time_ms authority)
      \<or> limit_exceeds (sq_memory_bytes grant) (sq_memory_bytes authority)
      \<or> limit_exceeds (sq_disk_bytes grant) (sq_disk_bytes authority)
      \<or> limit_exceeds (sq_network_egress_bytes grant) (sq_network_egress_bytes authority)
      \<or> limit_exceeds (sq_process_count grant) (sq_process_count authority))"

fun resource_ceiling_exceeds_authority ::
  "'d::linorder resource_ceiling option \<Rightarrow> 'd resource_ceiling option \<Rightarrow> bool" where
  "resource_ceiling_exceeds_authority None (Some _) = True"
| "resource_ceiling_exceeds_authority None None = False"
| "resource_ceiling_exceeds_authority (Some _) None = False"
| "resource_ceiling_exceeds_authority (Some grant) (Some authority) =
     (limit_exceeds (ceil_usd grant) (ceil_usd authority)
      \<or> limit_exceeds (ceil_input_tokens grant) (ceil_input_tokens authority)
      \<or> limit_exceeds (ceil_output_tokens grant) (ceil_output_tokens authority)
      \<or> limit_exceeds (ceil_wall_clock_ms grant) (ceil_wall_clock_ms authority)
      \<or> limit_exceeds (ceil_output_bytes grant) (ceil_output_bytes authority)
      \<or> sandbox_quota_exceeds_authority (ceil_sandbox grant) (ceil_sandbox authority))"

fun stricter_limit :: "'a::linorder option \<Rightarrow> 'a option \<Rightarrow> 'a option" where
  "stricter_limit (Some l) (Some r) = (if r < l then Some r else Some l)"
| "stricter_limit (Some l) None = Some l"
| "stricter_limit None (Some r) = Some r"
| "stricter_limit None None = None"

fun intersect_sandbox_quotas ::
  "sandbox_quota option \<Rightarrow> sandbox_quota option \<Rightarrow> sandbox_quota option" where
  "intersect_sandbox_quotas None None = None"
| "intersect_sandbox_quotas (Some q) None = Some q"
| "intersect_sandbox_quotas None (Some q) = Some q"
| "intersect_sandbox_quotas (Some grant) (Some authority) =
     Some \<lparr>sq_cpu_time_ms = stricter_limit (sq_cpu_time_ms grant) (sq_cpu_time_ms authority),
           sq_memory_bytes = stricter_limit (sq_memory_bytes grant) (sq_memory_bytes authority),
           sq_disk_bytes = stricter_limit (sq_disk_bytes grant) (sq_disk_bytes authority),
           sq_network_egress_bytes =
             stricter_limit (sq_network_egress_bytes grant) (sq_network_egress_bytes authority),
           sq_process_count = stricter_limit (sq_process_count grant) (sq_process_count authority)\<rparr>"

fun intersect_resource_ceilings ::
  "'d::linorder resource_ceiling option \<Rightarrow> 'd resource_ceiling option \<Rightarrow> 'd resource_ceiling option" where
  "intersect_resource_ceilings None None = None"
| "intersect_resource_ceilings (Some c) None = Some c"
| "intersect_resource_ceilings None (Some c) = Some c"
| "intersect_resource_ceilings (Some grant) (Some authority) =
     Some \<lparr>ceil_usd = stricter_limit (ceil_usd grant) (ceil_usd authority),
           ceil_input_tokens = stricter_limit (ceil_input_tokens grant) (ceil_input_tokens authority),
           ceil_output_tokens = stricter_limit (ceil_output_tokens grant) (ceil_output_tokens authority),
           ceil_wall_clock_ms = stricter_limit (ceil_wall_clock_ms grant) (ceil_wall_clock_ms authority),
           ceil_output_bytes = stricter_limit (ceil_output_bytes grant) (ceil_output_bytes authority),
           ceil_sandbox = intersect_sandbox_quotas (ceil_sandbox grant) (ceil_sandbox authority)\<rparr>"

fun options_within_ceiling :: "'a::linorder option \<Rightarrow> 'a option \<Rightarrow> bool" where
  "options_within_ceiling (Some estimate) (Some maximum) = (estimate \<le> maximum)"
| "options_within_ceiling None (Some _) = False"
| "options_within_ceiling _ None = True"

definition resource_estimate_is_covered ::
  "'d::linorder resource_estimate \<Rightarrow> 'd resource_ceiling option \<Rightarrow> bool" where
  "resource_estimate_is_covered est ceiling =
     (case ceiling of
        None \<Rightarrow> True
      | Some c \<Rightarrow>
          options_within_ceiling (est_usd est) (ceil_usd c)
          \<and> options_within_ceiling (est_input_tokens est) (ceil_input_tokens c)
          \<and> options_within_ceiling (est_output_tokens est) (ceil_output_tokens c)
          \<and> options_within_ceiling (est_wall_clock_ms est) (ceil_wall_clock_ms c)
          \<and> options_within_ceiling (est_output_bytes est) (ceil_output_bytes c)
          \<and> (case ceil_sandbox c of
               Some sandbox \<Rightarrow>
                 options_within_ceiling (est_network_egress_bytes est) (sq_network_egress_bytes sandbox)
                 \<and> options_within_ceiling (est_process_count est) (sq_process_count sandbox)
             | None \<Rightarrow> True))"

section \<open>Matching grants\<close>

definition effects_are_covered :: "effect_kind list \<Rightarrow> effect_kind list \<Rightarrow> bool" where
  "effects_are_covered required allowed = list_all (\<lambda>e. e \<in> set allowed) required"

definition principal_matches_context :: "principal \<Rightarrow> 'd execution_context \<Rightarrow> bool" where
  "principal_matches_context p c =
     (case p of
        PTenant i \<Rightarrow> i = ctx_tenant_id c
      | PUser i \<Rightarrow> i = ctx_user_id c
      | PAgent i \<Rightarrow> ctx_agent_id c = Some i
      | PProject i \<Rightarrow> ctx_project_id c = Some i
      | PMission i \<Rightarrow> ctx_mission_id c = Some i
      | PThread i \<Rightarrow> ctx_thread_id c = Some i
      | PExtension i \<Rightarrow> i = ctx_extension_id c
      | PHostRuntime \<Rightarrow> False
      | PSystem _ \<Rightarrow> False)"

definition grant_is_active :: "instant \<Rightarrow> 'd capability_grant \<Rightarrow> bool" where
  "grant_is_active now g =
     ((case gc_expires_at (cg_constraints g) of Some t \<Rightarrow> t > now | None \<Rightarrow> True)
      \<and> gc_max_invocations (cg_constraints g) \<noteq> Some 0)"

definition grant_exceeds_authority_ceiling ::
  "'d::linorder capability_grant \<Rightarrow> 'd authority_ceiling \<Rightarrow> bool" where
  "grant_exceeds_authority_ceiling g a =
     (\<not> effects_are_covered (gc_allowed_effects (cg_constraints g)) (ac_allowed_effects a)
      \<or> resource_ceiling_exceeds_authority (gc_resource_ceiling (cg_constraints g))
          (ac_max_resource_ceiling a))"

section \<open>Obligations of an allowed action\<close>

definition descriptor_requires_mount_policy :: "'d capability_descriptor \<Rightarrow> bool" where
  "descriptor_requires_mount_policy d =
     list_ex (\<lambda>e. e = EffReadFilesystem \<or> e = EffWriteFilesystem \<or> e = EffDeleteFilesystem
        \<or> e = EffExecuteCode) (cd_effects d)"

definition network_policy_is_constrained :: "network_policy \<Rightarrow> bool" where
  "network_policy_is_constrained p =
     (allowed_targets p \<noteq> [] \<or> deny_private_ip_ranges p \<or> max_egress_bytes p \<noteq> None)"

fun credential_obligations ::
  "'d capability_descriptor \<Rightarrow> secret_handle list \<Rightarrow> runtime_credential_requirement list
    \<Rightarrow> 'd obligation list \<Rightarrow> 'd obligation list option" where
  "credential_obligations d secrets [] obs = Some obs"
| "credential_obligations d secrets (c # cs) obs =
     (case rcr_source c of
        SrcSecretHandle \<Rightarrow>
          if rcr_handle c \<in> set secrets
          then credential_obligations d secrets cs (obs @ [InjectSecretOnce (rcr_handle c)])
          else if rcr_required c then None
          else credential_obligations d secrets cs obs
      | SrcProductAuthAccount provider setup \<Rightarrow>
          if rcr_required c
          then credential_obligations d secrets cs
                 (obs @ [InjectCredentialAccountOnce (rcr_handle c) provider setup
                           (rcr_provider_scopes c) (cd_provider d)])
          else credential_obligations d secrets cs obs)"

definition secret_obligations ::
  "'d capability_descriptor \<Rightarrow> 'd capability_grant \<Rightarrow> 'd obligation list \<Rightarrow> 'd obligation list option" where
  "secret_obligations d g obs =
     (let secrets = gc_secrets (cg_constraints g) in
      if cd_runtime_credentials d \<noteq> []
      then (if EffUseSecret \<notin> set (cd_effects d) then None
            else credential_obligations d secrets (cd_runtime_credentials d) obs)
      else if EffUseSecret \<in> set (cd_effects d)
      then (if cd_runtime d = RtFirstParty \<and> secrets = []
            then Some (obs @ [FirstPartyCredentialStagedViaHostPort (cd_id d)])
            else (case secrets of
                    [handle] \<Rightarrow> Some (obs @ [InjectSecretOnce handle])
                  | _ \<Rightarrow> None))
      else Some obs)"

definition ceiling_obligations :: "'d resource_ceiling option \<Rightarrow> 'd obligation list" where
  "ceiling_obligations ceiling =
     (case ceiling of
        None \<Rightarrow> []
      | Some c \<Rightarrow> EnforceResourceCeiling c #
          (case ceil_output_bytes c of Some bytes \<Rightarrow> [EnforceOutputLimit bytes] | None \<Rightarrow> []))"

definition obligations_for_grant ::
  "'d capability_descriptor \<Rightarrow> 'd capability_grant \<Rightarrow> 'd resource_ceiling option
    \<Rightarrow> 'd obligation list option" where
  "obligations_for_grant d g ceiling =
     (let mounts = (if descriptor_requires_mount_policy d
                    then [UseScopedMounts (gc_mounts (cg_constraints g))] else []);
          network = (if EffNetwork \<in> set (cd_effects d)
                       \<or> network_policy_is_constrained (gc_network (cg_constraints g))
                     then [ApplyNetworkPolicy (gc_network (cg_constraints g))] else [])
      in case secret_obligations d g (mounts @ network) of
           None \<Rightarrow> None
         | Some obs \<Rightarrow>
             (case obligations_new (obs @ ceiling_obligations ceiling) of
                Inr obligations \<Rightarrow> Some obligations
              | Inl _ \<Rightarrow> None))"

section \<open>The decision\<close>

definition spawn_descriptor :: "'d capability_descriptor \<Rightarrow> 'd capability_descriptor" where
  "spawn_descriptor d =
     (if EffSpawnProcess \<in> set (cd_effects d) then d
      else d\<lparr>cd_effects := cd_effects d @ [EffSpawnProcess]\<rparr>)"

definition effective_ceiling ::
  "'d::linorder capability_grant \<Rightarrow> 'd authority_ceiling option \<Rightarrow> 'd resource_ceiling option" where
  "effective_ceiling g authority =
     intersect_resource_ceilings (gc_resource_ceiling (cg_constraints g))
       (Option.bind authority ac_max_resource_ceiling)"

definition grant_allows ::
  "'d::linorder capability_descriptor \<Rightarrow> 'd resource_estimate \<Rightarrow> 'd authority_ceiling option
    \<Rightarrow> 'd capability_grant \<Rightarrow> 'd obligation list option" where
  "grant_allows d est authority g =
     (if effects_are_covered (cd_effects d) (gc_allowed_effects (cg_constraints g))
         \<and> (case authority of
              Some a \<Rightarrow> effects_are_covered (cd_effects d) (ac_allowed_effects a)
            | None \<Rightarrow> True)
         \<and> resource_estimate_is_covered est (effective_ceiling g authority)
      then obligations_for_grant d g (effective_ceiling g authority)
      else None)"

fun examine_grants ::
  "(nat \<Rightarrow> instant) \<Rightarrow> 'd::linorder execution_context \<Rightarrow> 'd capability_descriptor
    \<Rightarrow> 'd resource_estimate \<Rightarrow> 'd authority_ceiling option \<Rightarrow> bool \<Rightarrow> 'd capability_grant list \<Rightarrow> 'd decision"
where
  "examine_grants clock c d est authority saw [] =
     (if saw then DecisionDeny PolicyDenied else DecisionDeny MissingGrant)"
| "examine_grants clock c d est authority saw (g # gs) =
     (if cg_capability g = cd_id d \<and> principal_matches_context (cg_grantee g) c
         \<and> grant_is_active (clock 0) g
      then (case grant_allows d est authority g of
              Some obligations \<Rightarrow> DecisionAllow obligations
            | None \<Rightarrow> examine_grants (clock \<circ> Suc) c d est authority True gs)
      else examine_grants (clock \<circ> Suc) c d est authority saw gs)"

definition authorize_from_grants_with_authority_ceiling where
  "authorize_from_grants_with_authority_ceiling clock c d est gs authority =
     (if \<not> is_ok (context_validate c) then DecisionDeny InternalInvariantViolation
      else examine_grants clock c d est authority False gs)"

definition authorize_from_grants where
  "authorize_from_grants clock c d est gs =
     authorize_from_grants_with_authority_ceiling clock c d est gs None"

definition authorize_from_grants_with_trust where
  "authorize_from_grants_with_trust clock c d est gs trust =
     (if \<not> is_ok (context_validate c) then DecisionDeny InternalInvariantViolation
      else if ctx_trust c \<noteq> td_effective_trust trust then DecisionDeny PolicyDenied
      else authorize_from_grants_with_authority_ceiling clock c d est gs
             (Some (td_authority_ceiling trust)))"

text \<open>The grant-backed authorizer.\<close>

definition grant_authorize_dispatch where
  "grant_authorize_dispatch clock c d est = authorize_from_grants clock c d est (ctx_grants c)"

definition grant_authorize_spawn where
  "grant_authorize_spawn clock c d est =
     authorize_from_grants clock c (spawn_descriptor d) est (ctx_grants c)"

definition grant_authorize_dispatch_with_trust where
  "grant_authorize_dispatch_with_trust clock c d est trust =
     authorize_from_grants_with_trust clock c d est (ctx_grants c) trust"

definition grant_authorize_spawn_with_trust where
  "grant_authorize_spawn_with_trust clock c d est trust =
     authorize_from_grants_with_trust clock c (spawn_descriptor d) est (ctx_grants c) trust"

section \<open>The order of ceilings\<close>

lemma limit_reduced_eq: "limit_reduced p c = limit_exceeds p c"
  by (cases "(p, c)" rule: limit_reduced.cases) auto

lemma sandbox_reduced_eq: "sandbox_quota_reduced p c = sandbox_quota_exceeds_authority p c"
  by (cases "(p, c)" rule: sandbox_quota_reduced.cases) (auto simp: limit_reduced_eq)

lemma ceiling_reduced_eq: "resource_ceiling_reduced p c = resource_ceiling_exceeds_authority p c"
  by (cases "(p, c)" rule: resource_ceiling_reduced.cases) (auto simp: limit_reduced_eq sandbox_reduced_eq)

lemma limit_exceeds_refl: "\<not> limit_exceeds l l"
  by (cases l) auto

lemma limit_exceeds_trans: "\<not> limit_exceeds a b \<Longrightarrow> \<not> limit_exceeds b c \<Longrightarrow> \<not> limit_exceeds a c"
  by (cases a; cases b; cases c) auto

lemma sandbox_exceeds_refl: "\<not> sandbox_quota_exceeds_authority q q"
  by (cases q) (auto simp: limit_exceeds_refl)

lemma sandbox_exceeds_trans:
  "\<not> sandbox_quota_exceeds_authority a b \<Longrightarrow> \<not> sandbox_quota_exceeds_authority b c
     \<Longrightarrow> \<not> sandbox_quota_exceeds_authority a c"
  by (cases a; cases b; cases c) (auto dest: limit_exceeds_trans)

lemma ceiling_exceeds_refl: "\<not> resource_ceiling_exceeds_authority r r"
  by (cases r) (auto simp: limit_exceeds_refl sandbox_exceeds_refl)

lemma ceiling_exceeds_trans:
  "\<not> resource_ceiling_exceeds_authority a b \<Longrightarrow> \<not> resource_ceiling_exceeds_authority b c
     \<Longrightarrow> \<not> resource_ceiling_exceeds_authority a c"
  by (cases a; cases b; cases c) (auto dest: limit_exceeds_trans sandbox_exceeds_trans)

lemma stricter_limit_eq: "stricter_limit g a = g \<longleftrightarrow> \<not> limit_exceeds g a"
  by (cases g; cases a) auto

lemma intersect_quota_eq: "intersect_sandbox_quotas g a = g \<longleftrightarrow> \<not> sandbox_quota_exceeds_authority g a"
proof (cases g; cases a)
  fix x y assume "g = Some x" and "a = Some y"
  then show ?thesis by (cases x) (simp add: stricter_limit_eq)
qed simp_all

lemma intersect_ceiling_eq:
  "intersect_resource_ceilings g a = g \<longleftrightarrow> \<not> resource_ceiling_exceeds_authority g a"
proof (cases g; cases a)
  fix x y assume "g = Some x" and "a = Some y"
  then show ?thesis by (cases x) (simp add: stricter_limit_eq intersect_quota_eq)
qed simp_all

lemma within_stricter:
  "options_within_ceiling e (stricter_limit g a) \<longleftrightarrow> options_within_ceiling e g \<and> options_within_ceiling e a"
  by (cases e; cases g; cases a) auto

lemma covered_intersect:
  "resource_estimate_is_covered est (intersect_resource_ceilings g a) \<longleftrightarrow>
     resource_estimate_is_covered est g \<and> resource_estimate_is_covered est a"
proof (cases g; cases a)
  fix x y assume gx: "g = Some x" and ay: "a = Some y"
  have sandbox: "(case intersect_sandbox_quotas (ceil_sandbox x) (ceil_sandbox y) of
        Some s \<Rightarrow> options_within_ceiling (est_network_egress_bytes est) (sq_network_egress_bytes s)
          \<and> options_within_ceiling (est_process_count est) (sq_process_count s)
      | None \<Rightarrow> True) \<longleftrightarrow>
      (case ceil_sandbox x of
        Some s \<Rightarrow> options_within_ceiling (est_network_egress_bytes est) (sq_network_egress_bytes s)
          \<and> options_within_ceiling (est_process_count est) (sq_process_count s)
      | None \<Rightarrow> True) \<and>
      (case ceil_sandbox y of
        Some s \<Rightarrow> options_within_ceiling (est_network_egress_bytes est) (sq_network_egress_bytes s)
          \<and> options_within_ceiling (est_process_count est) (sq_process_count s)
      | None \<Rightarrow> True)"
    by (cases "ceil_sandbox x"; cases "ceil_sandbox y") (auto simp: within_stricter)
  show ?thesis
    unfolding gx ay resource_estimate_is_covered_def
    by (simp add: within_stricter sandbox) blast
qed (simp_all add: resource_estimate_is_covered_def)

lemma effects_covered_iff: "effects_are_covered r a \<longleftrightarrow> set r \<subseteq> set a"
  by (auto simp: effects_are_covered_def list_all_iff)

text \<open>A grant whose effects and ceiling are those of a given authority ceiling.\<close>

definition grant_at :: "'d authority_ceiling \<Rightarrow> 'd capability_grant" where
  "grant_at a =
     \<lparr>cg_id = 0, cg_capability = ''ext.cap'', cg_grantee = PHostRuntime, cg_issued_by = PHostRuntime,
      cg_constraints =
        \<lparr>gc_allowed_effects = ac_allowed_effects a, gc_mounts = [],
         gc_network = \<lparr>allowed_targets = [], deny_private_ip_ranges = True, max_egress_bytes = None\<rparr>,
         gc_secrets = [], gc_resource_ceiling = ac_max_resource_ceiling a, gc_expires_at = None,
         gc_max_invocations = None\<rparr>\<rparr>"

lemma reduction_iff: "is_reduction_from cur prev \<longleftrightarrow> grant_exceeds_authority_ceiling (grant_at prev) cur"
  by (auto simp: is_reduction_from_def grant_exceeds_authority_ceiling_def grant_at_def
      effects_covered_iff ceiling_reduced_eq list_ex_iff)

lemma no_reduction_keeps_grants:
  assumes "\<not> is_reduction_from cur prev" and "\<not> grant_exceeds_authority_ceiling g prev"
  shows "\<not> grant_exceeds_authority_ceiling g cur"
proof -
  have "set (gc_allowed_effects (cg_constraints g)) \<subseteq> set (ac_allowed_effects prev)"
    and "set (ac_allowed_effects prev) \<subseteq> set (ac_allowed_effects cur)"
    using assms by (auto simp: grant_exceeds_authority_ceiling_def effects_covered_iff
        is_reduction_from_def list_ex_iff)
  then show ?thesis
    using assms
    by (auto simp: grant_exceeds_authority_ceiling_def effects_covered_iff is_reduction_from_def
        ceiling_reduced_eq dest: ceiling_exceeds_trans)
qed

section \<open>The decision, grant by grant\<close>

definition eligible ::
  "'d execution_context \<Rightarrow> 'd capability_descriptor \<Rightarrow> instant \<Rightarrow> 'd capability_grant \<Rightarrow> bool" where
  "eligible c d now g =
     (cg_capability g = cd_id d \<and> principal_matches_context (cg_grantee g) c \<and> grant_is_active now g)"

lemma examine_grants_Allow:
  "examine_grants clock c d est authority saw gs = DecisionAllow obs \<longleftrightarrow>
     (\<exists>n<length gs. eligible c d (clock n) (gs ! n) \<and> grant_allows d est authority (gs ! n) = Some obs
        \<and> (\<forall>m<n. eligible c d (clock m) (gs ! m) \<longrightarrow> grant_allows d est authority (gs ! m) = None))"
proof (induction gs arbitrary: clock saw)
  case (Cons g gs)
  show ?case
    unfolding examine_grants.simps length_Cons Ex_less_Suc2 All_less_Suc2
    by (auto simp: Cons.IH eligible_def All_less_Suc2 split: option.splits)
qed simp

lemma examine_grants_Deny:
  "examine_grants clock c d est authority saw gs = DecisionDeny r \<longleftrightarrow>
     (\<forall>n<length gs. eligible c d (clock n) (gs ! n) \<longrightarrow> grant_allows d est authority (gs ! n) = None)
     \<and> r = (if saw \<or> (\<exists>n<length gs. eligible c d (clock n) (gs ! n)) then PolicyDenied else MissingGrant)"
proof (induction gs arbitrary: clock saw)
  case (Cons g gs)
  show ?case
    unfolding examine_grants.simps length_Cons Ex_less_Suc2 All_less_Suc2
    by (auto simp: Cons.IH eligible_def split: option.splits)
qed auto

lemma examine_grants_not_approval:
  "examine_grants clock c d est authority saw gs \<noteq> DecisionRequireApproval r"
  by (induction gs arbitrary: clock saw) (auto split: option.splits)

section \<open>What an allowed action is obliged to\<close>

lemma credential_obligations_extend:
  "credential_obligations d secrets cs obs = Some obs' \<Longrightarrow>
     set obs \<subseteq> set obs'
     \<and> (\<forall>c\<in>set cs. rcr_required c \<longrightarrow>
          (case rcr_source c of
             SrcSecretHandle \<Rightarrow> rcr_handle c \<in> set secrets \<and> InjectSecretOnce (rcr_handle c) \<in> set obs'
           | SrcProductAuthAccount p s \<Rightarrow>
               InjectCredentialAccountOnce (rcr_handle c) p s (rcr_provider_scopes c) (cd_provider d)
                 \<in> set obs'))
     \<and> (\<forall>h. InjectSecretOnce h \<in> set obs' \<longrightarrow> InjectSecretOnce h \<in> set obs \<or> h \<in> set secrets)"
  by (induction d secrets cs obs rule: credential_obligations.induct)
     (fastforce split: runtime_credential_requirement_source.splits if_splits)+

lemma secret_obligations_extend:
  assumes "secret_obligations d g obs = Some obs'"
  shows "set obs \<subseteq> set obs'"
    and "InjectSecretOnce h \<in> set obs' \<Longrightarrow>
      InjectSecretOnce h \<in> set obs \<or> h \<in> set (gc_secrets (cg_constraints g))"
  using assms credential_obligations_extend
  by (fastforce simp: secret_obligations_def Let_def split: if_splits list.splits)+

lemma obligations_for_grant_sound:
  assumes "obligations_for_grant d g ceiling = Some obs"
  shows "(descriptor_requires_mount_policy d \<longrightarrow> UseScopedMounts (gc_mounts (cg_constraints g)) \<in> set obs)
    \<and> (EffNetwork \<in> set (cd_effects d) \<or> network_policy_is_constrained (gc_network (cg_constraints g))
         \<longrightarrow> ApplyNetworkPolicy (gc_network (cg_constraints g)) \<in> set obs)
    \<and> (\<forall>c. ceiling = Some c \<longrightarrow> EnforceResourceCeiling c \<in> set obs
         \<and> (\<forall>b. ceil_output_bytes c = Some b \<longrightarrow> EnforceOutputLimit b \<in> set obs))
    \<and> (\<forall>h. InjectSecretOnce h \<in> set obs \<longrightarrow> h \<in> set (gc_secrets (cg_constraints g)))
    \<and> obligations_new obs = Ok obs"
proof -
  let ?mounts = "if descriptor_requires_mount_policy d
      then [UseScopedMounts (gc_mounts (cg_constraints g))] else []"
  let ?network = "if EffNetwork \<in> set (cd_effects d)
        \<or> network_policy_is_constrained (gc_network (cg_constraints g))
      then [ApplyNetworkPolicy (gc_network (cg_constraints g))] else []"
  obtain mid where mid: "secret_obligations d g (?mounts @ ?network) = Some mid"
    and new: "obligations_new (mid @ ceiling_obligations ceiling) = Ok obs"
    using assms by (auto simp: obligations_for_grant_def Let_def split: option.splits sum.splits)
  have "mset obs = mset (mid @ ceiling_obligations ceiling)"
    using new by (simp add: obligations_new_Ok canonical_order_def)
  then have set: "set obs = set mid \<union> set (ceiling_obligations ceiling)"
    by (metis set_append set_mset_mset)
  have "obligations_new obs = Ok obs" using new by (rule obligations_new_idem)
  moreover have "h \<in> set (gc_secrets (cg_constraints g))" if "InjectSecretOnce h \<in> set obs" for h
  proof -
    have "InjectSecretOnce h \<in> set mid"
      using that set by (auto simp: ceiling_obligations_def split: option.splits)
    then show ?thesis using secret_obligations_extend(2) [OF mid, of h] by (auto split: if_splits)
  qed
  moreover have "set (?mounts @ ?network) \<subseteq> set obs"
    using secret_obligations_extend(1) [OF mid] set by blast
  ultimately show ?thesis
    using set by (auto simp: ceiling_obligations_def split: if_splits option.splits)
qed

section \<open>Properties\<close>

text \<open>(C16) The decision with trust: a dispatch is allowed exactly when the context is consistent,
  carries the trust class the policy gave, and some grant for the capability and for a principal of
  the context, active when it is examined, covers the declared effects together with the policy's
  ceiling, covers the estimate under both ceilings and yields obligations; the obligations are those
  of the first such grant. Otherwise the reason tells an inconsistent context, a policy denial and
  a missing grant apart, and approval is never requested here.\<close>

theorem authorization_exact:
  "authorize_from_grants_with_trust clock c d est gs trust =
     (let allow = (\<lambda>n. eligible c d (clock n) (gs ! n)
            \<and> grant_allows d est (Some (td_authority_ceiling trust)) (gs ! n) \<noteq> None)
      in if \<not> is_ok (context_validate c) then DecisionDeny InternalInvariantViolation
         else if ctx_trust c \<noteq> td_effective_trust trust then DecisionDeny PolicyDenied
         else (case find allow [0..<length gs] of
                 Some n \<Rightarrow>
                   DecisionAllow (the (grant_allows d est (Some (td_authority_ceiling trust)) (gs ! n)))
               | None \<Rightarrow>
                   if list_ex (\<lambda>n. eligible c d (clock n) (gs ! n)) [0..<length gs]
                   then DecisionDeny PolicyDenied else DecisionDeny MissingGrant))"
proof -
  let ?a = "Some (td_authority_ceiling trust)"
  let ?allow = "\<lambda>n. eligible c d (clock n) (gs ! n) \<and> grant_allows d est ?a (gs ! n) \<noteq> None"
  have "examine_grants clock c d est ?a False gs =
      (case find ?allow [0..<length gs] of
         Some n \<Rightarrow> DecisionAllow (the (grant_allows d est ?a (gs ! n)))
       | None \<Rightarrow> if list_ex (\<lambda>n. eligible c d (clock n) (gs ! n)) [0..<length gs]
           then DecisionDeny PolicyDenied else DecisionDeny MissingGrant)"
  proof (cases "find ?allow [0..<length gs]")
    case None
    then have "\<forall>n<length gs. eligible c d (clock n) (gs ! n) \<longrightarrow> grant_allows d est ?a (gs ! n) = None"
      by (auto simp: find_None_iff)
    then have "examine_grants clock c d est ?a False gs =
        DecisionDeny (if False \<or> (\<exists>n<length gs. eligible c d (clock n) (gs ! n))
          then PolicyDenied else MissingGrant)"
      unfolding examine_grants_Deny by blast
    then show ?thesis using None by (auto simp: list_ex_iff)
  next
    case (Some n)
    then have "n < length gs" "?allow n" "\<forall>m<n. \<not> ?allow m"
      by (auto simp: find_Some_iff)
    then have "examine_grants clock c d est ?a False gs =
        DecisionAllow (the (grant_allows d est ?a (gs ! n)))"
      unfolding examine_grants_Allow by auto
    then show ?thesis using Some by simp
  qed
  then show ?thesis
    by (simp add: authorize_from_grants_with_trust_def authorize_from_grants_with_authority_ceiling_def
        Let_def)
qed


text \<open>A user's grant of network access, and a context, a capability and a trust decision it fits.\<close>

definition sample_grant :: "nat capability_grant" where
  "sample_grant =
     \<lparr>cg_id = 7, cg_capability = ''web.fetch'', cg_grantee = PUser ''ann'', cg_issued_by = PHostRuntime,
      cg_constraints =
        \<lparr>gc_allowed_effects = [EffNetwork], gc_mounts = [],
         gc_network = \<lparr>allowed_targets = [], deny_private_ip_ranges = True, max_egress_bytes = None\<rparr>,
         gc_secrets = [], gc_resource_ceiling = None, gc_expires_at = Some 100,
         gc_max_invocations = Some 1\<rparr>\<rparr>"

definition sample_scope :: "nat \<Rightarrow> resource_scope" where
  "sample_scope i =
     \<lparr>tenant_id = ''t'', user_id = ''ann'', agent_id = None, project_id = None, mission_id = None,
      thread_id = None, invocation_id = i\<rparr>"

definition sample_context :: "nat capability_grant list \<Rightarrow> nat execution_context" where
  "sample_context gs =
     \<lparr>ctx_invocation_id = 1, ctx_correlation_id = 2, ctx_process_id = None,
      ctx_parent_process_id = None, ctx_tenant_id = ''t'', ctx_user_id = ''ann'',
      ctx_authenticated_actor_user_id = None, ctx_agent_id = None, ctx_project_id = None,
      ctx_mission_id = None, ctx_thread_id = None, ctx_extension_id = ''web'', ctx_runtime = RtWasm,
      ctx_trust = TcUserTrusted, ctx_grants = gs, ctx_mounts = [], ctx_resource_scope = sample_scope 1\<rparr>"

definition sample_descriptor :: "nat capability_descriptor" where
  "sample_descriptor =
     \<lparr>cd_id = ''web.fetch'', cd_provider = ''web'', cd_runtime = RtWasm, cd_trust_ceiling = TcUserTrusted,
      cd_description = [], cd_parameters_schema = [], cd_effects = [EffNetwork],
      cd_default_permission = PmAsk, cd_runtime_credentials = [], cd_network_targets = [],
      cd_resource_profile = None\<rparr>"

definition sample_estimate :: "nat resource_estimate" where
  "sample_estimate =
     \<lparr>est_usd = None, est_input_tokens = None, est_output_tokens = None, est_wall_clock_ms = None,
      est_output_bytes = None, est_network_egress_bytes = None, est_process_count = None,
      est_concurrency_slots = None\<rparr>"

definition sample_trust :: "nat trust_decision" where
  "sample_trust =
     \<lparr>td_effective_trust = TcUserTrusted,
      td_authority_ceiling = \<lparr>ac_allowed_effects = [EffNetwork], ac_max_resource_ceiling = None\<rparr>,
      td_provenance = ProvAdminConfig, td_evaluated_at = 0\<rparr>"

lemmas sample_defs = sample_grant_def sample_scope_def sample_context_def sample_descriptor_def
  sample_estimate_def sample_trust_def

lemma sample_context_valid: "context_validate (sample_context gs) = Ok ()"
  by (simp add: sample_defs context_validate_def view_validate_def)

lemma sample_allowed:
  "authorize_from_grants_with_trust (\<lambda>_. 50) (sample_context []) sample_descriptor sample_estimate
     [sample_grant] sample_trust
   = DecisionAllow [ApplyNetworkPolicy (gc_network (cg_constraints sample_grant))]"
  unfolding authorize_from_grants_with_trust_def sample_context_valid
    authorize_from_grants_with_authority_ceiling_def
  by (simp add: sample_defs principal_matches_context_def
      grant_is_active_def grant_allows_def effects_are_covered_def effective_ceiling_def
      resource_estimate_is_covered_def obligations_for_grant_def descriptor_requires_mount_policy_def
      secret_obligations_def ceiling_obligations_def obligations_new_def
      OBLIGATION_EVALUATION_ORDER_def is_multi_inject_def)


text \<open>One order of ceilings: an estimate is covered by the intersection of a grant's ceiling and
  the policy's exactly when it is covered by both; a grant's ceiling exceeds the policy's exactly
  when the intersection changes it; and the trust policy calls a change of ceiling a reduction
  exactly when some grant within the old ceiling exceeds the new one. So the invalidation bus is
  silent only about changes that leave every grant within its ceiling, and never speaks without
  cause.\<close>

theorem ceiling_order:
  "(resource_estimate_is_covered est (intersect_resource_ceilings g a) \<longleftrightarrow>
      resource_estimate_is_covered est g \<and> resource_estimate_is_covered est a)
   \<and> (resource_ceiling_exceeds_authority g a \<longleftrightarrow> intersect_resource_ceilings g a \<noteq> g)
   \<and> (is_reduction_from cur prev \<longleftrightarrow>
      (\<exists>grant. \<not> grant_exceeds_authority_ceiling grant prev \<and> grant_exceeds_authority_ceiling grant cur))"
proof (intro conjI covered_intersect)
  show "resource_ceiling_exceeds_authority g a \<longleftrightarrow> intersect_resource_ceilings g a \<noteq> g"
    by (simp add: intersect_ceiling_eq)
  have "\<not> grant_exceeds_authority_ceiling (grant_at prev) prev"
    by (simp add: grant_exceeds_authority_ceiling_def grant_at_def effects_covered_iff
        ceiling_exceeds_refl)
  then show "is_reduction_from cur prev \<longleftrightarrow>
      (\<exists>grant. \<not> grant_exceeds_authority_ceiling grant prev \<and> grant_exceeds_authority_ceiling grant cur)"
    using reduction_iff no_reduction_keeps_grants by blast
qed

end
