(* ===== verification/Budget_Protocol.thy ===== *)
theory Budget_Protocol
  imports Prelude "HOL-Library.Extended_Nat"
begin

text \<open>
  The contract of stores that hand out a bounded right under a key: a call may spend one use of the
  right, some calls give a use back, and calls that issue the right anew are singled out. Over any
  sequence of calls without a new issue, the uses spent are bounded by what was there and what was
  given back. Capability leases follow it three times: for consumption, for claims, and for the
  exclusive dispatch of a claimed lease.
\<close>

definition spend :: "'k option \<Rightarrow> 'k \<Rightarrow> enat" where
  "spend x k = (if x = Some k then 1 else 0)"

locale budget_protocol =
  fixes left :: "'s \<Rightarrow> 'k \<Rightarrow> enat"
    and exec :: "'s \<Rightarrow> 'op \<Rightarrow> 's \<times> 'resp"
    and resets :: "'op \<Rightarrow> 'k option"
    and spends :: "'resp \<Rightarrow> 'k option"
    and earns :: "'resp \<Rightarrow> 'k option"
  assumes accounted: "resets x \<noteq> Some k \<Longrightarrow> exec s x = (s', r) \<Longrightarrow>
      spend (spends r) k + left s' k \<le> left s k + spend (earns r) k"
begin

lemma spent_within_budget:
  assumes "list_all (\<lambda>x. resets x \<noteq> Some k) xs"
  shows "enat (count_list (map spends (snd (run_ops exec s xs))) (Some k))
      + left (fst (run_ops exec s xs)) k
    \<le> left s k + enat (count_list (map earns (snd (run_ops exec s xs))) (Some k))"
  using assms
proof (induction xs arbitrary: s)
  case (Cons x xs)
  obtain s' r where e: "exec s x = (s', r)" by (cases "exec s x")
  let ?n = "enat (count_list (map spends (snd (run_ops exec s' xs))) (Some k))"
  let ?m = "enat (count_list (map earns (snd (run_ops exec s' xs))) (Some k))"
  let ?l = "left (fst (run_ops exec s' xs)) k"
  have "spend (spends r) k + (?n + ?l) \<le> spend (spends r) k + (left s' k + ?m)"
    using Cons.IH [of s'] Cons.prems by (intro add_left_mono) simp
  also have "\<dots> \<le> left s k + spend (earns r) k + ?m"
    using accounted [OF _ e] Cons.prems by (simp add: add.assoc [symmetric] add_right_mono)
  finally have "spend (spends r) k + ?n + ?l \<le> left s k + (spend (earns r) k + ?m)"
    by (simp add: add.assoc)
  moreover have "enat (count_list (y # ys) (Some k)) = spend y k + enat (count_list ys (Some k))"
    for y :: "'k option" and ys
    by (simp add: spend_def one_enat_def zero_enat_def)
  ultimately show ?case
    using e by (simp add: split_def Let_def del: count_list.simps)
qed (simp add: zero_enat_def)

lemma spent_at_most:
  assumes "list_all (\<lambda>x. resets x \<noteq> Some k) xs"
  shows "enat (count_list (map spends (snd (run_ops exec s xs))) (Some k))
    \<le> left s k + enat (count_list (map earns (snd (run_ops exec s xs))) (Some k))"
  using spent_within_budget [OF assms, of s] by (meson dual_order.trans le_iff_add)

end

end
