(* ===== verification/Capability_Leases.thy ===== *)
theory Capability_Leases
  imports Authorization Run_State Budget_Protocol
begin

text \<open>
  Capability leases (\<open>ironclaw_authorization/src/lib.rs\<close>): the lease record and its errors, the
  transitions both stores share, the in-memory store and the lease-backed authorizer. A mutation of
  a lease in place is a function from the lease to an error or the new lease; every transition
  checks before it writes. The wall clock is an argument of the calls that read it.

  Consumption, claims and exclusive dispatch are three instances of the budget protocol, so over any
  sequence of calls a lease is used no more often than it allows.
\<close>

section \<open>Leases and their transitions\<close>

datatype capability_lease_status =
    LeaseActive | LeaseClaimed | LeaseDispatching | LeaseConsumed | LeaseRevoked

record 'd capability_lease =
  cl_scope :: resource_scope
  cl_grant :: "'d capability_grant"
  cl_invocation_fingerprint :: "string option"
  cl_status :: capability_lease_status

definition capability_lease_new :: "resource_scope \<Rightarrow> 'd capability_grant \<Rightarrow> 'd capability_lease" where
  "capability_lease_new sc g =
     \<lparr>cl_scope = sc, cl_grant = g, cl_invocation_fingerprint = None, cl_status = LeaseActive\<rparr>"

datatype capability_lease_error =
    UnknownLease capability_grant_id
  | ExpiredLease capability_grant_id
  | ExhaustedLease capability_grant_id
  | UnclaimedFingerprintLease capability_grant_id
  | FingerprintMismatch capability_grant_id
  | InactiveLease capability_grant_id capability_lease_status
  | LeasePersistence string
  | LeaseVersionMismatch
  | CasExhausted

abbreviation lease_max :: "'d capability_lease \<Rightarrow> u64 option" where
  "lease_max l \<equiv> gc_max_invocations (cg_constraints (cl_grant l))"

definition set_lease_max :: "u64 option \<Rightarrow> 'd capability_lease \<Rightarrow> 'd capability_lease" where
  "set_lease_max n l =
     l\<lparr>cl_grant := (cl_grant l)\<lparr>cg_constraints :=
        (cg_constraints (cl_grant l))\<lparr>gc_max_invocations := n\<rparr>\<rparr>\<rparr>"

definition lease_is_expired :: "instant \<Rightarrow> 'd capability_lease \<Rightarrow> bool" where
  "lease_is_expired now l =
     (case gc_expires_at (cg_constraints (cl_grant l)) of Some t \<Rightarrow> t \<le> now | None \<Rightarrow> False)"

definition ensure_not_expired_or_exhausted ::
  "instant \<Rightarrow> 'd capability_lease \<Rightarrow> capability_lease_error + unit" where
  "ensure_not_expired_or_exhausted now l =
     (if lease_is_expired now l then Err (ExpiredLease (cg_id (cl_grant l)))
      else if lease_max l = Some 0 then Err (ExhaustedLease (cg_id (cl_grant l)))
      else Ok ())"

definition ensure_claimable ::
  "instant \<Rightarrow> string \<Rightarrow> 'd capability_lease \<Rightarrow> capability_lease_error + unit" where
  "ensure_claimable now fp l =
     (if cl_status l \<noteq> LeaseActive then Err (InactiveLease (cg_id (cl_grant l)) (cl_status l))
      else if cl_invocation_fingerprint l \<noteq> Some fp then Err (FingerprintMismatch (cg_id (cl_grant l)))
      else ensure_not_expired_or_exhausted now l)"

definition ensure_consumable :: "instant \<Rightarrow> 'd capability_lease \<Rightarrow> capability_lease_error + unit" where
  "ensure_consumable now l =
     rbind
       (case cl_status l of
          LeaseConsumed \<Rightarrow> Err (ExhaustedLease (cg_id (cl_grant l)))
        | LeaseRevoked \<Rightarrow> Err (InactiveLease (cg_id (cl_grant l)) (cl_status l))
        | _ \<Rightarrow> Ok ())
       (\<lambda>_. if cl_invocation_fingerprint l \<noteq> None
              \<and> \<not> (cl_status l = LeaseClaimed \<or> cl_status l = LeaseDispatching)
            then Err (UnclaimedFingerprintLease (cg_id (cl_grant l)))
            else ensure_not_expired_or_exhausted now l)"

type_synonym 'd lease_transition = "'d capability_lease \<Rightarrow> capability_lease_error + 'd capability_lease"

definition revoke_transition :: "'d lease_transition" where
  "revoke_transition l = Ok (l\<lparr>cl_status := LeaseRevoked\<rparr>)"

definition claim_transition :: "instant \<Rightarrow> string \<Rightarrow> 'd lease_transition" where
  "claim_transition now fp l =
     rbind (ensure_claimable now fp l) (\<lambda>_. Ok (l\<lparr>cl_status := LeaseClaimed\<rparr>))"

definition consume_transition :: "instant \<Rightarrow> 'd lease_transition" where
  "consume_transition now l =
     (let was_claimed = (cl_status l = LeaseClaimed \<or> cl_status l = LeaseDispatching) in
      rbind (ensure_consumable now l) (\<lambda>_.
        Ok (if cl_invocation_fingerprint l \<noteq> None
            then (set_lease_max (map_option (\<lambda>_. 0) (lease_max l)) l)\<lparr>cl_status := LeaseConsumed\<rparr>
            else (case lease_max l of
                    Some remaining \<Rightarrow>
                      (let l' = set_lease_max (Some (remaining - 1)) l in
                       if remaining - 1 = 0 then l'\<lparr>cl_status := LeaseConsumed\<rparr>
                       else if was_claimed then l'\<lparr>cl_status := LeaseActive\<rparr>
                       else l')
                  | None \<Rightarrow> if was_claimed then l\<lparr>cl_status := LeaseActive\<rparr> else l))))"

definition apply_begin_dispatch_claimed_transition :: "instant \<Rightarrow> string \<Rightarrow> 'd lease_transition" where
  "apply_begin_dispatch_claimed_transition now fp l =
     (if cl_status l \<noteq> LeaseClaimed then Err (InactiveLease (cg_id (cl_grant l)) (cl_status l))
      else if cl_invocation_fingerprint l \<noteq> Some fp then Err (FingerprintMismatch (cg_id (cl_grant l)))
      else rbind (ensure_not_expired_or_exhausted now l)
             (\<lambda>_. Ok (l\<lparr>cl_status := LeaseDispatching\<rparr>)))"

definition apply_abort_dispatch_claimed_transition :: "'d lease_transition" where
  "apply_abort_dispatch_claimed_transition l =
     (case cl_status l of
        LeaseDispatching \<Rightarrow> Ok (l\<lparr>cl_status := LeaseClaimed\<rparr>)
      | LeaseClaimed \<Rightarrow> Ok l
      | _ \<Rightarrow> Err (InactiveLease (cg_id (cl_grant l)) (cl_status l)))"

section \<open>The in-memory store\<close>

type_synonym lease_key = "resource_scope \<times> capability_grant_id"
type_synonym 'd lease_store = "(lease_key, 'd capability_lease) hmap"

definition lease_key :: "resource_scope \<Rightarrow> capability_grant_id \<Rightarrow> lease_key" where
  "lease_key sc i = (sc, i)"

definition ls_issue ::
  "'d lease_store \<Rightarrow> 'd capability_lease
    \<Rightarrow> 'd lease_store \<times> (capability_lease_error + 'd capability_lease)" where
  "ls_issue st l = (hput (lease_key (cl_scope l) (cg_id (cl_grant l))) l st, Ok l)"

definition ls_update ::
  "'d lease_transition \<Rightarrow> 'd lease_store \<Rightarrow> resource_scope \<Rightarrow> capability_grant_id
    \<Rightarrow> 'd lease_store \<times> (capability_lease_error + 'd capability_lease)" where
  "ls_update f st sc i =
     (case hget st (lease_key sc i) of
        None \<Rightarrow> (st, Err (UnknownLease i))
      | Some l \<Rightarrow>
          (case f l of
             Inl e \<Rightarrow> (st, Err e)
           | Inr l' \<Rightarrow> (hput (lease_key sc i) l' st, Ok l')))"

definition ls_revoke where
  "ls_revoke st sc i = ls_update revoke_transition st sc i"

definition ls_claim where
  "ls_claim now st sc i fp = ls_update (claim_transition now fp) st sc i"

definition ls_consume where
  "ls_consume now st sc i = ls_update (consume_transition now) st sc i"

definition ls_begin_dispatch_claimed where
  "ls_begin_dispatch_claimed now st sc i fp =
     ls_update (apply_begin_dispatch_claimed_transition now fp) st sc i"

definition ls_abort_dispatch_claimed where
  "ls_abort_dispatch_claimed st sc i = ls_update apply_abort_dispatch_claimed_transition st sc i"

definition ls_get :: "'d lease_store \<Rightarrow> resource_scope \<Rightarrow> capability_grant_id \<Rightarrow> 'd capability_lease option"
where
  "ls_get st sc i = hget st (lease_key sc i)"

definition ls_leases_for_scope :: "'d lease_store \<Rightarrow> resource_scope \<Rightarrow> 'd capability_lease list" where
  "ls_leases_for_scope st sc =
     sort_key (\<lambda>l. cg_id (cl_grant l)) (filter (\<lambda>l. same_scope_owner (cl_scope l) sc) (hvalues st))"

definition lease_is_authorizing ::
  "instant \<Rightarrow> 'd execution_context \<Rightarrow> 'd capability_lease \<Rightarrow> bool" where
  "lease_is_authorizing now c l =
     (cl_status l = LeaseActive \<and> invocation_id (cl_scope l) = ctx_invocation_id c
      \<and> \<not> lease_is_expired now l \<and> lease_max l \<noteq> Some 0)"

text \<open>Filtering with a predicate that reads the clock anew for every element.\<close>

fun filter_clocked :: "(nat \<Rightarrow> instant) \<Rightarrow> (instant \<Rightarrow> 'a \<Rightarrow> bool) \<Rightarrow> 'a list \<Rightarrow> 'a list" where
  "filter_clocked clock P [] = []"
| "filter_clocked clock P (x # xs) =
     (if P (clock 0) x then x # filter_clocked (clock \<circ> Suc) P xs
      else filter_clocked (clock \<circ> Suc) P xs)"

definition ls_active_leases_for_context ::
  "(nat \<Rightarrow> instant) \<Rightarrow> 'd lease_store \<Rightarrow> 'd execution_context \<Rightarrow> 'd capability_lease list" where
  "ls_active_leases_for_context clock st c =
     filter_clocked clock (\<lambda>now. lease_is_authorizing now c)
       (ls_leases_for_scope st (ctx_resource_scope c))"

definition grants_of_leases :: "'d capability_lease list \<Rightarrow> 'd capability_grant list" where
  "grants_of_leases ls = map cl_grant (filter (\<lambda>l. cl_invocation_fingerprint l = None) ls)"

definition ls_active_grants_for_context where
  "ls_active_grants_for_context clock st c = grants_of_leases (ls_active_leases_for_context clock st c)"

section \<open>The lease-backed authorizer\<close>

text \<open>\<open>lease_clock\<close> gives the readings while the store lists the active leases, \<open>clock\<close> those while
  the grants are examined.\<close>

definition lease_authorize ::
  "(nat \<Rightarrow> instant) \<Rightarrow> (nat \<Rightarrow> instant) \<Rightarrow> 'd::linorder lease_store \<Rightarrow> 'd execution_context
    \<Rightarrow> 'd capability_descriptor \<Rightarrow> 'd resource_estimate \<Rightarrow> 'd decision" where
  "lease_authorize lease_clock clock st c d est =
     (if \<not> is_ok (context_validate c) then DecisionDeny InternalInvariantViolation
      else authorize_from_grants clock c d est
             (ctx_grants c @ ls_active_grants_for_context lease_clock st c))"

definition lease_authorize_spawn where
  "lease_authorize_spawn lease_clock clock st c d est =
     lease_authorize lease_clock clock st c (spawn_descriptor d) est"

definition lease_authorize_with_trust ::
  "(nat \<Rightarrow> instant) \<Rightarrow> (nat \<Rightarrow> instant) \<Rightarrow> 'd::linorder lease_store \<Rightarrow> 'd execution_context
    \<Rightarrow> 'd capability_descriptor \<Rightarrow> 'd resource_estimate \<Rightarrow> 'd trust_decision \<Rightarrow> 'd decision" where
  "lease_authorize_with_trust lease_clock clock st c d est trust =
     (if \<not> is_ok (context_validate c) then DecisionDeny InternalInvariantViolation
      else authorize_from_grants_with_trust clock c d est
             (ctx_grants c @ ls_active_grants_for_context lease_clock st c) trust)"

definition lease_authorize_spawn_with_trust where
  "lease_authorize_spawn_with_trust lease_clock clock st c d est trust =
     lease_authorize_with_trust lease_clock clock st c (spawn_descriptor d) est trust"

section \<open>Sequences of calls\<close>

datatype 'd lease_op =
    LoIssue "'d capability_lease"
  | LoRevoke resource_scope capability_grant_id
  | LoClaim instant resource_scope capability_grant_id string
  | LoConsume instant resource_scope capability_grant_id
  | LoBegin instant resource_scope capability_grant_id string
  | LoAbort resource_scope capability_grant_id

datatype lease_event = LeIssued | LeRevokedEv | LeClaimed | LeConsumed | LeBegun | LeAborted

type_synonym 'd lease_resp = "lease_event \<times> lease_key \<times> (capability_lease_error + 'd capability_lease)"

fun lease_exec :: "'d lease_store \<Rightarrow> 'd lease_op \<Rightarrow> 'd lease_store \<times> 'd lease_resp" where
  "lease_exec st (LoIssue l) =
     (case ls_issue st l of (st', r) \<Rightarrow> (st', LeIssued, lease_key (cl_scope l) (cg_id (cl_grant l)), r))"
| "lease_exec st (LoRevoke sc i) = (case ls_revoke st sc i of (st', r) \<Rightarrow> (st', LeRevokedEv, lease_key sc i, r))"
| "lease_exec st (LoClaim now sc i fp) =
     (case ls_claim now st sc i fp of (st', r) \<Rightarrow> (st', LeClaimed, lease_key sc i, r))"
| "lease_exec st (LoConsume now sc i) =
     (case ls_consume now st sc i of (st', r) \<Rightarrow> (st', LeConsumed, lease_key sc i, r))"
| "lease_exec st (LoBegin now sc i fp) =
     (case ls_begin_dispatch_claimed now st sc i fp of (st', r) \<Rightarrow> (st', LeBegun, lease_key sc i, r))"
| "lease_exec st (LoAbort sc i) =
     (case ls_abort_dispatch_claimed st sc i of (st', r) \<Rightarrow> (st', LeAborted, lease_key sc i, r))"

text \<open>The key a successful call of a kind acted on.\<close>

definition done_for :: "lease_event \<Rightarrow> 'd lease_resp \<Rightarrow> lease_key option" where
  "done_for ev resp = (case resp of (ev', k, r) \<Rightarrow> if ev' = ev \<and> is_ok r then Some k else None)"

fun lease_reissues :: "'d lease_op \<Rightarrow> lease_key option" where
  "lease_reissues (LoIssue l) = Some (lease_key (cl_scope l) (cg_id (cl_grant l)))"
| "lease_reissues _ = None"

section \<open>What a lease still allows\<close>

definition uses_left :: "'d capability_lease \<Rightarrow> enat" where
  "uses_left l =
     (if cl_status l = LeaseConsumed \<or> cl_status l = LeaseRevoked then 0
      else if cl_invocation_fingerprint l \<noteq> None then (if lease_max l = Some 0 then 0 else 1)
      else (case lease_max l of None \<Rightarrow> \<infinity> | Some n \<Rightarrow> enat (unat n)))"

definition claims_left :: "'d capability_lease \<Rightarrow> enat" where
  "claims_left l = (if cl_status l = LeaseActive \<and> cl_invocation_fingerprint l \<noteq> None then 1 else 0)"

definition dispatches_left :: "'d capability_lease \<Rightarrow> enat" where
  "dispatches_left l =
     (if cl_status l = LeaseClaimed \<or> cl_status l = LeaseActive \<and> cl_invocation_fingerprint l \<noteq> None
      then 1 else 0)"

definition in_store :: "('d capability_lease \<Rightarrow> enat) \<Rightarrow> 'd lease_store \<Rightarrow> lease_key \<Rightarrow> enat" where
  "in_store f st k = (case hget st k of None \<Rightarrow> 0 | Some l \<Rightarrow> f l)"

lemma ensure_live_Ok:
  "ensure_not_expired_or_exhausted now l = Ok () \<longleftrightarrow> \<not> lease_is_expired now l \<and> lease_max l \<noteq> Some 0"
  by (simp add: ensure_not_expired_or_exhausted_def)

lemma ensure_claimable_Ok:
  "ensure_claimable now fp l = Ok () \<longleftrightarrow>
     cl_status l = LeaseActive \<and> cl_invocation_fingerprint l = Some fp \<and> \<not> lease_is_expired now l
     \<and> lease_max l \<noteq> Some 0"
  by (simp add: ensure_claimable_def ensure_live_Ok)

lemma ensure_consumable_Ok:
  "ensure_consumable now l = Ok () \<longleftrightarrow>
     cl_status l \<in> {LeaseActive, LeaseClaimed, LeaseDispatching}
     \<and> (cl_invocation_fingerprint l \<noteq> None \<longrightarrow> cl_status l \<noteq> LeaseActive)
     \<and> \<not> lease_is_expired now l \<and> lease_max l \<noteq> Some 0"
  by (cases "cl_status l") (auto simp: ensure_consumable_def ensure_live_Ok)

lemma set_lease_max_fields [simp]:
  "cl_scope (set_lease_max n l) = cl_scope l" "cl_status (set_lease_max n l) = cl_status l"
  "cl_invocation_fingerprint (set_lease_max n l) = cl_invocation_fingerprint l"
  "lease_max (set_lease_max n l) = n" "cg_id (cl_grant (set_lease_max n l)) = cg_id (cl_grant l)"
  "cg_capability (cl_grant (set_lease_max n l)) = cg_capability (cl_grant l)"
  by (simp_all add: set_lease_max_def)

lemmas transition_defs = revoke_transition_def claim_transition_def consume_transition_def
  apply_begin_dispatch_claimed_transition_def apply_abort_dispatch_claimed_transition_def

named_theorems lease_laws "what a transition does to the remaining rights of a lease"

lemma consume_uses [lease_laws]:
  assumes "consume_transition now l = Ok l'"
  shows "1 + uses_left l' \<le> uses_left l"
proof -
  have c: "ensure_consumable now l = Ok ()"
    using assms by (auto simp: consume_transition_def Let_def rbind_eq_Inr)
  show ?thesis
  proof (cases "cl_invocation_fingerprint l = None")
    case False
    then show ?thesis using assms c
      by (auto simp: consume_transition_def uses_left_def ensure_consumable_Ok)
  next
    case True
    show ?thesis
    proof (cases "lease_max l")
      case None
      then show ?thesis using True c by (auto simp: uses_left_def ensure_consumable_Ok)
    next
      case (Some n)
      then have n: "unat n = Suc (unat (n - 1))"
        using c by (simp add: ensure_consumable_Ok unat_minus_one unat_gt_0)
      have l: "uses_left l = enat (unat n)"
        using c True Some by (auto simp: uses_left_def ensure_consumable_Ok)
      have "uses_left l' \<le> enat (unat (n - 1))"
        using assms c True Some
        by (auto simp: consume_transition_def uses_left_def Let_def split: if_splits)
      then show ?thesis
        unfolding l n by (cases "uses_left l'") (auto simp: one_enat_def)
    qed
  qed
qed

lemma transition_uses [lease_laws]:
  "revoke_transition l = Ok l' \<Longrightarrow> uses_left l' \<le> uses_left l"
  "claim_transition now fp l = Ok l' \<Longrightarrow> uses_left l' \<le> uses_left l"
  "apply_begin_dispatch_claimed_transition now fp l = Ok l' \<Longrightarrow> uses_left l' \<le> uses_left l"
  "apply_abort_dispatch_claimed_transition l = Ok l' \<Longrightarrow> uses_left l' \<le> uses_left l"
  by (auto simp: transition_defs uses_left_def rbind_eq_Inr ensure_claimable_Ok
      split: if_splits capability_lease_status.splits)

lemma transition_claims [lease_laws]:
  "revoke_transition l = Ok l' \<Longrightarrow> claims_left l' \<le> claims_left l"
  "claim_transition now fp l = Ok l' \<Longrightarrow> 1 + claims_left l' \<le> claims_left l"
  "consume_transition now l = Ok l' \<Longrightarrow> claims_left l' \<le> claims_left l"
  "apply_begin_dispatch_claimed_transition now fp l = Ok l' \<Longrightarrow> claims_left l' \<le> claims_left l"
  "apply_abort_dispatch_claimed_transition l = Ok l' \<Longrightarrow> claims_left l' \<le> claims_left l"
  by (auto simp: transition_defs claims_left_def rbind_eq_Inr ensure_claimable_Ok Let_def
      split: if_splits capability_lease_status.splits option.splits)

lemma transition_dispatches [lease_laws]:
  "revoke_transition l = Ok l' \<Longrightarrow> dispatches_left l' \<le> dispatches_left l"
  "claim_transition now fp l = Ok l' \<Longrightarrow> dispatches_left l' \<le> dispatches_left l"
  "consume_transition now l = Ok l' \<Longrightarrow> dispatches_left l' \<le> dispatches_left l"
  "apply_begin_dispatch_claimed_transition now fp l = Ok l' \<Longrightarrow> 1 + dispatches_left l' \<le> dispatches_left l"
  "apply_abort_dispatch_claimed_transition l = Ok l' \<Longrightarrow> dispatches_left l' \<le> dispatches_left l + 1"
  by (auto simp: transition_defs dispatches_left_def rbind_eq_Inr ensure_claimable_Ok
      ensure_consumable_Ok Let_def split: if_splits capability_lease_status.splits option.splits)

text \<open>An update reads one record and either writes it through its transition or changes nothing.\<close>

lemma ls_update_cases:
  assumes "ls_update f st sc i = (st', r)"
  obtains (applied) l l' where "hget st (lease_key sc i) = Some l" "f l = Ok l'" "r = Ok l'"
      "st' = hput (lease_key sc i) l' st"
  | (refused) e where "st' = st" "r = Err e"
proof (cases "hget st (lease_key sc i)")
  case None
  then show ?thesis using assms refused [of "UnknownLease i"] by (simp add: ls_update_def)
next
  case (Some l)
  show ?thesis
  proof (cases "f l")
    case (Inl e)
    then show ?thesis using Some assms refused [of e] by (simp add: ls_update_def)
  next
    case (Inr l')
    then have "r = Ok l'" "st' = hput (lease_key sc i) l' st"
      using Some assms by (auto simp: ls_update_def)
    then show ?thesis using applied Some Inr by blast
  qed
qed

lemma in_store_update:
  assumes u: "ls_update f st sc i = (st', r)" and law: "\<And>l l'. f l = Ok l' \<Longrightarrow> a + m l' \<le> m l + b"
  shows "(if is_ok r \<and> lease_key sc i = k then a else 0) + in_store m st' k
    \<le> in_store m st k + (if is_ok r \<and> lease_key sc i = k then b else 0)"
  using u
proof (cases rule: ls_update_cases)
  case (applied l l')
  then show ?thesis using law [of l l'] by (auto simp: in_store_def hmap_simps)
qed simp

lemma spend_done_for [simp]:
  "spend (done_for ev (ev', key, r)) k = (if ev' = ev \<and> is_ok r \<and> key = k then 1 else 0)"
  by (simp add: spend_def done_for_def)

lemma spend_None [simp]: "spend None k = 0"
  by (simp add: spend_def)

lemma issue_other:
  "lease_key (cl_scope l) (cg_id (cl_grant l)) \<noteq> k \<Longrightarrow> in_store m (fst (ls_issue st l)) k = in_store m st k"
  by (simp add: ls_issue_def in_store_def hmap_simps)

lemmas lease_call_defs = ls_revoke_def ls_claim_def ls_consume_def ls_begin_dispatch_claimed_def
  ls_abort_dispatch_claimed_def

lemma lease_exec_law:
  assumes e: "lease_exec st x = (st', resp)" and "lease_reissues x \<noteq> Some k"
    and revoke: "\<And>l l'. revoke_transition l = Ok l' \<Longrightarrow> m l' \<le> m l"
    and claim: "\<And>now fp l l'. claim_transition now fp l = Ok l' \<Longrightarrow> (if ev = LeClaimed then 1 else 0) + m l' \<le> m l"
    and consume: "\<And>now l l'. consume_transition now l = Ok l' \<Longrightarrow> (if ev = LeConsumed then 1 else 0) + m l' \<le> m l"
    and begins: "\<And>now fp l l'. apply_begin_dispatch_claimed_transition now fp l = Ok l' \<Longrightarrow>
      (if ev = LeBegun then 1 else 0) + m l' \<le> m l"
    and abort: "\<And>l l'. apply_abort_dispatch_claimed_transition l = Ok l' \<Longrightarrow>
      m l' \<le> m l + (if earned = Some LeAborted then 1 else 0)"
    and ev: "ev \<in> {LeClaimed, LeConsumed, LeBegun}" and earned: "earned \<in> {None, Some LeAborted}"
  shows "spend (done_for ev resp) k + in_store m st' k
    \<le> in_store m st k + spend (Option.bind earned (\<lambda>a. done_for a resp)) k"
proof (cases x)
  case (LoIssue l)
  then show ?thesis using e assms(2) ev earned issue_other [of l k m st]
    by (auto simp: ls_issue_def)
next
  case (LoRevoke sc i)
  then show ?thesis
    using e ev earned in_store_update [of revoke_transition st sc i _ _ 0 m 0 k] revoke
    by (auto simp: lease_call_defs split: prod.splits)
next
  case (LoClaim now sc i fp)
  then show ?thesis
    using e ev earned
      in_store_update [of "claim_transition now fp" st sc i _ _ "if ev = LeClaimed then 1 else 0" m 0 k] claim
    by (auto simp: lease_call_defs split: prod.splits if_splits)
next
  case (LoConsume now sc i)
  then show ?thesis
    using e ev earned
      in_store_update [of "consume_transition now" st sc i _ _ "if ev = LeConsumed then 1 else 0" m 0 k] consume
    by (auto simp: lease_call_defs split: prod.splits if_splits)
next
  case (LoBegin now sc i fp)
  then show ?thesis
    using e ev earned
      in_store_update [of "apply_begin_dispatch_claimed_transition now fp" st sc i _ _
        "if ev = LeBegun then 1 else 0" m 0 k] begins
    by (auto simp: lease_call_defs split: prod.splits if_splits)
next
  case (LoAbort sc i)
  then show ?thesis
    using e ev earned
      in_store_update [of apply_abort_dispatch_claimed_transition st sc i _ _ 0 m
        "if earned = Some LeAborted then 1 else 0" k] abort
    by (auto simp: lease_call_defs split: prod.splits if_splits)
qed

interpretation lease_uses: budget_protocol
  "in_store uses_left" lease_exec lease_reissues "done_for LeConsumed" "\<lambda>_. None"
proof (unfold_locales, goal_cases)
  case (1 x k s s' r)
  then show ?case
    unfolding spend_None add_0_right
    by (intro lease_exec_law [where m = uses_left and ev = LeConsumed and earned = None, simplified spend_None bind.simps add_0_right])
       (simp_all add: lease_laws)
qed

interpretation lease_claims: budget_protocol
  "in_store claims_left" lease_exec lease_reissues "done_for LeClaimed" "\<lambda>_. None"
proof (unfold_locales, goal_cases)
  case (1 x k s s' r)
  then show ?case
    unfolding spend_None add_0_right
    by (intro lease_exec_law [where m = claims_left and ev = LeClaimed and earned = None, simplified spend_None bind.simps add_0_right])
       (simp_all add: lease_laws)
qed

interpretation lease_dispatches: budget_protocol
  "in_store dispatches_left" lease_exec lease_reissues "done_for LeBegun" "done_for LeAborted"
proof (unfold_locales, goal_cases)
  case (1 x k s s' r)
  then show ?case
    by (intro lease_exec_law [where m = dispatches_left and ev = LeBegun and earned = "Some LeAborted", simplified bind.simps])
       (simp_all add: lease_laws)
qed

section \<open>Terms of a lease\<close>

text \<open>Everything of a lease but its status and its remaining count: what no transition changes.\<close>

definition lease_terms :: "'d capability_lease \<Rightarrow> 'd capability_lease" where
  "lease_terms l = set_lease_max None (l\<lparr>cl_status := LeaseActive\<rparr>)"

lemma lease_terms_status [simp]: "lease_terms (l\<lparr>cl_status := st\<rparr>) = lease_terms l"
  by (simp add: lease_terms_def set_lease_max_def)

lemma lease_terms_max [simp]: "lease_terms (set_lease_max n l) = lease_terms l"
  by (simp add: lease_terms_def set_lease_max_def)

lemma lease_terms_fields:
  assumes "lease_terms l' = lease_terms l"
  shows "cl_scope l' = cl_scope l" "cl_invocation_fingerprint l' = cl_invocation_fingerprint l"
    "cg_id (cl_grant l') = cg_id (cl_grant l)" "cg_capability (cl_grant l') = cg_capability (cl_grant l)"
    "cg_grantee (cl_grant l') = cg_grantee (cl_grant l)"
  using assms
  by (cases l; cases l'; cases "cl_grant l"; cases "cl_grant l'";
      simp add: lease_terms_def set_lease_max_def)+

definition keeps_terms :: "'d lease_transition \<Rightarrow> bool" where
  "keeps_terms f = (\<forall>l l'. f l = Ok l' \<longrightarrow> lease_terms l' = lease_terms l)"

lemma transitions_keep_terms [simp]:
  "keeps_terms revoke_transition" "keeps_terms (claim_transition now fp)"
  "keeps_terms (consume_transition now)" "keeps_terms (apply_begin_dispatch_claimed_transition now fp)"
  "keeps_terms apply_abort_dispatch_claimed_transition"
  unfolding keeps_terms_def
  by (auto simp: transition_defs rbind_eq_Inr Let_def
      split: if_splits capability_lease_status.splits option.splits)

lemma ls_update_terms:
  assumes "keeps_terms f" and "hget (fst (ls_update f st sc i)) k = Some l'"
  shows "\<exists>l. hget st k = Some l \<and> lease_terms l' = lease_terms l"
proof -
  obtain st' r where u: "ls_update f st sc i = (st', r)" by (cases "ls_update f st sc i")
  have "hget st' k = Some l'" using assms(2) u by simp
  with u show ?thesis
    using assms(1) unfolding keeps_terms_def
    by (cases rule: ls_update_cases) (auto simp: hmap_simps split: if_splits)
qed

lemma lease_exec_terms:
  assumes "lease_reissues x = None" and "hget (fst (lease_exec st x)) k = Some l'"
  shows "\<exists>l. hget st k = Some l \<and> lease_terms l' = lease_terms l"
  using assms
  by (cases x) (auto simp: lease_call_defs case_prod_beta dest!: ls_update_terms [rotated])

section \<open>Ambient grants\<close>

lemma filter_clocked_member:
  "x \<in> set (filter_clocked clock P xs) \<Longrightarrow> x \<in> set xs \<and> (\<exists>n. P (clock n) x)"
  by (induction clock P xs rule: filter_clocked.induct) (auto split: if_splits)

lemma authorizing_uses_left: "lease_is_authorizing now c l \<Longrightarrow> uses_left l \<noteq> 0"
  by (auto simp: lease_is_authorizing_def uses_left_def unat_eq_zero zero_enat_def one_enat_def
      split: option.splits)

definition ambient ::
  "(nat \<Rightarrow> instant) \<Rightarrow> 'd lease_store \<Rightarrow> 'd execution_context \<Rightarrow> 'd capability_lease \<Rightarrow> bool" where
  "ambient clock st c l =
     (l \<in> set (hvalues st) \<and> same_scope_owner (cl_scope l) (ctx_resource_scope c)
      \<and> invocation_id (cl_scope l) = ctx_invocation_id c \<and> cl_invocation_fingerprint l = None
      \<and> cl_status l = LeaseActive \<and> (\<exists>n. \<not> lease_is_expired (clock n) l) \<and> uses_left l \<noteq> 0)"

lemma active_grant_ambient:
  assumes "g \<in> set (ls_active_grants_for_context clock st c)"
  shows "\<exists>l. ambient clock st c l \<and> g = cl_grant l"
proof -
  obtain l where l: "g = cl_grant l" "cl_invocation_fingerprint l = None"
    "l \<in> set (ls_active_leases_for_context clock st c)"
    using assms by (auto simp: ls_active_grants_for_context_def grants_of_leases_def)
  then obtain n where "lease_is_authorizing (clock n) c l" "l \<in> set (hvalues st)"
    "same_scope_owner (cl_scope l) (ctx_resource_scope c)"
    using filter_clocked_member [of l clock "\<lambda>now. lease_is_authorizing now c"
        "ls_leases_for_scope st (ctx_resource_scope c)"]
    by (auto simp: ls_active_leases_for_context_def ls_leases_for_scope_def)
  then have "ambient clock st c l"
    using l authorizing_uses_left by (auto simp: ambient_def lease_is_authorizing_def)
  then show ?thesis using l by blast
qed

section \<open>Properties\<close>

text \<open>(C18) A lease is spent within its grant: over any sequence of calls that does not issue it anew, a
  lease bound to a fingerprint is claimed at most once and consumed at most once, and its exclusive
  dispatch begins at most once more often than it is aborted; a lease without a fingerprint and with
  a limit of invocations is consumed at most that often and never claimed; and a consumed or revoked
  lease is never consumed again. The counter of remaining invocations never wraps.\<close>

theorem lease_spent_within_grant:
  assumes "list_all (\<lambda>x. lease_reissues x \<noteq> Some k) xs" and "hget st k = Some l"
  shows "let n = (\<lambda>ev. count_list (map (done_for ev) (snd (run_ops lease_exec st xs))) (Some k)) in
    (cl_invocation_fingerprint l \<noteq> None \<longrightarrow>
       n LeConsumed \<le> 1 \<and> n LeClaimed \<le> 1 \<and> n LeBegun \<le> 1 + n LeAborted)
    \<and> (cl_invocation_fingerprint l = None \<longrightarrow>
       n LeClaimed = 0 \<and> (\<forall>m. lease_max l = Some m \<longrightarrow> n LeConsumed \<le> unat m))
    \<and> (cl_status l = LeaseConsumed \<or> cl_status l = LeaseRevoked \<longrightarrow> n LeConsumed = 0)"
proof -
  define n where "n = (\<lambda>ev. count_list (map (done_for ev) (snd (run_ops lease_exec st xs))) (Some k))"
  have none: "enat (count_list (map (\<lambda>_. None) ys) (Some k)) = 0" for ys
    by (induction ys) (simp_all add: zero_enat_def)
  have u: "enat (n LeConsumed) \<le> uses_left l"
    using lease_uses.spent_at_most [OF assms(1), of st] assms(2)
    by (simp add: n_def in_store_def none)
  have c: "enat (n LeClaimed) \<le> claims_left l"
    using lease_claims.spent_at_most [OF assms(1), of st] assms(2)
    by (simp add: n_def in_store_def none)
  have d: "enat (n LeBegun) \<le> dispatches_left l + enat (n LeAborted)"
    using lease_dispatches.spent_at_most [OF assms(1), of st] assms(2)
    by (simp add: n_def in_store_def)
  have b: "n LeBegun \<le> 1 + n LeAborted" "n LeClaimed \<le> 1"
    using d c
    by (auto simp: dispatches_left_def claims_left_def one_enat_def zero_enat_def split: if_splits)
  have "n LeConsumed \<le> 1" if "cl_invocation_fingerprint l \<noteq> None"
    using that u by (auto simp: uses_left_def one_enat_def zero_enat_def split: if_splits)
  moreover have "n LeClaimed = 0" if "cl_invocation_fingerprint l = None"
    using that c by (simp add: claims_left_def zero_enat_def)
  moreover have "n LeConsumed \<le> unat m" if "cl_invocation_fingerprint l = None" "lease_max l = Some m" for m
    using that u by (auto simp: uses_left_def zero_enat_def split: if_splits)
  moreover have "n LeConsumed = 0" if "cl_status l = LeaseConsumed \<or> cl_status l = LeaseRevoked"
    using that u by (auto simp: uses_left_def zero_enat_def split: if_splits)
  ultimately show ?thesis using b unfolding n_def [symmetric] Let_def by blast
qed

definition sample_lease :: "string option \<Rightarrow> nat capability_lease" where
  "sample_lease fp =
     \<lparr>cl_scope = sample_scope 1, cl_grant = sample_grant, cl_invocation_fingerprint = fp,
      cl_status = LeaseActive\<rparr>"

theorem lease_spent_within_grant_witness:
  "let st = fst (ls_issue [] (sample_lease (Some ''fp'')));
       sc = sample_scope 1;
       xs = [LoConsume 0 sc 7, LoClaim 0 sc 7 ''fp'', LoClaim 0 sc 7 ''fp'', LoBegin 0 sc 7 ''fp'',
             LoConsume 0 sc 7, LoConsume 0 sc 7]
   in count_list (map (done_for LeConsumed) (snd (run_ops lease_exec st xs))) (Some (lease_key sc 7)) \<le> 1
      \<and> count_list (map (done_for LeClaimed) (snd (run_ops lease_exec st xs))) (Some (lease_key sc 7)) \<le> 1"
proof -
  let ?st = "fst (ls_issue [] (sample_lease (Some ''fp'')))"
  let ?sc = "sample_scope 1"
  let ?xs = "[LoConsume 0 ?sc 7, LoClaim 0 ?sc 7 ''fp'', LoClaim 0 ?sc 7 ''fp'', LoBegin 0 ?sc 7 ''fp'',
      LoConsume 0 ?sc 7, LoConsume 0 ?sc 7] :: nat lease_op list"
  have x: "list_all (\<lambda>x. lease_reissues x \<noteq> Some (lease_key ?sc 7)) ?xs" by simp
  have g: "hget ?st (lease_key ?sc 7) = Some (sample_lease (Some ''fp''))"
    by (simp add: ls_issue_def sample_lease_def sample_grant_def lease_key_def)
  show ?thesis
    using lease_spent_within_grant [OF x g] unfolding Let_def by (simp only: sample_lease_def
        capability_lease.simps option.distinct simp_thms)
qed

text \<open>(C19) Leased authority: what the lease-backed authorizer allows rests on a grant of the context or
  of a lease of the same owner and invocation that is active, not bound to a fingerprint, not
  expired and with a use left; the grant names the capability and a principal of the context, and it
  covers the effects together with the policy's ceiling. A claimed, consumed or revoked lease, and a
  lease bound to a fingerprint, never authorizes by itself.\<close>

theorem leased_authority:
  assumes "lease_authorize_with_trust lease_clock clock st c d est trust = DecisionAllow obs"
  shows "\<exists>g. (g \<in> set (ctx_grants c) \<or> (\<exists>l. ambient lease_clock st c l \<and> g = cl_grant l))
    \<and> cg_capability g = cd_id d \<and> principal_matches_context (cg_grantee g) c
    \<and> set (cd_effects d) \<subseteq> set (gc_allowed_effects (cg_constraints g))
        \<inter> set (ac_allowed_effects (td_authority_ceiling trust))
    \<and> resource_estimate_is_covered est (gc_resource_ceiling (cg_constraints g))
    \<and> ctx_trust c = td_effective_trust trust \<and> context_validate c = Ok ()"
proof -
  let ?gs = "ctx_grants c @ ls_active_grants_for_context lease_clock st c"
  let ?a = "Some (td_authority_ceiling trust)"
  have ok: "is_ok (context_validate c)" "ctx_trust c = td_effective_trust trust"
    and ex: "examine_grants clock c d est ?a False ?gs = DecisionAllow obs"
    using assms
    by (auto simp: lease_authorize_with_trust_def authorize_from_grants_with_trust_def
        authorize_from_grants_with_authority_ceiling_def split: if_splits)
  obtain n where n: "n < length ?gs" "eligible c d (clock n) (?gs ! n)"
    "grant_allows d est ?a (?gs ! n) = Some obs"
    using ex unfolding examine_grants_Allow by blast
  define g where "g = ?gs ! n"
  have "g \<in> set ?gs" using n(1) unfolding g_def by (rule nth_mem)
  then have "g \<in> set (ctx_grants c) \<or> (\<exists>l. ambient lease_clock st c l \<and> g = cl_grant l)"
    using active_grant_ambient by auto
  moreover have "context_validate c = Ok ()" using ok(1) by (auto simp: is_ok_iff)
  ultimately show ?thesis
    using n(2,3) ok(2) unfolding g_def [symmetric]
    by (intro exI [of _ g]) (auto simp: eligible_def grant_allows_def effects_covered_iff
        effective_ceiling_def covered_intersect split: if_splits)
qed

theorem leased_authority_witness:
  "\<exists>l. ambient (\<lambda>_. 0) (fst (ls_issue [] (sample_lease None))) (sample_context []) l"
proof -
  let ?st = "fst (ls_issue [] (sample_lease None))"
  have gs: "ls_active_grants_for_context (\<lambda>_. 0) ?st (sample_context []) = [sample_grant]"
    by (simp add: ls_active_grants_for_context_def grants_of_leases_def ls_active_leases_for_context_def
        ls_leases_for_scope_def hvalues_def ls_issue_def same_scope_owner_def lease_is_authorizing_def
        lease_is_expired_def sample_lease_def sample_defs)
  have "lease_authorize_with_trust (\<lambda>_. 0) (\<lambda>_. 50) ?st (sample_context []) sample_descriptor
      sample_estimate sample_trust
      = DecisionAllow [ApplyNetworkPolicy (gc_network (cg_constraints sample_grant))]"
    unfolding lease_authorize_with_trust_def sample_context_valid gs
    using sample_allowed by (simp add: sample_context_def)
  from leased_authority [OF this] show ?thesis by (auto simp: sample_context_def)
qed

end
