(* ===== verification/Interleaving.thy ===== *)
theory Interleaving
  imports Prelude
begin

text \<open>
  Asynchronous tasks over shared state. A task is a sequence of atomic steps, one per call into a
  shared store, and other tasks and other callers of the stores run between them. The system is a
  step relation on the shared state and the list of tasks; a schedule makes it executable.

  Two contracts say what a component owes to the others: \<open>guarded_tasks\<close> (every step keeps an
  invariant of the state and the assertions of all tasks, in the manner of rely and guarantee) and
  \<open>exclusive_tasks\<close> (a task wins a key only by closing it, so no key is won twice).
\<close>

section \<open>The step relation\<close>

inductive system_step ::
  "('f \<Rightarrow> 'w \<Rightarrow> 't \<Rightarrow> 'w \<times> 't) \<Rightarrow> ('e \<Rightarrow> 'w \<Rightarrow> 'w) \<Rightarrow> ('e \<Rightarrow> bool) \<Rightarrow> ('t \<Rightarrow> bool)
    \<Rightarrow> 'w \<times> 't list \<Rightarrow> 'w \<times> 't list \<Rightarrow> bool"
  for tstep estep allowed starts where
  spawn: "starts t \<Longrightarrow> system_step tstep estep allowed starts (w, ts) (w, ts @ [t])"
| task: "i < length ts \<Longrightarrow> tstep f w (ts ! i) = (w', t')
    \<Longrightarrow> system_step tstep estep allowed starts (w, ts) (w', ts[i := t'])"
| call: "allowed e \<Longrightarrow> system_step tstep estep allowed starts (w, ts) (estep e w, ts)"

abbreviation system_steps where
  "system_steps tstep estep allowed starts \<equiv> (system_step tstep estep allowed starts)\<^sup>*\<^sup>*"

inductive_cases system_step_cases [elim]: "system_step tstep estep allowed starts (w, ts) s"

section \<open>Schedules\<close>

datatype ('f, 'e, 't) turn = TurnSpawn 't | TurnTask nat 'f | TurnCall 'e

fun take_turn ::
  "('f \<Rightarrow> 'w \<Rightarrow> 't \<Rightarrow> 'w \<times> 't) \<Rightarrow> ('e \<Rightarrow> 'w \<Rightarrow> 'w) \<Rightarrow> ('e \<Rightarrow> bool) \<Rightarrow> ('t \<Rightarrow> bool)
    \<Rightarrow> 'w \<times> 't list \<Rightarrow> ('f, 'e, 't) turn \<Rightarrow> 'w \<times> 't list" where
  "take_turn tstep estep allowed starts (w, ts) (TurnSpawn t) = (w, if starts t then ts @ [t] else ts)"
| "take_turn tstep estep allowed starts (w, ts) (TurnTask i f) =
     (if i < length ts then (case tstep f w (ts ! i) of (w', t') \<Rightarrow> (w', ts[i := t'])) else (w, ts))"
| "take_turn tstep estep allowed starts (w, ts) (TurnCall e) =
     (if allowed e then estep e w else w, ts)"

lemma take_turn_sound:
  "system_steps tstep estep allowed starts s (take_turn tstep estep allowed starts s a)"
  by (cases s; cases a)
     (auto simp: split: prod.splits intro: system_step.intros r_into_rtranclp)

lemma schedule_sound:
  "system_steps tstep estep allowed starts s (foldl (take_turn tstep estep allowed starts) s as)"
proof (induction as arbitrary: s)
  case (Cons a as)
  show ?case
    unfolding foldl.simps by (rule rtranclp_trans [OF take_turn_sound Cons.IH])
qed simp

section \<open>Rely and guarantee\<close>

locale guarded_tasks =
  fixes tstep :: "'f \<Rightarrow> 'w \<Rightarrow> 't \<Rightarrow> 'w \<times> 't"
    and estep :: "'e \<Rightarrow> 'w \<Rightarrow> 'w"
    and allowed :: "'e \<Rightarrow> bool"
    and starts :: "'t \<Rightarrow> bool"
    and inv :: "'w \<Rightarrow> bool"
    and holds :: "'w \<Rightarrow> 't \<Rightarrow> bool"
    and stable :: "'w \<Rightarrow> 'w \<Rightarrow> bool"
  assumes starts_holds: "starts t \<Longrightarrow> holds w t"
    and task_keeps: "inv w \<Longrightarrow> holds w t \<Longrightarrow> tstep f w t = (w', t') \<Longrightarrow>
      inv w' \<and> holds w' t' \<and> stable w w'"
    and call_keeps: "inv w \<Longrightarrow> allowed e \<Longrightarrow> inv (estep e w) \<and> stable w (estep e w)"
    and stable_holds: "stable w w' \<Longrightarrow> holds w t \<Longrightarrow> holds w' t"
begin

lemma step_keeps:
  assumes "system_step tstep estep allowed starts (w, ts) (w', ts')"
    and "inv w" and "list_all (holds w) ts"
  shows "inv w' \<and> list_all (holds w') ts'"
  using assms(1)
proof cases
  case (spawn t)
  then show ?thesis using assms(2,3) starts_holds by simp
next
  case (task i f t')
  have "holds w (ts ! i)" using assms(3) task(2) by (simp add: list_all_length)
  then have k: "inv w'" "holds w' t'" "stable w w'" using task_keeps assms(2) task(3) by blast+
  then have "list_all (holds w') ts" using stable_holds assms(3) by (auto simp: list_all_iff)
  then show ?thesis using k task(1,2) by (auto simp: list_all_length nth_list_update)
next
  case (call e)
  then show ?thesis
    using call_keeps [OF assms(2) call(3)] stable_holds assms(3) by (auto simp: list_all_iff)
qed

lemma steps_keep:
  assumes "system_steps tstep estep allowed starts s s'"
    and "inv (fst s)" and "list_all (holds (fst s)) (snd s)"
  shows "inv (fst s') \<and> list_all (holds (fst s')) (snd s')"
  using assms
proof (induction rule: rtranclp_induct)
  case (step y z)
  then show ?case using step_keeps [of "fst y" "snd y" "fst z" "snd z"] by simp
qed simp

end

section \<open>Exclusion\<close>

definition won_once :: "('t \<Rightarrow> 'k option) \<Rightarrow> ('w \<Rightarrow> 'k \<Rightarrow> bool) \<Rightarrow> 'k \<Rightarrow> 'w \<times> 't list \<Rightarrow> bool" where
  "won_once won closed k s =
     (count_list (map won (snd s)) (Some k) \<le> (if closed (fst s) k then 1 else 0))"

lemma count_list_update:
  "i < length xs \<Longrightarrow> count_list (xs[i := y]) x + (if xs ! i = x then 1 else 0)
     = count_list xs x + (if y = x then 1 else 0)"
proof (induction xs arbitrary: i)
  case (Cons a xs)
  show ?case
  proof (cases i)
    case (Suc j)
    then show ?thesis using Cons.IH [of j] Cons.prems by (auto split: if_splits)
  qed simp
qed simp

lemma count_list_two:
  assumes "i < length xs" "j < length xs" "xs ! i = x" "xs ! j = x" "i \<noteq> j"
  shows "2 \<le> count_list xs x"
proof -
  have "{i, j} \<subseteq> {n. n < length xs \<and> xs ! n = x}" using assms by auto
  then have "card {i, j} \<le> card {n. n < length xs \<and> xs ! n = x}" by (intro card_mono) auto
  also have "\<dots> = count_list xs x"
    by (simp add: count_list_eq_length_filter length_filter_conv_card eq_commute)
  finally show ?thesis using assms(5) by simp
qed

lemma won_once_unique:
  assumes "won_once won closed k (w, ts)" and "i < length ts" "j < length ts"
    and "won (ts ! i) = Some k" "won (ts ! j) = Some k"
  shows "i = j \<and> closed w k"
proof -
  have c: "count_list (map won ts) (Some k) \<le> (if closed w k then 1 else 0)"
    using assms(1) by (simp add: won_once_def)
  have "Some k \<in> set (map won ts)"
    using assms(2,4) by (metis length_map nth_map nth_mem)
  then have "closed w k" using c by (auto simp: count_list_0_iff split: if_splits)
  moreover have "i = j"
    using count_list_two [of i "map won ts" j "Some k"] c assms(2-5)
    by (cases "i = j") (auto split: if_splits)
  ultimately show ?thesis by simp
qed

text \<open>The contract for tasks that satisfy an invariant of their own, and for all tasks.\<close>

locale exclusive_under =
  fixes tstep :: "'f \<Rightarrow> 'w \<Rightarrow> 't \<Rightarrow> 'w \<times> 't"
    and estep :: "'e \<Rightarrow> 'w \<Rightarrow> 'w"
    and allowed :: "'e \<Rightarrow> bool"
    and starts :: "'t \<Rightarrow> bool"
    and good :: "'t \<Rightarrow> bool"
    and won :: "'t \<Rightarrow> 'k option"
    and closed :: "'w \<Rightarrow> 'k \<Rightarrow> bool"
  assumes starts_open: "starts t \<Longrightarrow> won t = None \<and> good t"
    and step_good: "good t \<Longrightarrow> tstep f w t = (w', t') \<Longrightarrow> good t'"
    and wins_by_closing: "good t \<Longrightarrow> tstep f w t = (w', t') \<Longrightarrow> won t' = Some k \<Longrightarrow>
      won t = Some k \<or> (\<not> closed w k \<and> closed w' k)"
    and task_closed: "good t \<Longrightarrow> tstep f w t = (w', t') \<Longrightarrow> closed w k \<Longrightarrow> closed w' k"
    and call_closed: "allowed e \<Longrightarrow> closed w k \<Longrightarrow> closed (estep e w) k"
begin

lemma step_once:
  assumes "system_step tstep estep allowed starts s s'" and "won_once won closed k s"
    and "list_all good (snd s)"
  shows "won_once won closed k s' \<and> list_all good (snd s')"
  using assms(1)
proof cases
  case (spawn t w ts)
  then show ?thesis using assms(2,3) starts_open by (simp add: won_once_def)
next
  case (task i ts f w w' t')
  have g: "good (ts ! i)" using assms(3) task(1,3) by (simp add: list_all_length)
  have c: "count_list (map won (ts[i := t'])) (Some k) + (if won (ts ! i) = Some k then 1 else 0)
      = count_list (map won ts) (Some k) + (if won t' = Some k then 1 else 0)"
    using count_list_update [of i "map won ts" "won t'" "Some k"] task(3) by (simp add: map_update)
  have "list_all good (snd s')"
    using assms(3) step_good [OF g task(4)] task(1-3) by (auto simp: list_all_length nth_list_update)
  moreover have "won_once won closed k s'"
    using c assms(2) wins_by_closing [OF g task(4), of k] task_closed [OF g task(4), of k]
    by (auto simp: won_once_def task(1,2) split: if_splits)
  ultimately show ?thesis by simp
next
  case (call e w ts)
  then show ?thesis
    using assms(2,3) call_closed [OF call(3), of w k] by (auto simp: won_once_def split: if_splits)
qed

lemma won_at_most_once:
  assumes "system_steps tstep estep allowed starts s s'" and "won_once won closed k s"
    and "list_all good (snd s)"
  shows "won_once won closed k s' \<and> list_all good (snd s')"
  using assms by (induction rule: rtranclp_induct) (auto dest: step_once)

end

locale exclusive_tasks =
  fixes tstep :: "'f \<Rightarrow> 'w \<Rightarrow> 't \<Rightarrow> 'w \<times> 't"
    and estep :: "'e \<Rightarrow> 'w \<Rightarrow> 'w"
    and allowed :: "'e \<Rightarrow> bool"
    and starts :: "'t \<Rightarrow> bool"
    and won :: "'t \<Rightarrow> 'k option"
    and closed :: "'w \<Rightarrow> 'k \<Rightarrow> bool"
  assumes starts_open: "starts t \<Longrightarrow> won t = None"
    and wins_by_closing: "tstep f w t = (w', t') \<Longrightarrow> won t' = Some k \<Longrightarrow>
      won t = Some k \<or> (\<not> closed w k \<and> closed w' k)"
    and task_closed: "tstep f w t = (w', t') \<Longrightarrow> closed w k \<Longrightarrow> closed w' k"
    and call_closed: "allowed e \<Longrightarrow> closed w k \<Longrightarrow> closed (estep e w) k"
begin

sublocale under: exclusive_under tstep estep allowed starts "\<lambda>_. True" won closed
  by unfold_locales (simp_all add: starts_open wins_by_closing task_closed call_closed)

lemma won_at_most_once:
  assumes "system_steps tstep estep allowed starts s s'" and "won_once won closed k s"
  shows "won_once won closed k s'"
  using under.won_at_most_once [OF assms] by (simp add: list_all_iff)

end

end
