(* ===== verification/Approval_Resolver.thy ===== *)
theory Approval_Resolver
  imports Audit_Envelopes Capability_Leases Interleaving
begin

text \<open>
  The approval resolver (\<open>ironclaw_approvals/src/lib.rs\<close>): it decides a pending approval request and
  issues the scoped lease of an approved one. The approval and lease stores are those of
  \<open>Run_State\<close> and \<open>Capability_Leases\<close>; the resolver is generic over them, so a call may also fail with
  an error of the store's backend, which leaves the store as it was. The audit sink is best effort:
  the log holds what it accepted.

  An operation awaits its stores up to four times. It is written once as the source has it and once
  as a task whose steps are the single store calls; the two agree on an undisturbed run, and the
  interleaved system lets any other resolver call, store call and lease use happen in between.
\<close>

section \<open>Requests and errors\<close>

datatype approved_capability_action = ApprovedDispatch | ApprovedSpawn

record 'd lease_approval =
  la_issued_by :: principal
  la_constraints :: "'d grant_constraints"

record deny_approval =
  da_denied_by :: principal

datatype approval_resolution_error =
    ArRunState run_state_error
  | NotPending approval_status
  | NotApproved approval_status
  | MissingInvocationFingerprint
  | UnsupportedAction
  | ArLease capability_lease_error

fun capability_for_action :: "'d action \<Rightarrow> approved_capability_action \<Rightarrow> capability_id option" where
  "capability_for_action (ActDispatch capability _) ApprovedDispatch = Some capability"
| "capability_for_action (ActSpawnCapability capability _) ApprovedSpawn = Some capability"
| "capability_for_action _ _ = None"

section \<open>The resolver and what it works on\<close>

record approval_resolver =
  ar_audit_sink :: bool

definition resolver_new :: approval_resolver where
  "resolver_new = \<lparr>ar_audit_sink = False\<rparr>"

definition with_audit_sink :: "approval_resolver \<Rightarrow> approval_resolver" where
  "with_audit_sink s = s\<lparr>ar_audit_sink := True\<rparr>"

record 'd resolver_world =
  rw_approvals :: "'d approval_store"
  rw_leases :: "'d lease_store"
  rw_audit :: "audit_envelope list"

text \<open>What a call draws from outside: the failures of the stores and of the sink, if any, the fresh
  identifiers, the time and the text of a UUID.\<close>

record resolver_env =
  re_get_fault :: "run_state_error option"
  re_decide_fault :: "run_state_error option"
  re_issue_fault :: "capability_lease_error option"
  re_sink_fails :: bool
  re_grant_id :: capability_grant_id
  re_event_id :: uuid
  re_now :: instant
  re_uuid_text :: "uuid \<Rightarrow> string"

definition approvals_get ::
  "resolver_env \<Rightarrow> 'd resolver_world \<Rightarrow> resource_scope \<Rightarrow> approval_request_id
    \<Rightarrow> run_state_error + 'd approval_record option" where
  "approvals_get env w sc i =
     (case re_get_fault env of Some e \<Rightarrow> Err e | None \<Rightarrow> ap_get (rw_approvals w) sc i)"

definition approvals_decide ::
  "('d approval_store \<Rightarrow> resource_scope \<Rightarrow> approval_request_id
      \<Rightarrow> 'd approval_store \<times> (run_state_error + 'd approval_record))
    \<Rightarrow> resolver_env \<Rightarrow> 'd resolver_world \<Rightarrow> resource_scope \<Rightarrow> approval_request_id
    \<Rightarrow> 'd resolver_world \<times> (run_state_error + 'd approval_record)" where
  "approvals_decide decide env w sc i =
     (case re_decide_fault env of
        Some e \<Rightarrow> (w, Err e)
      | None \<Rightarrow> (case decide (rw_approvals w) sc i of (m, r) \<Rightarrow> (w\<lparr>rw_approvals := m\<rparr>, r)))"

definition leases_issue ::
  "resolver_env \<Rightarrow> 'd resolver_world \<Rightarrow> 'd capability_lease
    \<Rightarrow> 'd resolver_world \<times> (capability_lease_error + 'd capability_lease)" where
  "leases_issue env w l =
     (case re_issue_fault env of
        Some e \<Rightarrow> (w, Err e)
      | None \<Rightarrow> (case ls_issue (rw_leases w) l of (st, r) \<Rightarrow> (w\<lparr>rw_leases := st\<rparr>, r)))"

section \<open>Audit\<close>

definition emit_audit_best_effort ::
  "approval_resolver \<Rightarrow> resolver_env \<Rightarrow> 'd resolver_world \<Rightarrow> audit_envelope \<Rightarrow> 'd resolver_world" where
  "emit_audit_best_effort s env w record =
     (if ar_audit_sink s \<and> \<not> re_sink_fails env then w\<lparr>rw_audit := rw_audit w @ [record]\<rparr> else w)"

definition emit_approval_resolved ::
  "approval_resolver \<Rightarrow> resolver_env \<Rightarrow> 'd resolver_world \<Rightarrow> resource_scope \<Rightarrow> 'd approval_request
    \<Rightarrow> principal \<Rightarrow> approval_decision_kind \<Rightarrow> 'd resolver_world" where
  "emit_approval_resolved s env w sc request resolved_by decision =
     emit_audit_best_effort s env w
       (approval_resolved (re_uuid_text env) (re_event_id env) (re_now env) sc request resolved_by
          decision)"

section \<open>Operations\<close>

definition approved_lease ::
  "capability_grant_id \<Rightarrow> 'd approval_record \<Rightarrow> capability_id \<Rightarrow> 'd lease_approval \<Rightarrow> string
    \<Rightarrow> 'd capability_lease" where
  "approved_lease gid approved capability approval fp =
     (capability_lease_new (apr_scope approved)
        \<lparr>cg_id = gid, cg_capability = capability, cg_grantee = req_requested_by (apr_request approved),
         cg_issued_by = la_issued_by approval, cg_constraints = la_constraints approval\<rparr>)
       \<lparr>cl_invocation_fingerprint := Some fp\<rparr>"

definition issue_lease_for_approved ::
  "approval_resolver \<Rightarrow> resolver_env \<Rightarrow> 'd resolver_world \<Rightarrow> 'd approval_record \<Rightarrow> capability_id
    \<Rightarrow> 'd lease_approval \<Rightarrow> string
    \<Rightarrow> 'd resolver_world \<times> (approval_resolution_error + 'd capability_lease)" where
  "issue_lease_for_approved s env w approved capability approval fp =
     (case leases_issue env w (approved_lease (re_grant_id env) approved capability approval fp) of
        (w1, Inl e) \<Rightarrow> (w1, Err (ArLease e))
      | (w1, Inr lease) \<Rightarrow>
          (emit_approval_resolved s env w1 (apr_scope approved) (apr_request approved)
             (la_issued_by approval) DecidedApproved, Ok lease))"

text \<open>The checks between reading the record and deciding it; \<open>wanted\<close> is the status the operation
  needs and \<open>refused\<close> the error for any other.\<close>

definition examine_record ::
  "approval_status \<Rightarrow> (approval_status \<Rightarrow> approval_resolution_error) \<Rightarrow> approved_capability_action
    \<Rightarrow> 'd approval_record \<Rightarrow> approval_resolution_error + capability_id \<times> string" where
  "examine_record wanted refused expected r =
     (if apr_status r \<noteq> wanted then Err (refused (apr_status r))
      else (case capability_for_action (req_action (apr_request r)) expected of
              None \<Rightarrow> Err UnsupportedAction
            | Some capability \<Rightarrow>
                (case req_invocation_fingerprint (apr_request r) of
                   None \<Rightarrow> Err MissingInvocationFingerprint
                 | Some fp \<Rightarrow> Ok (capability, fp))))"

definition known_record ::
  "approval_request_id \<Rightarrow> run_state_error + 'd approval_record option
    \<Rightarrow> approval_resolution_error + 'd approval_record" where
  "known_record i got =
     (case got of
        Inl e \<Rightarrow> Err (ArRunState e)
      | Inr None \<Rightarrow> Err (ArRunState (UnknownApprovalRequest i))
      | Inr (Some r) \<Rightarrow> Ok r)"

fun decide_error :: "run_state_error \<Rightarrow> approval_resolution_error" where
  "decide_error (ApprovalNotPending _ status) = NotPending status"
| "decide_error e = ArRunState e"

definition approve_capability_action ::
  "approval_resolver \<Rightarrow> resolver_env \<Rightarrow> 'd resolver_world \<Rightarrow> resource_scope \<Rightarrow> approval_request_id
    \<Rightarrow> 'd lease_approval \<Rightarrow> approved_capability_action
    \<Rightarrow> 'd resolver_world \<times> (approval_resolution_error + 'd capability_lease)" where
  "approve_capability_action s env w sc i approval expected =
     (case rbind (known_record i (approvals_get env w sc i)) (examine_record ApPending NotPending expected) of
        Inl e \<Rightarrow> (w, Err e)
      | Inr (capability, fp) \<Rightarrow>
          (case approvals_decide ap_approve env w sc i of
             (w1, Inl e) \<Rightarrow> (w1, Err (decide_error e))
           | (w1, Inr approved) \<Rightarrow> issue_lease_for_approved s env w1 approved capability approval fp))"

definition approve_dispatch where
  "approve_dispatch s env w sc i approval =
     approve_capability_action s env w sc i approval ApprovedDispatch"

definition approve_spawn where
  "approve_spawn s env w sc i approval = approve_capability_action s env w sc i approval ApprovedSpawn"

definition retry_lease_issue_for_action ::
  "approval_resolver \<Rightarrow> resolver_env \<Rightarrow> 'd resolver_world \<Rightarrow> resource_scope \<Rightarrow> approval_request_id
    \<Rightarrow> 'd lease_approval \<Rightarrow> approved_capability_action
    \<Rightarrow> 'd resolver_world \<times> (approval_resolution_error + 'd capability_lease)" where
  "retry_lease_issue_for_action s env w sc i approval expected =
     (case known_record i (approvals_get env w sc i) of
        Inl e \<Rightarrow> (w, Err e)
      | Inr record \<Rightarrow>
          (case examine_record ApApproved NotApproved expected record of
             Inl e \<Rightarrow> (w, Err e)
           | Inr (capability, fp) \<Rightarrow> issue_lease_for_approved s env w record capability approval fp))"

definition retry_lease_issue_for_dispatch where
  "retry_lease_issue_for_dispatch s env w sc i approval =
     retry_lease_issue_for_action s env w sc i approval ApprovedDispatch"

definition retry_lease_issue_for_spawn where
  "retry_lease_issue_for_spawn s env w sc i approval =
     retry_lease_issue_for_action s env w sc i approval ApprovedSpawn"

definition resolver_deny ::
  "approval_resolver \<Rightarrow> resolver_env \<Rightarrow> 'd resolver_world \<Rightarrow> resource_scope \<Rightarrow> approval_request_id
    \<Rightarrow> deny_approval \<Rightarrow> 'd resolver_world \<times> (approval_resolution_error + 'd approval_record)" where
  "resolver_deny s env w sc i denial =
     (case known_record i (approvals_get env w sc i) of
        Inl e \<Rightarrow> (w, Err e)
      | Inr record \<Rightarrow>
          if apr_status record \<noteq> ApPending then (w, Err (NotPending (apr_status record)))
          else (case approvals_decide ap_deny env w sc i of
                  (w1, Inl e) \<Rightarrow> (w1, Err (decide_error e))
                | (w1, Inr denied) \<Rightarrow>
                    (emit_approval_resolved s env w1 (apr_scope denied) (apr_request denied)
                       (da_denied_by denial) DecidedDenied, Ok denied)))"

section \<open>The same operations as tasks\<close>

datatype 'd resolution =
    RqApprove approved_capability_action resource_scope approval_request_id "'d lease_approval"
  | RqRetry approved_capability_action resource_scope approval_request_id "'d lease_approval"
  | RqDeny resource_scope approval_request_id deny_approval

datatype 'd resolved = ResLease "'d capability_lease" | ResRecord "'d approval_record"

datatype 'd phase =
    PhStart
  | PhApprove capability_id string "'d lease_approval"
  | PhIssue "'d approval_record" capability_id string "'d lease_approval"
  | PhDeny deny_approval
  | PhEmit "'d approval_record" principal approval_decision_kind "'d resolved"
  | PhDone "approval_resolution_error + 'd resolved"

type_synonym 'd resolver_task = "'d resolution \<times> 'd phase"

definition lift_result ::
  "('a \<Rightarrow> 'd resolved) \<Rightarrow> 'd resolver_world \<times> (approval_resolution_error + 'a)
    \<Rightarrow> 'd resolver_world \<times> (approval_resolution_error + 'd resolved)" where
  "lift_result f x = (case x of (w, r) \<Rightarrow> (w, rbind r (\<lambda>a. Ok (f a))))"

fun resolve_request ::
  "approval_resolver \<Rightarrow> resolver_env \<Rightarrow> 'd resolver_world \<Rightarrow> 'd resolution
    \<Rightarrow> 'd resolver_world \<times> (approval_resolution_error + 'd resolved)" where
  "resolve_request s env w (RqApprove expected sc i approval) =
     lift_result ResLease (approve_capability_action s env w sc i approval expected)"
| "resolve_request s env w (RqRetry expected sc i approval) =
     lift_result ResLease (retry_lease_issue_for_action s env w sc i approval expected)"
| "resolve_request s env w (RqDeny sc i denial) =
     lift_result ResRecord (resolver_deny s env w sc i denial)"

definition or_done :: "('a \<Rightarrow> 'd phase) \<Rightarrow> approval_resolution_error + 'a \<Rightarrow> 'd phase" where
  "or_done f r = (case r of Inl e \<Rightarrow> PhDone (Err e) | Inr x \<Rightarrow> f x)"

fun first_phase :: "resolver_env \<Rightarrow> 'd resolver_world \<Rightarrow> 'd resolution \<Rightarrow> 'd phase" where
  "first_phase env w (RqApprove expected sc i approval) =
     or_done (\<lambda>(capability, fp). PhApprove capability fp approval)
       (rbind (known_record i (approvals_get env w sc i)) (examine_record ApPending NotPending expected))"
| "first_phase env w (RqRetry expected sc i approval) =
     or_done (\<lambda>record. or_done (\<lambda>(capability, fp). PhIssue record capability fp approval)
         (examine_record ApApproved NotApproved expected record))
       (known_record i (approvals_get env w sc i))"
| "first_phase env w (RqDeny sc i denial) =
     or_done (\<lambda>record. if apr_status record \<noteq> ApPending
         then PhDone (Err (NotPending (apr_status record))) else PhDeny denial)
       (known_record i (approvals_get env w sc i))"

fun resolution_target :: "'d resolution \<Rightarrow> resource_scope \<times> approval_request_id" where
  "resolution_target (RqApprove _ sc i _) = (sc, i)"
| "resolution_target (RqRetry _ sc i _) = (sc, i)"
| "resolution_target (RqDeny sc i _) = (sc, i)"

fun phase_step ::
  "approval_resolver \<Rightarrow> resolver_env \<Rightarrow> 'd resolver_world \<Rightarrow> 'd resolution \<Rightarrow> 'd phase
    \<Rightarrow> 'd resolver_world \<times> 'd phase" where
  "phase_step s env w q PhStart = (w, first_phase env w q)"
| "phase_step s env w q (PhApprove capability fp approval) =
     (case approvals_decide ap_approve env w (fst (resolution_target q)) (snd (resolution_target q)) of
        (w1, Inl e) \<Rightarrow> (w1, PhDone (Err (decide_error e)))
      | (w1, Inr approved) \<Rightarrow> (w1, PhIssue approved capability fp approval))"
| "phase_step s env w q (PhIssue approved capability fp approval) =
     (case leases_issue env w (approved_lease (re_grant_id env) approved capability approval fp) of
        (w1, Inl e) \<Rightarrow> (w1, PhDone (Err (ArLease e)))
      | (w1, Inr lease) \<Rightarrow>
          (w1, PhEmit approved (la_issued_by approval) DecidedApproved (ResLease lease)))"
| "phase_step s env w q (PhDeny denial) =
     (case approvals_decide ap_deny env w (fst (resolution_target q)) (snd (resolution_target q)) of
        (w1, Inl e) \<Rightarrow> (w1, PhDone (Err (decide_error e)))
      | (w1, Inr denied) \<Rightarrow> (w1, PhEmit denied (da_denied_by denial) DecidedDenied (ResRecord denied)))"
| "phase_step s env w q (PhEmit record actor kind res) =
     (emit_approval_resolved s env w (apr_scope record) (apr_request record) actor kind,
      PhDone (Ok res))"
| "phase_step s env w q (PhDone r) = (w, PhDone r)"

definition task_step ::
  "approval_resolver \<Rightarrow> resolver_env \<Rightarrow> 'd resolver_world \<Rightarrow> 'd resolver_task
    \<Rightarrow> 'd resolver_world \<times> 'd resolver_task" where
  "task_step s env w t = (case phase_step s env w (fst t) (snd t) of (w', p) \<Rightarrow> (w', fst t, p))"

definition task_starts :: "'d resolver_task \<Rightarrow> bool" where
  "task_starts t = (snd t = PhStart)"

text \<open>The other callers of the two stores: approval requests are saved, discarded or decided
  elsewhere, and leases are claimed, dispatched, consumed and revoked. Leases are issued by the
  resolver alone.\<close>

datatype 'd outside_call = CallApproval "'d approval_op" | CallLease "'d lease_op"

fun store_call :: "'d outside_call \<Rightarrow> 'd resolver_world \<Rightarrow> 'd resolver_world" where
  "store_call (CallApproval x) w = w\<lparr>rw_approvals := fst (approval_exec (rw_approvals w) x)\<rparr>"
| "store_call (CallLease x) w = w\<lparr>rw_leases := fst (lease_exec (rw_leases w) x)\<rparr>"

fun call_allowed :: "'d outside_call \<Rightarrow> bool" where
  "call_allowed (CallApproval _) = True"
| "call_allowed (CallLease x) = (lease_reissues x = None)"

abbreviation resolver_steps where
  "resolver_steps s \<equiv> system_steps (task_step s) store_call call_allowed task_starts"

section \<open>Undisturbed tasks\<close>

fun task_run :: "nat \<Rightarrow> approval_resolver \<Rightarrow> resolver_env \<Rightarrow> 'd resolver_world \<Rightarrow> 'd resolver_task
    \<Rightarrow> 'd resolver_world \<times> 'd resolver_task" where
  "task_run 0 s env w t = (w, t)"
| "task_run (Suc n) s env w t = (case task_step s env w t of (w', t') \<Rightarrow> task_run n s env w' t')"

lemma task_run_done [simp]: "task_run n s env w (q, PhDone r) = (w, q, PhDone r)"
  by (induction n) (simp_all add: task_step_def)

lemma task_run_emit:
  "task_run (Suc n) s env w (q, PhEmit record actor kind res)
     = (emit_approval_resolved s env w (apr_scope record) (apr_request record) actor kind,
        q, PhDone (Ok res))"
  by (simp add: task_step_def)

lemma task_run_issue:
  "task_run (Suc (Suc n)) s env w (q, PhIssue approved capability fp approval)
     = (case lift_result ResLease (issue_lease_for_approved s env w approved capability approval fp) of
          (w', r) \<Rightarrow> (w', q, PhDone r))"
  unfolding issue_lease_for_approved_def lift_result_def
  by (cases "leases_issue env w (approved_lease (re_grant_id env) approved capability approval fp)";
      cases "snd (leases_issue env w (approved_lease (re_grant_id env) approved capability approval fp))")
     (auto simp: task_step_def)

lemma task_run_start: "task_run (Suc n) s env w (q, PhStart) = task_run n s env w (q, first_phase env w q)"
  by (simp add: task_step_def)

lemma task_run_decide:
  "task_run (Suc n) s env w (q, PhApprove capability fp approval) =
     (case approvals_decide ap_approve env w (fst (resolution_target q)) (snd (resolution_target q)) of
        (w1, Inl e) \<Rightarrow> (w1, q, PhDone (Err (decide_error e)))
      | (w1, Inr approved) \<Rightarrow> task_run n s env w1 (q, PhIssue approved capability fp approval))"
  "task_run (Suc n) s env w (q, PhDeny denial) =
     (case approvals_decide ap_deny env w (fst (resolution_target q)) (snd (resolution_target q)) of
        (w1, Inl e) \<Rightarrow> (w1, q, PhDone (Err (decide_error e)))
      | (w1, Inr denied) \<Rightarrow>
          task_run n s env w1 (q, PhEmit denied (da_denied_by denial) DecidedDenied (ResRecord denied)))"
  by (simp_all add: task_step_def split: prod.splits sum.splits)

lemmas task_run_phases = task_run_start task_run_decide task_run_issue task_run_emit

lemma task_run_resolves:
  "task_run (Suc (Suc (Suc (Suc n)))) s env w (q, PhStart) =
     (case resolve_request s env w q of (w', r) \<Rightarrow> (w', q, PhDone r))"
  by (cases q)
     (simp_all add: task_run_phases lift_result_def or_done_def approve_capability_action_def
       retry_lease_issue_for_action_def resolver_deny_def del: task_run.simps
       split: sum.splits prod.splits)


section \<open>Leases rest on approvals\<close>

definition lease_matches :: "'d approval_record \<Rightarrow> 'd capability_lease \<Rightarrow> bool" where
  "lease_matches r l =
     (cl_scope l = apr_scope r
      \<and> (\<exists>x. capability_for_action (req_action (apr_request r)) x = Some (cg_capability (cl_grant l)))
      \<and> cg_grantee (cl_grant l) = req_requested_by (apr_request r)
      \<and> cl_invocation_fingerprint l \<noteq> None
      \<and> cl_invocation_fingerprint l = req_invocation_fingerprint (apr_request r))"

definition lease_backed :: "'d approval_store \<Rightarrow> 'd capability_lease \<Rightarrow> bool" where
  "lease_backed m l =
     (\<exists>k r. hget m k = Some r \<and> apr_status r = ApApproved \<and> lease_matches r l)"

definition leases_backed :: "'d resolver_world \<Rightarrow> bool" where
  "leases_backed w = (\<forall>k l. hget (rw_leases w) k = Some l \<longrightarrow> lease_backed (rw_approvals w) l)"

text \<open>What the others leave alone: a stored request stays under its key with its scope, and a
  decision is final.\<close>

definition decisions_kept :: "'d approval_store \<Rightarrow> 'd approval_store \<Rightarrow> bool" where
  "decisions_kept m m' =
     (\<forall>k r. hget m k = Some r \<longrightarrow>
        (\<exists>r'. hget m' k = Some r' \<and> apr_scope r' = apr_scope r \<and> apr_request r' = apr_request r
          \<and> (apr_status r \<noteq> ApPending \<longrightarrow> r' = r)))"

definition grantable :: "'d approval_record \<Rightarrow> capability_id \<Rightarrow> string \<Rightarrow> bool" where
  "grantable r capability fp =
     ((\<exists>x. capability_for_action (req_action (apr_request r)) x = Some capability)
      \<and> req_invocation_fingerprint (apr_request r) = Some fp)"

fun phase_holds :: "'d approval_store \<Rightarrow> 'd resolution \<Rightarrow> 'd phase \<Rightarrow> bool" where
  "phase_holds m q (PhApprove capability fp _) =
     (\<exists>r. hget m (case resolution_target q of (sc, i) \<Rightarrow> approval_key sc i) = Some r
        \<and> grantable r capability fp)"
| "phase_holds m q (PhIssue approved capability fp _) =
     (\<exists>k. hget m k = Some approved \<and> apr_status approved = ApApproved
        \<and> grantable approved capability fp)"
| "phase_holds m q _ = True"

definition task_holds :: "'d resolver_world \<Rightarrow> 'd resolver_task \<Rightarrow> bool" where
  "task_holds w t = phase_holds (rw_approvals w) (fst t) (snd t)"

lemma approval_exec_kept: "decisions_kept m (fst (approval_exec m x))"
  by (cases x)
     (auto simp: decisions_kept_def approval_op_defs hcontains_def hmap_simps Let_def
       split: option.splits if_splits)

lemma decisions_kept_refl [simp]: "decisions_kept m m"
  by (simp add: decisions_kept_def)

lemma backed_kept: "decisions_kept m m' \<Longrightarrow> lease_backed m l \<Longrightarrow> lease_backed m' l"
  unfolding decisions_kept_def lease_backed_def by (metis approval_status.distinct(1))

lemma phase_holds_kept:
  assumes "decisions_kept m m'" and "phase_holds m q p"
  shows "phase_holds m' q p"
  using assms
proof (cases p)
  case (PhApprove c fp a)
  then show ?thesis using assms unfolding decisions_kept_def by (fastforce simp: grantable_def)
next
  case (PhIssue r c fp a)
  then show ?thesis using assms unfolding decisions_kept_def
    by (fastforce simp: grantable_def)
qed auto

lemma lease_matches_terms: "lease_terms l' = lease_terms l \<Longrightarrow> lease_matches r l' = lease_matches r l"
  using lease_terms_fields [of l' l] by (simp add: lease_matches_def)

lemma lease_backed_terms:
  assumes "lease_terms l' = lease_terms l"
  shows "lease_backed m l' = lease_backed m l"
  unfolding lease_backed_def lease_matches_terms [OF assms] ..

lemma store_call_keeps:
  assumes "leases_backed w" and "call_allowed x"
  shows "leases_backed (store_call x w)"
proof (cases x)
  case (CallApproval y)
  then show ?thesis
    using assms(1) by (auto simp: leases_backed_def intro: backed_kept [OF approval_exec_kept])
next
  case (CallLease y)
  have "lease_backed (rw_approvals w) l'"
    if got: "hget (fst (lease_exec (rw_leases w) y)) k = Some l'" for k l'
  proof -
    have "lease_reissues y = None" using assms(2) CallLease by simp
    then obtain l where "hget (rw_leases w) k = Some l" and t: "lease_terms l' = lease_terms l"
      using lease_exec_terms [OF _ got] by auto
    then show ?thesis using assms(1) unfolding lease_backed_terms [OF t] leases_backed_def by blast
  qed
  then show ?thesis by (simp add: CallLease leases_backed_def)
qed

text \<open>One call into a store, as the resolver makes it.\<close>

lemma decide_as_exec:
  "rw_approvals (fst (approvals_decide ap_approve env w sc i)) =
     (if re_decide_fault env = None then fst (approval_exec (rw_approvals w) (AoApprove sc i))
      else rw_approvals w)"
  "rw_approvals (fst (approvals_decide ap_deny env w sc i)) =
     (if re_decide_fault env = None then fst (approval_exec (rw_approvals w) (AoDeny sc i))
      else rw_approvals w)"
  by (simp_all add: approvals_decide_def split: option.splits prod.splits)

lemma decide_leases [simp]:
  "rw_leases (fst (approvals_decide d env w sc i)) = rw_leases w"
  by (simp add: approvals_decide_def split: option.splits prod.splits)

lemma approved_is_stored:
  assumes "approvals_decide ap_approve env w sc i = (w', Ok r)"
  shows "hget (rw_approvals w') (approval_key sc i) = Some r" "apr_status r = ApApproved"
    "\<exists>r0. hget (rw_approvals w) (approval_key sc i) = Some r0 \<and> apr_status r0 = ApPending
       \<and> r = r0\<lparr>apr_status := ApApproved\<rparr>"
  using assms
  by (auto simp: approvals_decide_def ap_approve_def ap_update_status_def hmap_simps
      split: option.splits prod.splits if_splits)

lemma issue_approvals [simp]: "rw_approvals (fst (leases_issue env w l)) = rw_approvals w"
  by (simp add: leases_issue_def split: option.splits prod.splits)

lemma issue_cases:
  "leases_issue env w l =
     (case re_issue_fault env of
        Some e \<Rightarrow> (w, Err e)
      | None \<Rightarrow> (w\<lparr>rw_leases := hput (lease_key (cl_scope l) (cg_id (cl_grant l))) l (rw_leases w)\<rparr>, Ok l))"
  by (simp add: leases_issue_def ls_issue_def split: option.splits)

lemma emit_stores [simp]:
  "rw_approvals (emit_approval_resolved s env w sc q p k) = rw_approvals w"
  "rw_leases (emit_approval_resolved s env w sc q p k) = rw_leases w"
  by (simp_all add: emit_approval_resolved_def emit_audit_best_effort_def)

lemma approved_lease_matches:
  "grantable r capability fp \<Longrightarrow> lease_matches r (approved_lease gid r capability approval fp)"
  by (auto simp: lease_matches_def approved_lease_def capability_lease_new_def grantable_def)

lemma examine_Ok:
  "examine_record wanted refused expected r = Ok (capability, fp) \<Longrightarrow>
     apr_status r = wanted \<and> grantable r capability fp"
  by (auto simp: examine_record_def grantable_def split: if_splits option.splits)

lemma known_stored:
  "known_record i (approvals_get env w sc i) = Ok r \<Longrightarrow> hget (rw_approvals w) (approval_key sc i) = Some r"
  by (auto simp: known_record_def approvals_get_def ap_get_def split: option.splits sum.splits if_splits)

lemma first_phase_holds: "phase_holds (rw_approvals w) q (first_phase env w q)"
  by (cases q)
     (auto simp: or_done_def rbind_eq_Inr dest!: known_stored examine_Ok split: sum.splits)

lemma approve_kept: "decisions_kept (rw_approvals w) (rw_approvals (fst (approvals_decide ap_approve env w sc i)))"
  unfolding decide_as_exec by (simp add: approval_exec_kept del: approval_exec.simps)

lemma deny_kept: "decisions_kept (rw_approvals w) (rw_approvals (fst (approvals_decide ap_deny env w sc i)))"
  unfolding decide_as_exec by (simp add: approval_exec_kept del: approval_exec.simps)

lemma phase_step_keeps:
  assumes "leases_backed w" and "phase_holds (rw_approvals w) q p"
    and "phase_step s env w q p = (w', p')"
  shows "leases_backed w' \<and> phase_holds (rw_approvals w') q p'
    \<and> decisions_kept (rw_approvals w) (rw_approvals w')"
proof (cases p)
  case PhStart
  then show ?thesis using assms by (auto simp: first_phase_holds)
next
  case (PhApprove capability fp approval)
  obtain sc i where q: "resolution_target q = (sc, i)" by fastforce
  obtain w1 r where d: "approvals_decide ap_approve env w sc i = (w1, r)" by fastforce
  have k: "decisions_kept (rw_approvals w) (rw_approvals w1)" "rw_leases w1 = rw_leases w"
    using approve_kept [of w env sc i] decide_leases [of ap_approve env w sc i] d by simp_all
  then have "leases_backed w1" using assms(1) backed_kept by (simp add: leases_backed_def) blast
  moreover have w': "w' = w1" using assms(3) d by (auto simp: PhApprove q split: sum.splits)
  moreover have "phase_holds (rw_approvals w1) q p'"
  proof (cases r)
    case (Inr a)
    then have a: "hget (rw_approvals w1) (approval_key sc i) = Some a" "apr_status a = ApApproved"
      "\<exists>r0. hget (rw_approvals w) (approval_key sc i) = Some r0 \<and> a = r0\<lparr>apr_status := ApApproved\<rparr>"
      using approved_is_stored d by fast+
    then have "grantable a capability fp"
      using assms(2) by (auto simp: PhApprove q grantable_def)
    then show ?thesis using assms(3) d a(1,2) by (auto simp: PhApprove q Inr)
  qed (use assms(3) d in \<open>auto simp: PhApprove q\<close>)
  ultimately show ?thesis using k by simp
next
  case (PhIssue approved capability fp approval)
  let ?l = "approved_lease (re_grant_id env) approved capability approval fp"
  have "lease_backed (rw_approvals w) ?l"
    using assms(2) approved_lease_matches by (fastforce simp: PhIssue lease_backed_def)
  then show ?thesis
    using assms(1,3)
    by (auto simp: PhIssue issue_cases leases_backed_def hmap_simps split: option.splits if_splits)
next
  case (PhDeny denial)
  obtain sc i where q: "resolution_target q = (sc, i)" by fastforce
  obtain w1 r where d: "approvals_decide ap_deny env w sc i = (w1, r)" by fastforce
  have k: "decisions_kept (rw_approvals w) (rw_approvals w1)" "rw_leases w1 = rw_leases w"
    using deny_kept [of w env sc i] decide_leases [of ap_deny env w sc i] d by simp_all
  then have "leases_backed w1" using assms(1) backed_kept by (simp add: leases_backed_def) blast
  then show ?thesis using assms(3) d k by (auto simp: PhDeny q split: sum.splits)
qed (use assms in \<open>auto simp: leases_backed_def\<close>)

interpretation guarded_resolver: guarded_tasks
  "task_step s" store_call call_allowed task_starts leases_backed task_holds
  "\<lambda>w w'. decisions_kept (rw_approvals w) (rw_approvals w')" for s
proof (unfold_locales, goal_cases)
  case (1 t w)
  then show ?case by (simp add: task_starts_def task_holds_def)
next
  case (2 w t f w' t')
  then show ?case
    using phase_step_keeps [of w "fst t" "snd t" s f]
    by (auto simp: task_holds_def task_step_def split: prod.splits)
next
  case (3 w e)
  then show ?case
    using store_call_keeps [of w e] approval_exec_kept by (cases e) (simp_all del: approval_exec.simps)
next
  case (4 w w' t)
  then show ?case using phase_holds_kept by (auto simp: task_holds_def)
qed

section \<open>One decision per request\<close>

fun phase_decided :: "'d phase \<Rightarrow> bool" where
  "phase_decided (PhIssue _ _ _ _) = True"
| "phase_decided (PhEmit _ _ _ _) = True"
| "phase_decided (PhDone (Inr _)) = True"
| "phase_decided (PhDone (Inl (ArLease _))) = True"
| "phase_decided _ = False"

fun decides :: "'d resolution \<Rightarrow> scope_key option" where
  "decides (RqRetry _ _ _ _) = None"
| "decides q = Some (case resolution_target q of (sc, i) \<Rightarrow> approval_key sc i)"

text \<open>The request a task has decided: by approving it (with or without a lease yet) or denying it.\<close>

definition decided_by :: "'d resolver_task \<Rightarrow> scope_key option" where
  "decided_by t = (if phase_decided (snd t) then decides (fst t) else None)"

definition request_closed :: "'d resolver_world \<Rightarrow> scope_key \<Rightarrow> bool" where
  "request_closed w k =
     (case hget (rw_approvals w) k of None \<Rightarrow> False | Some r \<Rightarrow> apr_status r \<noteq> ApPending)"

lemma request_closed_kept:
  "decisions_kept (rw_approvals w) (rw_approvals w') \<Longrightarrow> request_closed w k \<Longrightarrow> request_closed w' k"
  unfolding decisions_kept_def request_closed_def by (fastforce split: option.splits)

lemma phase_step_stores_kept:
  assumes "phase_step s env w q p = (w', p')"
  shows "decisions_kept (rw_approvals w) (rw_approvals w')"
  using assms approve_kept [of w env "fst (resolution_target q)" "snd (resolution_target q)"]
    deny_kept [of w env "fst (resolution_target q)" "snd (resolution_target q)"]
  by (cases p) (auto simp: issue_cases split: prod.splits sum.splits option.splits)

lemma decide_closes:
  assumes "approvals_decide d env w sc i = (w', Ok r)" and "d = ap_approve \<or> d = ap_deny"
  shows "\<not> request_closed w (approval_key sc i) \<and> request_closed w' (approval_key sc i)"
  using assms
  by (auto simp: approvals_decide_def ap_approve_def ap_deny_def ap_update_status_def hmap_simps
      request_closed_def split: option.splits prod.splits if_splits)

lemma decide_error_undecided [simp]: "\<not> phase_decided (PhDone (Err (decide_error e)))"
  by (cases e) simp_all

lemma first_phase_undecided:
  "decides q \<noteq> None \<Longrightarrow> \<not> phase_decided (first_phase env w q)"
  by (cases q)
     (auto simp: or_done_def known_record_def examine_record_def rbind_eq_Inl split: sum.splits option.splits if_splits)

lemma phase_step_decides:
  assumes "phase_step s env w q p = (w', p')" and "decides q = Some k" and "phase_decided p'"
    and "\<not> phase_decided p"
  shows "\<not> request_closed w k \<and> request_closed w' k"
proof -
  obtain sc i where t: "resolution_target q = (sc, i)" by fastforce
  then have k: "k = approval_key sc i" using assms(2) by (cases q) auto
  show ?thesis
  proof (cases p)
    case PhStart
    then show ?thesis using assms first_phase_undecided [of q env w] by auto
  next
    case (PhApprove capability fp approval)
    then obtain a where "approvals_decide ap_approve env w sc i = (w', Ok a)"
      using assms(1,3) by (auto simp: t split: prod.splits sum.splits)
    then show ?thesis using decide_closes unfolding k by blast
  next
    case (PhDeny denial)
    then obtain a where "approvals_decide ap_deny env w sc i = (w', Ok a)"
      using assms(1,3) by (auto simp: t split: prod.splits sum.splits)
    then show ?thesis using decide_closes unfolding k by blast
  qed (use assms in auto)
qed

interpretation exclusive_resolver: exclusive_tasks
  "task_step s" store_call call_allowed task_starts decided_by request_closed for s
proof (unfold_locales, goal_cases)
  case (1 t)
  then show ?case by (simp add: task_starts_def decided_by_def)
next
  case (2 f w t w' t' k)
  obtain p' where "phase_step s f w (fst t) (snd t) = (w', p')" "t' = (fst t, p')"
    using 2(1) by (auto simp: task_step_def split: prod.splits)
  then show ?case
    using phase_step_decides [of s f w "fst t" "snd t" w' p' k] 2(2)
    by (auto simp: decided_by_def split: if_splits)
next
  case (3 f w t w' t' k)
  then show ?case
    using phase_step_stores_kept [of s f w "fst t" "snd t"] request_closed_kept
    by (auto simp: task_step_def split: prod.splits)
next
  case (4 e w k)
  then show ?case
    using request_closed_kept [of w "store_call e w" k]
    by (cases e) (simp_all add: approval_exec_kept del: approval_exec.simps)
qed

section \<open>Properties\<close>

text \<open>(C20) Leases rest on approvals: however resolver calls, their retries, failures of the stores and
  every other use of the two stores interleave, each lease in the store belongs to an approval
  request that is stored as approved, with the lease's scope, for the capability and the fingerprint
  of the lease, and the lease is granted to the principal who asked.\<close>

theorem leases_rest_on_approvals:
  assumes "resolver_steps s (w, []) (w', ts)" and "rw_leases w = []"
    and "hget (rw_leases w') k = Some l"
  shows "\<exists>key r. hget (rw_approvals w') key = Some r \<and> apr_status r = ApApproved
    \<and> apr_scope r = cl_scope l \<and> req_requested_by (apr_request r) = cg_grantee (cl_grant l)
    \<and> (\<exists>x. capability_for_action (req_action (apr_request r)) x = Some (cg_capability (cl_grant l)))
    \<and> req_invocation_fingerprint (apr_request r) = cl_invocation_fingerprint l
    \<and> cl_invocation_fingerprint l \<noteq> None"
proof -
  have "leases_backed w" using assms(2) by (simp add: leases_backed_def)
  then have "leases_backed w'" using guarded_resolver.steps_keep [OF assms(1)] by simp
  then obtain key r where "hget (rw_approvals w') key = Some r" "apr_status r = ApApproved"
    "lease_matches r l"
    using assms(3) unfolding leases_backed_def lease_backed_def by blast
  then show ?thesis unfolding lease_matches_def by metis
qed

definition sample_env :: resolver_env where
  "sample_env =
     \<lparr>re_get_fault = None, re_decide_fault = None, re_issue_fault = None, re_sink_fails = False,
      re_grant_id = 11, re_event_id = 12, re_now = 100, re_uuid_text = (\<lambda>_. ''id'')\<rparr>"

definition sample_dispatch_request :: "nat approval_request" where
  "sample_dispatch_request =
     ApprovalRequest 5 9 (PUser ''ann'') (ActDispatch ''demo.run'' sample_estimate) (Some ''fp'') ''why'' None"

definition sample_world :: "nat resolver_world" where
  "sample_world =
     \<lparr>rw_approvals = fst (ap_save_pending [] (sample_scope 1) sample_dispatch_request),
      rw_leases = [], rw_audit = []\<rparr>"

definition sample_approval :: "nat lease_approval" where
  "sample_approval = \<lparr>la_issued_by = PUser ''root'', la_constraints = cg_constraints sample_grant\<rparr>"

definition sample_race :: "(resolver_env, nat outside_call, nat resolver_task) turn list" where
  "sample_race =
     [TurnSpawn (RqApprove ApprovedDispatch (sample_scope 1) 5 sample_approval, PhStart),
      TurnSpawn (RqDeny (sample_scope 2) 5 \<lparr>da_denied_by = PUser ''root''\<rparr>, PhStart),
      TurnTask 0 sample_env, TurnTask 1 sample_env, TurnTask 0 sample_env, TurnTask 1 sample_env,
      TurnTask 0 sample_env, TurnTask 0 sample_env]"

definition sample_outcome :: "nat resolver_world \<times> nat resolver_task list" where
  "sample_outcome =
     foldl (take_turn (task_step resolver_new) store_call call_allowed task_starts)
       (sample_world, []) sample_race"

lemma sample_race_runs: "resolver_steps resolver_new (sample_world, []) sample_outcome"
  unfolding sample_outcome_def by (rule schedule_sound)

lemmas sample_resolver_defs = sample_env_def sample_dispatch_request_def sample_world_def
  sample_approval_def sample_race_def sample_scope_def

lemmas resolver_defs = task_step_def task_starts_def approvals_get_def approvals_decide_def
  leases_issue_def emit_approval_resolved_def emit_audit_best_effort_def approved_lease_def
  examine_record_def known_record_def or_done_def capability_lease_new_def ls_issue_def ap_get_def
  approval_op_defs resolver_new_def

theorem leases_rest_on_approvals_witness:
  "\<exists>l r key. hget (rw_leases (fst sample_outcome)) (lease_key (sample_scope 1) 11) = Some l
     \<and> hget (rw_approvals (fst sample_outcome)) key = Some r \<and> apr_status r = ApApproved
     \<and> req_requested_by (apr_request r) = cg_grantee (cl_grant l)"
proof -
  obtain l where l: "hget (rw_leases (fst sample_outcome)) (lease_key (sample_scope 1) 11) = Some l"
    by (simp add: sample_outcome_def sample_resolver_defs resolver_defs hcontains_def Let_def
        approval_key_def lease_key_def numeral_nat)
  show ?thesis
    using leases_rest_on_approvals [of resolver_new sample_world "fst sample_outcome" "snd sample_outcome", OF _ _ l]
      sample_race_runs l by (auto simp: sample_world_def)
qed

text \<open>(C21) A request is decided once: of all the tasks that race to approve or deny one request, at
  most one decides it; two tasks never both succeed, whether they agree or not, and an approval that
  failed to issue its lease excludes a later denial.\<close>

theorem request_decided_once:
  assumes "resolver_steps s (w, []) (w', ts)" and "i < length ts" "j < length ts"
    and "decided_by (ts ! i) = Some k" "decided_by (ts ! j) = Some k"
  shows "i = j \<and> request_closed w' k"
proof -
  have "won_once decided_by request_closed k (w', ts)"
    using exclusive_resolver.won_at_most_once [OF assms(1), of k] by (simp add: won_once_def)
  then show ?thesis using won_once_unique assms(2-5) by metis
qed

theorem request_decided_once_witness:
  "length (snd sample_outcome) = 2
   \<and> decided_by (snd sample_outcome ! 0) = Some (approval_key (sample_scope 1) 5)
   \<and> decided_by (snd sample_outcome ! 1) = None"
proof -
  have n: "length (snd sample_outcome) = 2"
    and d: "decided_by (snd sample_outcome ! 0) = Some (approval_key (sample_scope 1) 5)"
    and q: "fst (snd sample_outcome ! 1) = RqDeny (sample_scope 2) 5 \<lparr>da_denied_by = PUser ''root''\<rparr>"
    by (simp_all add: sample_outcome_def sample_resolver_defs resolver_defs hcontains_def Let_def
        approval_key_def lease_key_def numeral_nat decided_by_def)
  have "decided_by (snd sample_outcome ! 1) \<noteq> Some (approval_key (sample_scope 1) 5)"
    using request_decided_once [of resolver_new sample_world "fst sample_outcome" "snd sample_outcome" 0 1]
      sample_race_runs n d by auto
  then have "decided_by (snd sample_outcome ! 1) = None"
    using q by (auto simp: decided_by_def approval_key_def sample_scope_def)
  then show ?thesis using n d by simp
qed

text \<open>(C22) An approval that lost its lease is recoverable: when the lease store fails after a grantable
  pending request was approved, the call reports the store's error and leaves the request approved,
  with no lease and no audit event; approving or denying it again is refused, and a retry with the
  same terms issues the lease, for the record's scope and requester and bound to its fingerprint,
  and reports it to the sink.\<close>

theorem lost_lease_recovers:
  assumes "hget (rw_approvals w) (approval_key sc i) = Some r" "apr_status r = ApPending"
    and "capability_for_action (req_action (apr_request r)) x = Some c"
    and "req_invocation_fingerprint (apr_request r) = Some fp"
    and "re_get_fault env = None" "re_decide_fault env = None" "re_issue_fault env = Some e"
  shows "\<exists>w1. approve_capability_action s env w sc i a x = (w1, Err (ArLease e))
    \<and> hget (rw_approvals w1) (approval_key sc i) = Some (r\<lparr>apr_status := ApApproved\<rparr>)
    \<and> rw_leases w1 = rw_leases w \<and> rw_audit w1 = rw_audit w
    \<and> approve_capability_action s env w1 sc i a x = (w1, Err (NotPending ApApproved))
    \<and> resolver_deny s env w1 sc i d = (w1, Err (NotPending ApApproved))
    \<and> (let env' = env\<lparr>re_issue_fault := None\<rparr>;
          l = approved_lease (re_grant_id env) (r\<lparr>apr_status := ApApproved\<rparr>) c a fp
       in \<exists>w2. retry_lease_issue_for_action s env' w1 sc i a x = (w2, Ok l)
          \<and> rw_approvals w2 = rw_approvals w1
          \<and> rw_leases w2 = hput (lease_key (apr_scope r) (re_grant_id env)) l (rw_leases w)
          \<and> cg_grantee (cl_grant l) = req_requested_by (apr_request r)
          \<and> cl_invocation_fingerprint l = Some fp \<and> cl_status l = LeaseActive
          \<and> rw_audit w2 = rw_audit w @
              (if ar_audit_sink s \<and> \<not> re_sink_fails env
               then [approval_resolved (re_uuid_text env) (re_event_id env) (re_now env) (apr_scope r)
                       (apr_request r) (la_issued_by a) DecidedApproved]
               else []))"
proof -
  let ?w1 = "w\<lparr>rw_approvals := hput (approval_key sc i) (r\<lparr>apr_status := ApApproved\<rparr>) (rw_approvals w)\<rparr>"
  note defs = approve_capability_action_def known_record_def approvals_get_def ap_get_def
    examine_record_def approvals_decide_def ap_approve_def ap_update_status_def
    issue_lease_for_approved_def leases_issue_def
  have a1: "approve_capability_action s env w sc i a x = (?w1, Err (ArLease e))"
    using assms by (simp add: defs)
  have a2: "approve_capability_action s env ?w1 sc i a x = (?w1, Err (NotPending ApApproved))"
    using assms by (simp add: defs hmap_simps)
  have d: "resolver_deny s env ?w1 sc i d = (?w1, Err (NotPending ApApproved))"
    using assms by (simp add: defs hmap_simps resolver_deny_def)
  show ?thesis
    unfolding Let_def using a1 a2 d assms
    by (intro exI [of _ ?w1])
       (simp add: hmap_simps retry_lease_issue_for_action_def defs ls_issue_def approved_lease_def
         capability_lease_new_def emit_approval_resolved_def emit_audit_best_effort_def)
qed

theorem lost_lease_recovers_witness:
  "\<exists>w1. approve_capability_action resolver_new (sample_env\<lparr>re_issue_fault := Some CasExhausted\<rparr>) sample_world
        (sample_scope 1) 5 sample_approval ApprovedDispatch = (w1, Err (ArLease CasExhausted))
     \<and> (\<exists>w2 l. retry_lease_issue_for_action resolver_new
          ((sample_env\<lparr>re_issue_fault := Some CasExhausted\<rparr>)\<lparr>re_issue_fault := None\<rparr>) w1 (sample_scope 1) 5
          sample_approval ApprovedDispatch = (w2, Ok l) \<and> cl_invocation_fingerprint l = Some ''fp'')"
proof -
  let ?r = "\<lparr>apr_scope = sample_scope 1, apr_request = sample_dispatch_request, apr_status = ApPending\<rparr>"
  let ?env = "sample_env\<lparr>re_issue_fault := Some CasExhausted\<rparr>"
  have "hget (rw_approvals sample_world) (approval_key (sample_scope 1) 5) = Some ?r"
    by (simp add: sample_world_def ap_save_pending_def sample_dispatch_request_def hcontains_def Let_def)
  from lost_lease_recovers [where w = sample_world and r = ?r and env = ?env and sc = "sample_scope 1"
      and i = 5 and x = ApprovedDispatch and s = resolver_new and a = sample_approval
      and c = "''demo.run''" and fp = "''fp''" and e = CasExhausted, OF this]
  show ?thesis
    unfolding Let_def by (simp add: sample_env_def sample_dispatch_request_def) metis
qed

end
