(* ===== verification/Ip_Addresses.thy ===== *)
theory Ip_Addresses
  imports Rust_Strings
begin

text \<open>
  Internet addresses of the Rust standard library as the network boundary uses them
  (\<open>std::net::IpAddr\<close>): the classification predicates, the text parser behind
  \<open>host.parse::<IpAddr>()\<close>, and the private-range test of \<open>ironclaw_network/src/policy.rs\<close>. An IPv4
  address is its four octets, an IPv6 address its eight segments.

  The private-range test is shown equal to membership in a table of address blocks, and the parser
  to read back every printed IPv4 address.
\<close>

unbundle bit_operations_syntax

section \<open>Addresses and their classification\<close>

datatype ip_addr =
    V4 u8 u8 u8 u8
  | V6 u16 u16 u16 u16 u16 u16 u16 u16

definition v4_is_private :: "u8 \<Rightarrow> u8 \<Rightarrow> bool" where
  "v4_is_private a b = (a = 10 \<or> (a = 172 \<and> 16 \<le> b \<and> b \<le> 31) \<or> (a = 192 \<and> b = 168))"

definition v4_is_documentation :: "u8 \<Rightarrow> u8 \<Rightarrow> u8 \<Rightarrow> bool" where
  "v4_is_documentation a b c =
     ((a = 192 \<and> b = 0 \<and> c = 2) \<or> (a = 198 \<and> b = 51 \<and> c = 100) \<or> (a = 203 \<and> b = 0 \<and> c = 113))"

definition is_carrier_grade_nat_v4 :: "u8 \<Rightarrow> u8 \<Rightarrow> bool" where
  "is_carrier_grade_nat_v4 first second = (first = 100 \<and> 64 \<le> second \<and> second \<le> 127)"

definition is_documentation_v6 :: "u16 \<Rightarrow> u16 \<Rightarrow> bool" where
  "is_documentation_v6 s0 s1 = (s0 = 0x2001 \<and> s1 = 0x0db8)"

definition high_byte :: "u16 \<Rightarrow> u8" where
  "high_byte s = ucast (drop_bit 8 s)"

definition low_byte :: "u16 \<Rightarrow> u8" where
  "low_byte s = ucast s"

definition from_be_bytes :: "u8 \<Rightarrow> u8 \<Rightarrow> u16" where
  "from_be_bytes hi lo = push_bit 8 (ucast hi) OR ucast lo"

definition v4_private_or_loopback :: "u8 \<Rightarrow> u8 \<Rightarrow> u8 \<Rightarrow> u8 \<Rightarrow> bool" where
  "v4_private_or_loopback a b c d =
     (v4_is_private a b
      \<or> a = 127
      \<or> (a = 169 \<and> b = 254)
      \<or> (a = 255 \<and> b = 255 \<and> c = 255 \<and> d = 255)
      \<or> v4_is_documentation a b c
      \<or> (224 \<le> a \<and> a \<le> 239)
      \<or> a = 0
      \<or> is_carrier_grade_nat_v4 a b)"

definition is_private_or_loopback_ip :: "ip_addr \<Rightarrow> bool" where
  "is_private_or_loopback_ip ip =
     (case ip of
        V4 a b c d \<Rightarrow> v4_private_or_loopback a b c d
      | V6 s0 s1 s2 s3 s4 s5 s6 s7 \<Rightarrow>
          if s0 = 0 \<and> s1 = 0 \<and> s2 = 0 \<and> s3 = 0 \<and> s4 = 0 \<and> s5 = 0xffff
          then v4_private_or_loopback (high_byte s6) (low_byte s6) (high_byte s7) (low_byte s7)
          else (s0 = 0 \<and> s1 = 0 \<and> s2 = 0 \<and> s3 = 0 \<and> s4 = 0 \<and> s5 = 0 \<and> s6 = 0 \<and> s7 = 1)
            \<or> (s0 = 0 \<and> s1 = 0 \<and> s2 = 0 \<and> s3 = 0 \<and> s4 = 0 \<and> s5 = 0 \<and> s6 = 0 \<and> s7 = 0)
            \<or> s0 AND 0xfe00 = 0xfc00
            \<or> s0 AND 0xffc0 = 0xfe80
            \<or> s0 AND 0xff00 = 0xff00
            \<or> is_documentation_v6 s0 s1)"

section \<open>The parser\<close>

text \<open>Every reader returns what it read and the rest of the text, or nothing, in which case the text is
  untouched.\<close>

definition to_digit :: "nat \<Rightarrow> char \<Rightarrow> nat option" where
  "to_digit radix c =
     (let d = (if is_ascii_digit c then Some (byte c - 48)
               else if is_ascii_lowercase c then Some (byte c - 87)
               else if is_ascii_uppercase c then Some (byte c - 55)
               else None)
      in case d of Some n \<Rightarrow> if n < radix then Some n else None | None \<Rightarrow> None)"

fun read_digits :: "nat \<Rightarrow> string \<Rightarrow> nat list \<times> string" where
  "read_digits radix [] = ([], [])"
| "read_digits radix (c # cs) =
     (case to_digit radix c of
        None \<Rightarrow> ([], c # cs)
      | Some d \<Rightarrow> (case read_digits radix cs of (ds, rest) \<Rightarrow> (d # ds, rest)))"

definition digits_value :: "nat \<Rightarrow> nat list \<Rightarrow> nat" where
  "digits_value radix ds = foldl (\<lambda>n d. n * radix + d) 0 ds"

definition read_number ::
  "nat \<Rightarrow> nat \<Rightarrow> bool \<Rightarrow> nat \<Rightarrow> string \<Rightarrow> (nat \<times> string) option" where
  "read_number radix max_digits allow_zero_prefix bound s =
     (case read_digits radix s of (ds, rest) \<Rightarrow>
        if length ds > max_digits then None
        else if ds = [] then None
        else if \<not> allow_zero_prefix \<and> hd s = CHR ''0'' \<and> length ds > 1 then None
        else if digits_value radix ds < bound then Some (digits_value radix ds, rest)
        else None)"

definition read_given_char :: "char \<Rightarrow> string \<Rightarrow> string option" where
  "read_given_char c s = (case s of x # rest \<Rightarrow> if x = c then Some rest else None | [] \<Rightarrow> None)"

definition read_separator ::
  "char \<Rightarrow> nat \<Rightarrow> (string \<Rightarrow> ('a \<times> string) option) \<Rightarrow> string \<Rightarrow> ('a \<times> string) option" where
  "read_separator sep index inner s =
     (if index = 0 then inner s
      else (case read_given_char sep s of None \<Rightarrow> None | Some rest \<Rightarrow> inner rest))"

fun read_v4_groups :: "nat \<Rightarrow> nat \<Rightarrow> string \<Rightarrow> (nat list \<times> string) option" where
  "read_v4_groups 0 i s = Some ([], s)"
| "read_v4_groups (Suc n) i s =
     (case read_separator (CHR ''.'') i (read_number 10 3 False 256) s of
        None \<Rightarrow> None
      | Some (g, rest) \<Rightarrow>
          (case read_v4_groups n (Suc i) rest of
             None \<Rightarrow> None
           | Some (gs, rest') \<Rightarrow> Some (g # gs, rest')))"

definition read_ipv4_addr :: "string \<Rightarrow> ((u8 \<times> u8 \<times> u8 \<times> u8) \<times> string) option" where
  "read_ipv4_addr s =
     (case read_v4_groups 4 0 s of
        Some ([a, b, c, d], rest) \<Rightarrow> Some ((of_nat a, of_nat b, of_nat c, of_nat d), rest)
      | _ \<Rightarrow> None)"

text \<open>Groups of an IPv6 address: at most \<open>n\<close> more, \<open>i\<close> being read already; the flag says that a
  trailing IPv4 address filled the last two.\<close>

fun read_groups :: "nat \<Rightarrow> nat \<Rightarrow> string \<Rightarrow> u16 list \<times> bool \<times> string" where
  "read_groups 0 i s = ([], False, s)"
| "read_groups (Suc n) i s =
     (case (if 1 \<le> n then read_separator (CHR '':'') i read_ipv4_addr s else None) of
        Some ((a, b, c, d), rest) \<Rightarrow> ([from_be_bytes a b, from_be_bytes c d], True, rest)
      | None \<Rightarrow>
          (case read_separator (CHR '':'') i (read_number 16 4 True 65536) s of
             None \<Rightarrow> ([], False, s)
           | Some (g, rest) \<Rightarrow>
               (case read_groups n (Suc i) rest of (gs, v4, rest') \<Rightarrow> (of_nat g # gs, v4, rest'))))"

definition v6_of_groups :: "u16 list \<Rightarrow> ip_addr option" where
  "v6_of_groups gs =
     (case gs of [a, b, c, d, e, f, g, h] \<Rightarrow> Some (V6 a b c d e f g h) | _ \<Rightarrow> None)"

definition read_ipv6_addr :: "string \<Rightarrow> (ip_addr \<times> string) option" where
  "read_ipv6_addr s =
     (case read_groups 8 0 s of (head, head_ipv4, rest) \<Rightarrow>
        if length head = 8 then map_option (\<lambda>ip. (ip, rest)) (v6_of_groups head)
        else if head_ipv4 then None
        else (case read_given_char (CHR '':'') rest of
                None \<Rightarrow> None
              | Some rest1 \<Rightarrow>
                  (case read_given_char (CHR '':'') rest1 of
                     None \<Rightarrow> None
                   | Some rest2 \<Rightarrow>
                       (case read_groups (8 - (length head + 1)) 0 rest2 of (tail, _, rest3) \<Rightarrow>
                          map_option (\<lambda>ip. (ip, rest3))
                            (v6_of_groups
                               (head @ replicate (8 - length head - length tail) 0 @ tail))))))"

definition read_ip_addr :: "string \<Rightarrow> (ip_addr \<times> string) option" where
  "read_ip_addr s =
     (case read_ipv4_addr s of
        Some ((a, b, c, d), rest) \<Rightarrow> Some (V4 a b c d, rest)
      | None \<Rightarrow> read_ipv6_addr s)"

definition parse_ip :: "string \<Rightarrow> ip_addr option" where
  "parse_ip s = (case read_ip_addr s of Some (ip, []) \<Rightarrow> Some ip | _ \<Rightarrow> None)"

definition show_v4 :: "u8 \<Rightarrow> u8 \<Rightarrow> u8 \<Rightarrow> u8 \<Rightarrow> string" where
  "show_v4 a b c d =
     join_with (CHR ''.'') (map (\<lambda>x. show_nat (unat x)) [a, b, c, d])"

section \<open>Blocks\<close>

text \<open>An address as a number, and the table of blocks the boundary keeps traffic away from, each with
  its first address and the length of its prefix: IPv4 blocks, the same blocks as mapped IPv6
  addresses, and the IPv6 blocks.\<close>

definition v4_number :: "u8 \<Rightarrow> u8 \<Rightarrow> u8 \<Rightarrow> u8 \<Rightarrow> nat" where
  "v4_number a b c d = ((unat a * 256 + unat b) * 256 + unat c) * 256 + unat d"

fun ip_number :: "ip_addr \<Rightarrow> nat" where
  "ip_number (V4 a b c d) = v4_number a b c d"
| "ip_number (V6 s0 s1 s2 s3 s4 s5 s6 s7) =
     ((((((unat s0 * 65536 + unat s1) * 65536 + unat s2) * 65536 + unat s3) * 65536 + unat s4) * 65536
        + unat s5) * 65536 + unat s6) * 65536 + unat s7"

definition in_block :: "nat \<Rightarrow> nat \<Rightarrow> nat \<times> nat \<Rightarrow> bool" where
  "in_block bits n block = (case block of (base, len) \<Rightarrow> base \<le> n \<and> n < base + 2 ^ (bits - len))"

definition v4_blocks :: "(nat \<times> nat) list" where
  "v4_blocks =
     [(0x00000000, 8), (0x0a000000, 8), (0x64400000, 10), (0x7f000000, 8), (0xa9fe0000, 16),
      (0xac100000, 12), (0xc0000200, 24), (0xc0a80000, 16), (0xc6336400, 24), (0xcb007100, 24),
      (0xe0000000, 4), (0xffffffff, 32)]"

definition mapped_base :: nat where
  "mapped_base = 0xffff00000000"

definition v6_blocks :: "(nat \<times> nat) list" where
  "v6_blocks =
     [(0, 128), (1, 128), (0xfc00 * 2 ^ 112, 7), (0xfe80 * 2 ^ 112, 10), (0xff00 * 2 ^ 112, 8),
      (0x20010db8 * 2 ^ 96, 32)]"

definition private_blocks :: "ip_addr \<Rightarrow> (nat \<times> nat) list" where
  "private_blocks ip =
     (case ip of
        V4 _ _ _ _ \<Rightarrow> v4_blocks
      | V6 _ _ _ _ _ _ _ _ \<Rightarrow> map (\<lambda>(base, len). (mapped_base + base, 96 + len)) v4_blocks @ v6_blocks)"

definition ip_bits :: "ip_addr \<Rightarrow> nat" where
  "ip_bits ip = (case ip of V4 _ _ _ _ \<Rightarrow> 32 | V6 _ _ _ _ _ _ _ _ \<Rightarrow> 128)"

lemma unat_u8 [simp]: "unat (x :: u8) < 256"
  using unsigned_less [of x] by simp

lemma unat_u16 [simp]: "unat (x :: u16) < 65536"
  using unsigned_less [of x] by simp

lemma block_div: "0 < m \<Longrightarrow> q * m \<le> n \<and> n < q * m + m \<longleftrightarrow> n div m = (q :: nat)"
  by (metis div_nat_eqI div_mult_self_is_m div_times_less_eq_dividend add.commute dividend_less_div_times mult.commute mult_Suc)

lemma octet_divs:
  fixes a b c d :: nat
  assumes "a < 256" "b < 256" "c < 256" "d < 256"
  defines "n \<equiv> ((a * 256 + b) * 256 + c) * 256 + d"
  shows "n div 256 = (a * 256 + b) * 256 + c" "n div 65536 = a * 256 + b" "n div 16777216 = a"
    "n div 4194304 = a * 4 + b div 64" "n div 1048576 = a * 16 + b div 16" "n div 268435456 = a div 16"
proof -
  show e: "n div 256 = (a * 256 + b) * 256 + c" using assms by simp
  have "n div 65536 = n div 256 div 256" by (simp add: div_mult2_eq [symmetric])
  also have "\<dots> = a * 256 + b" using assms(3) unfolding e by simp
  finally show f: "n div 65536 = a * 256 + b" .
  have "n div 16777216 = n div 65536 div 256" by (simp add: div_mult2_eq [symmetric])
  also have "\<dots> = a" using assms(2) unfolding f by simp
  finally show g: "n div 16777216 = a" .
  have "n div 4194304 = n div 65536 div 64" by (simp add: div_mult2_eq [symmetric])
  moreover have "(b + (a * 4) * 64) div 64 = a * 4 + b div 64" by simp
  ultimately show "n div 4194304 = a * 4 + b div 64" unfolding f by (simp add: add.commute)
  have "n div 1048576 = n div 65536 div 16" by (simp add: div_mult2_eq [symmetric])
  moreover have "(b + (a * 16) * 16) div 16 = a * 16 + b div 16" by simp
  ultimately show "n div 1048576 = a * 16 + b div 16" unfolding f by (simp add: add.commute)
  have "n div 268435456 = n div 16777216 div 16" by (simp add: div_mult2_eq [symmetric])
  then show "n div 268435456 = a div 16" unfolding g .
qed

lemma radix_eq:
  fixes x y x' y' m :: nat
  assumes "y < m" "y' < m"
  shows "x * m + y = x' * m + y' \<longleftrightarrow> x = x' \<and> y = y'"
proof
  assume e: "x * m + y = x' * m + y'"
  have "(x * m + y) div m = x" "(x' * m + y') div m = x'" using assms by simp_all
  then show "x = x' \<and> y = y'" using e by simp
qed simp

lemma in_block_div:
  assumes "base = q * 2 ^ (bits - len)"
  shows "in_block bits n (base, len) \<longleftrightarrow> n div 2 ^ (bits - len) = q"
  using block_div [of "2 ^ (bits - len)" q n] unfolding assms by (simp add: in_block_def)

lemma v4_blocks_nat:
  fixes a b c d :: nat
  assumes "a < 256" "b < 256" "c < 256" "d < 256"
  shows "(\<exists>blk \<in> set v4_blocks. in_block 32 (((a * 256 + b) * 256 + c) * 256 + d) blk) \<longleftrightarrow>
     a = 10 \<or> (a = 172 \<and> 16 \<le> b \<and> b \<le> 31) \<or> (a = 192 \<and> b = 168) \<or> a = 127 \<or> (a = 169 \<and> b = 254)
     \<or> (a = 255 \<and> b = 255 \<and> c = 255 \<and> d = 255)
     \<or> (a = 192 \<and> b = 0 \<and> c = 2) \<or> (a = 198 \<and> b = 51 \<and> c = 100) \<or> (a = 203 \<and> b = 0 \<and> c = 113)
     \<or> (224 \<le> a \<and> a \<le> 239) \<or> a = 0 \<or> (a = 100 \<and> 64 \<le> b \<and> b \<le> 127)"
proof -
  define n where "n = ((a * 256 + b) * 256 + c) * 256 + d"
  note divs = octet_divs [OF assms, folded n_def]
  have b8: "in_block 32 n (x * 16777216, 8) \<longleftrightarrow> a = x" for x
    by (simp add: in_block_div [of _ x] divs)
  have b16: "in_block 32 n ((x * 256 + y) * 65536, 16) \<longleftrightarrow> a = x \<and> b = y" if "y < 256" for x y
    using assms(2) that by (simp add: in_block_div [of _ "x * 256 + y"] divs radix_eq)
  have b24: "in_block 32 n (((x * 256 + y) * 256 + z) * 256, 24) \<longleftrightarrow> a = x \<and> b = y \<and> c = z"
    if "y < 256" "z < 256" for x y z
  proof -
    have "in_block 32 n (((x * 256 + y) * 256 + z) * 256, 24)
        \<longleftrightarrow> (a * 256 + b) * 256 + c = (x * 256 + y) * 256 + z"
      by (simp add: in_block_div [of _ "(x * 256 + y) * 256 + z"] divs)
    then show ?thesis using assms(2,3) that by (simp only: radix_eq simp_thms conj_assoc)
  qed
  have b10: "in_block 32 n (0x64400000, 10) \<longleftrightarrow> a = 100 \<and> 64 \<le> b \<and> b \<le> 127"
  proof -
    have "in_block 32 n (0x64400000, 10) \<longleftrightarrow> a * 4 + b div 64 = 100 * 4 + 1"
      by (simp add: in_block_div [of _ 401] divs)
    moreover have "b div 64 < 4" using assms(2) by (intro less_mult_imp_div_less) simp
    moreover have "b div 64 = 1 \<longleftrightarrow> 64 \<le> b \<and> b \<le> 127" using block_div [of 64 1 b] by auto
    ultimately show ?thesis by (simp only: radix_eq)
  qed
  have b12: "in_block 32 n (0xac100000, 12) \<longleftrightarrow> a = 172 \<and> 16 \<le> b \<and> b \<le> 31"
  proof -
    have "in_block 32 n (0xac100000, 12) \<longleftrightarrow> a * 16 + b div 16 = 172 * 16 + 1"
      by (simp add: in_block_div [of _ 2753] divs)
    moreover have "b div 16 < 16" using assms(2) by (intro less_mult_imp_div_less) simp
    moreover have "b div 16 = 1 \<longleftrightarrow> 16 \<le> b \<and> b \<le> 31" using block_div [of 16 1 b] by auto
    ultimately show ?thesis by (simp only: radix_eq)
  qed
  have b4: "in_block 32 n (0xe0000000, 4) \<longleftrightarrow> 224 \<le> a \<and> a \<le> 239"
    using block_div [of 16 14 a] by (auto simp: in_block_div [of _ 14] divs)
  have b32: "in_block 32 n (0xffffffff, 32) \<longleftrightarrow> a = 255 \<and> b = 255 \<and> c = 255 \<and> d = 255"
    using assms by (auto simp: in_block_def n_def)
  have "in_block 32 n (0x00000000, 8) \<longleftrightarrow> a = 0" "in_block 32 n (0x0a000000, 8) \<longleftrightarrow> a = 10"
    "in_block 32 n (0x7f000000, 8) \<longleftrightarrow> a = 127"
    "in_block 32 n (0xa9fe0000, 16) \<longleftrightarrow> a = 169 \<and> b = 254"
    "in_block 32 n (0xc0a80000, 16) \<longleftrightarrow> a = 192 \<and> b = 168"
    "in_block 32 n (0xc0000200, 24) \<longleftrightarrow> a = 192 \<and> b = 0 \<and> c = 2"
    "in_block 32 n (0xc6336400, 24) \<longleftrightarrow> a = 198 \<and> b = 51 \<and> c = 100"
    "in_block 32 n (0xcb007100, 24) \<longleftrightarrow> a = 203 \<and> b = 0 \<and> c = 113"
    using b8 [of 0] b8 [of 10] b8 [of 127] b16 [of 254 169] b16 [of 168 192]
      b24 [of 0 2 192] b24 [of 51 100 198] b24 [of 0 113 203]
    by simp_all
  note blocks = this b10 b12 b4 b32
  show ?thesis
    unfolding n_def [symmetric] v4_blocks_def list.set bex_simps blocks by argo
qed

lemma v4_private_blocks:
  "v4_private_or_loopback a b c d \<longleftrightarrow> (\<exists>blk \<in> set v4_blocks. in_block 32 (v4_number a b c d) blk)"
  unfolding v4_number_def v4_blocks_nat [OF unat_u8 unat_u8 unat_u8 unat_u8]
  by (simp add: v4_private_or_loopback_def v4_is_private_def v4_is_documentation_def
      is_carrier_grade_nat_v4_def word_unat_eq_iff word_le_nat_alt conj_assoc disj_assoc)

lemma and_not_mask: "s AND NOT (mask n) = push_bit n (drop_bit n s)" for s :: "'a::len word"
  by (rule bit_word_eqI) (auto simp: bit_simps)

lemma unat_drop_bit: "unat (drop_bit n s) = unat s div 2 ^ n" for s :: "'a::len word"
proof -
  have "unat (drop_bit n s) = drop_bit n (unat s)"
    by (simp add: unsigned_drop_bit_eq take_bit_nat_eq_self)
  then show ?thesis by (simp add: drop_bit_eq_div)
qed

lemma and_mask_eq:
  fixes s :: u16
  assumes "k = NOT (mask n)" and "c = push_bit n y" and "drop_bit n c = y"
  shows "s AND k = c \<longleftrightarrow> unat s div 2 ^ n = unat y"
proof -
  have "s AND k = c \<longleftrightarrow> drop_bit n s = y"
  proof
    assume "s AND k = c"
    then have "drop_bit n (push_bit n (drop_bit n s)) = y" using assms by (simp add: and_not_mask)
    moreover have "drop_bit n (push_bit n (drop_bit n s)) = drop_bit n s"
      by (rule bit_word_eqI) (auto simp: bit_simps dest: bit_imp_le_length)
    ultimately show "drop_bit n s = y" by simp
  qed (simp add: assms(1,2) and_not_mask)
  also have "\<dots> \<longleftrightarrow> unat s div 2 ^ n = unat y"
    unfolding word_unat_eq_iff unat_drop_bit ..
  finally show ?thesis .
qed

lemma segment_masks:
  fixes s :: u16
  shows "s AND 0xfe00 = 0xfc00 \<longleftrightarrow> unat s div 512 = 126"
    "s AND 0xffc0 = 0xfe80 \<longleftrightarrow> unat s div 64 = 1018"
    "s AND 0xff00 = 0xff00 \<longleftrightarrow> unat s div 256 = 255"
proof -
  have "(0xfe00 :: u16) = NOT (mask 9)" "(0xffc0 :: u16) = NOT (mask 6)" "(0xff00 :: u16) = NOT (mask 8)"
    by (simp_all add: mask_eq_exp_minus_1 not_eq_complement)
  note masks = this
  have "unat (126 :: u16) = 126" "unat (1018 :: u16) = 1018" "unat (255 :: u16) = 255" by simp_all
  note vals = this
  show "s AND 0xfe00 = 0xfc00 \<longleftrightarrow> unat s div 512 = 126"
    using and_mask_eq [OF masks(1), of "0xfc00" 126 s] by (simp only: vals) simp
  show "s AND 0xffc0 = 0xfe80 \<longleftrightarrow> unat s div 64 = 1018"
    using and_mask_eq [OF masks(2), of "0xfe80" 1018 s] by (simp only: vals) simp
  show "s AND 0xff00 = 0xff00 \<longleftrightarrow> unat s div 256 = 255"
    using and_mask_eq [OF masks(3), of "0xff00" 255 s] by (simp only: vals) simp
qed

lemma unat_bytes: "unat s = unat (high_byte s) * 256 + unat (low_byte s)"
proof -
  have "unat s < 256 * 256" using unsigned_less [of s, where 'a = nat] by simp
  then have "unat s div 256 < 256" by (rule less_mult_imp_div_less)
  then have "unat (ucast (drop_bit 8 s) :: u8) = unat s div 256"
    by (simp add: unsigned_ucast_eq unat_drop_bit take_bit_eq_mod)
  moreover have "unat (ucast s :: u8) = unat s mod 256"
    by (simp add: unsigned_ucast_eq take_bit_eq_mod)
  ultimately show ?thesis by (simp add: high_byte_def low_byte_def)
qed

lemma v4_number_bytes:
  "v4_number (high_byte s) (low_byte s) (high_byte t) (low_byte t) = unat s * 65536 + unat t"
  using unat_bytes [of s] unat_bytes [of t] by (simp add: v4_number_def)

text \<open>The eight segments, most significant first, as one number.\<close>

definition v6_high :: "u16 \<Rightarrow> u16 \<Rightarrow> u16 \<Rightarrow> u16 \<Rightarrow> u16 \<Rightarrow> u16 \<Rightarrow> nat" where
  "v6_high s0 s1 s2 s3 s4 s5 =
     ((((unat s0 * 65536 + unat s1) * 65536 + unat s2) * 65536 + unat s3) * 65536 + unat s4) * 65536
       + unat s5"

lemma v6_number: 
  "ip_number (V6 s0 s1 s2 s3 s4 s5 s6 s7) = v6_high s0 s1 s2 s3 s4 s5 * 4294967296 + (unat s6 * 65536 + unat s7)"
  "unat s6 * 65536 + unat s7 < 4294967296"
  using unat_u16 [of s6] unat_u16 [of s7] by (simp add: v6_high_def, linarith)

lemma v6_high_eq:
  "v6_high s0 s1 s2 s3 s4 s5 = unat x \<longleftrightarrow> s0 = 0 \<and> s1 = 0 \<and> s2 = 0 \<and> s3 = 0 \<and> s4 = 0 \<and> s5 = x"
proof -
  have "v6_high s0 s1 s2 s3 s4 s5 = unat x \<longleftrightarrow> v6_high s0 s1 s2 s3 s4 s5 =
      ((((0 * 65536 + 0) * 65536 + 0) * 65536 + 0) * 65536 + 0) * 65536 + unat x"
    by simp
  also have "\<dots> \<longleftrightarrow> unat s0 = 0 \<and> unat s1 = 0 \<and> unat s2 = 0 \<and> unat s3 = 0 \<and> unat s4 = 0 \<and> unat s5 = unat x"
    unfolding v6_high_def by (simp only: radix_eq unat_u16 conj_assoc zero_less_numeral)
  finally show ?thesis unfolding unat_eq_zero word_unat_eq_iff [of s5 x] .
qed

lemma v6_divs:
  fixes s0 s1 s2 s3 s4 s5 s6 s7
  defines "n \<equiv> ip_number (V6 s0 s1 s2 s3 s4 s5 s6 s7)"
  shows "n div 4294967296 = v6_high s0 s1 s2 s3 s4 s5" "n div 2 ^ 96 = unat s0 * 65536 + unat s1"
    "n div 2 ^ 112 = unat s0"
proof -
  show h: "n div 4294967296 = v6_high s0 s1 s2 s3 s4 s5"
    unfolding n_def v6_number(1) using v6_number(2) [of s6 s7] by simp
  have d16: "(x * 65536 + unat s) div 65536 = x" for x and s :: u16 using unat_u16 [of s] by simp
  have "n div 2 ^ 96 = n div 4294967296 div 65536 div 65536 div 65536 div 65536"
    by (simp add: div_mult2_eq [symmetric])
  also have "\<dots> = unat s0 * 65536 + unat s1" unfolding h v6_high_def d16 ..
  finally show f: "n div 2 ^ 96 = unat s0 * 65536 + unat s1" .
  have "n div 2 ^ 112 = n div 2 ^ 96 div 65536" by (simp add: div_mult2_eq [symmetric])
  then show "n div 2 ^ 112 = unat s0" unfolding f d16 .
qed

lemma v4_blocks_fit: "blk \<in> set v4_blocks \<Longrightarrow> in_block 32 n blk \<Longrightarrow> n < 4294967296"
  by (auto simp: v4_blocks_def in_block_def)

lemma mapped_block:
  "in_block 128 n (mapped_base + base, 96 + len) \<longleftrightarrow> mapped_base \<le> n \<and> in_block 32 (n - mapped_base) (base, len)"
  by (auto simp: in_block_def)

lemma mapped_blocks:
  "(\<exists>blk \<in> set (map (\<lambda>(base, len). (mapped_base + base, 96 + len)) v4_blocks). in_block 128 n blk)
   \<longleftrightarrow> n div 4294967296 = 0xffff \<and> (\<exists>blk \<in> set v4_blocks. in_block 32 (n - mapped_base) blk)"
proof -
  have "(\<exists>blk \<in> set (map (\<lambda>(base, len). (mapped_base + base, 96 + len)) v4_blocks). in_block 128 n blk)
      \<longleftrightarrow> (\<exists>blk \<in> set v4_blocks. mapped_base \<le> n \<and> in_block 32 (n - mapped_base) blk)"
    unfolding set_map by (force simp: mapped_block)
  also have "\<dots> \<longleftrightarrow> (\<exists>blk \<in> set v4_blocks. n div 4294967296 = 0xffff \<and> in_block 32 (n - mapped_base) blk)"
  proof (rule bex_cong [OF refl])
    fix blk assume "blk \<in> set v4_blocks"
    then show "(mapped_base \<le> n \<and> in_block 32 (n - mapped_base) blk) \<longleftrightarrow>
        (n div 4294967296 = 0xffff \<and> in_block 32 (n - mapped_base) blk)"
      using block_div [of 4294967296 "0xffff" n] v4_blocks_fit [of blk "n - mapped_base"]
      by (auto simp: mapped_base_def)
  qed
  finally show ?thesis by blast
qed

lemma v6_own_blocks:
  "(\<exists>blk \<in> set v6_blocks. in_block 128 n blk) \<longleftrightarrow>
     n = 1 \<or> n = 0 \<or> n div 2 ^ 112 div 512 = 126 \<or> n div 2 ^ 112 div 64 = 1018
     \<or> n div 2 ^ 112 div 256 = 255 \<or> n div 2 ^ 96 = 0x20010db8"
proof -
  have "in_block 128 n (0xfc00 * 2 ^ 112, 7) \<longleftrightarrow> n div 2 ^ 112 div 512 = 126"
    by (subst in_block_div [of _ 126]) (simp_all add: div_mult2_eq [symmetric])
  moreover have "in_block 128 n (0xfe80 * 2 ^ 112, 10) \<longleftrightarrow> n div 2 ^ 112 div 64 = 1018"
    by (subst in_block_div [of _ 1018]) (simp_all add: div_mult2_eq [symmetric])
  moreover have "in_block 128 n (0xff00 * 2 ^ 112, 8) \<longleftrightarrow> n div 2 ^ 112 div 256 = 255"
    by (subst in_block_div [of _ 255]) (simp_all add: div_mult2_eq [symmetric])
  moreover have "in_block 128 n (0x20010db8 * 2 ^ 96, 32) \<longleftrightarrow> n div 2 ^ 96 = 0x20010db8"
    by (subst in_block_div [of _ "0x20010db8"]) simp_all
  moreover have "in_block 128 n (0, 128) \<longleftrightarrow> n = 0" "in_block 128 n (1, 128) \<longleftrightarrow> n = 1"
    by (auto simp: in_block_def)
  ultimately show ?thesis unfolding v6_blocks_def list.set bex_simps by argo
qed

lemma v6_small:
  "ip_number (V6 s0 s1 s2 s3 s4 s5 s6 s7) = unat x \<longleftrightarrow>
     s0 = 0 \<and> s1 = 0 \<and> s2 = 0 \<and> s3 = 0 \<and> s4 = 0 \<and> s5 = 0 \<and> s6 = 0 \<and> s7 = x" for x :: u16
proof -
  have x: "unat x < 4294967296" using unat_u16 [of x] by linarith
  have "ip_number (V6 s0 s1 s2 s3 s4 s5 s6 s7) = unat x
      \<longleftrightarrow> v6_high s0 s1 s2 s3 s4 s5 = 0 \<and> unat s6 * 65536 + unat s7 = unat x"
    using radix_eq [OF v6_number(2) [of s6 s7] x, of "v6_high s0 s1 s2 s3 s4 s5" 0]
    unfolding v6_number(1) by simp
  moreover have "unat s6 * 65536 + unat s7 = unat x \<longleftrightarrow> unat s6 = 0 \<and> unat s7 = unat x"
    using radix_eq [of "unat s7" 65536 "unat x" "unat s6" 0] by simp
  moreover have "v6_high s0 s1 s2 s3 s4 s5 = 0 \<longleftrightarrow> s0 = 0 \<and> s1 = 0 \<and> s2 = 0 \<and> s3 = 0 \<and> s4 = 0 \<and> s5 = 0"
    using v6_high_eq [of s0 s1 s2 s3 s4 s5 0] by simp
  ultimately show ?thesis unfolding unat_eq_zero word_unat_eq_iff [of s7 x] by blast
qed

text \<open>(C27) The private-range test is a table of blocks: an address is refused exactly when, as a number, it
  lies in one of the listed blocks of its family. An IPv6 address that maps an IPv4 address is judged
  by the IPv4 blocks.\<close>

theorem private_iff_in_blocks:
  "is_private_or_loopback_ip ip \<longleftrightarrow>
     (\<exists>blk \<in> set (private_blocks ip). in_block (ip_bits ip) (ip_number ip) blk)"
proof (cases ip)
  case (V4 a b c d)
  then show ?thesis
    by (simp add: is_private_or_loopback_ip_def private_blocks_def ip_bits_def v4_private_blocks)
next
  case (V6 s0 s1 s2 s3 s4 s5 s6 s7)
  define n where "n = ip_number ip"
  note divs = v6_divs [of s0 s1 s2 s3 s4 s5 s6 s7, folded V6 n_def]
  let ?mapped = "s0 = 0 \<and> s1 = 0 \<and> s2 = 0 \<and> s3 = 0 \<and> s4 = 0 \<and> s5 = 0xffff"
  have blocks: "(\<exists>blk \<in> set (private_blocks ip). in_block (ip_bits ip) n blk) \<longleftrightarrow>
      ?mapped \<and> (\<exists>blk \<in> set v4_blocks. in_block 32 (n - mapped_base) blk)
      \<or> (\<exists>blk \<in> set v6_blocks. in_block 128 n blk)"
    using v6_high_eq [of s0 s1 s2 s3 s4 s5 "0xffff"]
    by (simp add: private_blocks_def ip_bits_def V6 bex_Un mapped_blocks divs del: set_map)
  have doc: "n div 2 ^ 96 = 0x20010db8 \<longleftrightarrow> s0 = 0x2001 \<and> s1 = 0x0db8"
    unfolding divs using radix_eq [of "unat s1" 65536 "0x0db8" "unat s0" "0x2001"]
    by (simp add: word_unat_eq_iff)
  show ?thesis
  proof (cases ?mapped)
    case True
    then have n: "n = mapped_base + (unat s6 * 65536 + unat s7)"
      by (simp add: n_def V6 mapped_base_def)
    have "\<not> (\<exists>blk \<in> set v6_blocks. in_block 128 n blk)"
      unfolding v6_own_blocks doc using True divs(3) n by (auto simp: mapped_base_def)
    moreover have "is_private_or_loopback_ip ip \<longleftrightarrow> (\<exists>blk \<in> set v4_blocks. in_block 32 (n - mapped_base) blk)"
      using True n by (simp add: is_private_or_loopback_ip_def V6 v4_private_blocks v4_number_bytes)
    ultimately show ?thesis using True blocks unfolding n_def [symmetric] by blast
  next
    case False
    note small = v6_small [of s0 s1 s2 s3 s4 s5 s6 s7, folded V6 n_def]
    have z: "n = 0 \<longleftrightarrow> s0 = 0 \<and> s1 = 0 \<and> s2 = 0 \<and> s3 = 0 \<and> s4 = 0 \<and> s5 = 0 \<and> s6 = 0 \<and> s7 = 0"
      using small [of 0] by simp
    have o1: "n = 1 \<longleftrightarrow> s0 = 0 \<and> s1 = 0 \<and> s2 = 0 \<and> s3 = 0 \<and> s4 = 0 \<and> s5 = 0 \<and> s6 = 0 \<and> s7 = 1"
      using small [of 1] by simp
    have "is_private_or_loopback_ip ip \<longleftrightarrow> (\<exists>blk \<in> set v6_blocks. in_block 128 n blk)"
      unfolding v6_own_blocks doc divs(3) segment_masks [symmetric] z o1
      unfolding is_private_or_loopback_ip_def V6 ip_addr.case if_not_P [OF False] is_documentation_v6_def ..
    then show ?thesis using False blocks unfolding n_def [symmetric] by blast
  qed
qed

theorem private_iff_in_blocks_witness:
  "is_private_or_loopback_ip (V6 0 0 0 0 0 0xffff 0x0a00 1)
   \<and> (\<exists>blk \<in> set (private_blocks (V6 0 0 0 0 0 0xffff 0x0a00 1)).
        in_block 128 (ip_number (V6 0 0 0 0 0 0xffff 0x0a00 1)) blk)"
proof -
  have "\<exists>blk \<in> set (private_blocks (V6 0 0 0 0 0 0xffff 0x0a00 1)).
      in_block 128 (ip_number (V6 0 0 0 0 0 0xffff 0x0a00 1)) blk"
    by (simp add: private_blocks_def v4_blocks_def in_block_def mapped_base_def)
  then show ?thesis
    using private_iff_in_blocks [of "V6 0 0 0 0 0 0xffff 0x0a00 1"] by (simp only: ip_bits_def ip_addr.case simp_thms)
qed

section \<open>Reading printed addresses\<close>

lemma byte_digit_char: "d < 10 \<Longrightarrow> byte (digit_char d) = 48 + d"
  by (simp add: byte_def of_char_of take_bit_eq_mod)

lemma to_digit_digit_char [simp]: "d < 10 \<Longrightarrow> to_digit 10 (digit_char d) = Some d"
  by (simp add: to_digit_def byte_digit_char is_ascii_digit_def del: digit_char.simps)

lemma digit_char_zero: "d < 10 \<Longrightarrow> digit_char d = CHR ''0'' \<longleftrightarrow> d = 0"
proof
  assume "d < 10" "digit_char d = CHR ''0''"
  then show "d = 0" using byte_digit_char [of d] by (simp add: byte_def del: digit_char.simps)
qed (simp add: char_of_def bit_0)

lemma show_nat_digits:
  "n < 10 \<Longrightarrow> show_nat n = [digit_char n]"
  "10 \<le> n \<Longrightarrow> n < 100 \<Longrightarrow> show_nat n = [digit_char (n div 10), digit_char (n mod 10)]"
  "100 \<le> n \<Longrightarrow> n < 1000 \<Longrightarrow> show_nat n = [digit_char (n div 100), digit_char (n div 10 mod 10), digit_char (n mod 10)]"
proof -
  show one: "show_nat n = [digit_char n]" if "n < 10" for n using that by (subst show_nat.simps) simp
  show two: "show_nat n = [digit_char (n div 10), digit_char (n mod 10)]" if "10 \<le> n" "n < 100" for n
  proof -
    have "n div 10 < 10" using that(2) by (intro less_mult_imp_div_less) simp
    then show ?thesis using that(1) one [of "n div 10"] by (subst show_nat.simps) simp
  qed
  show "show_nat n = [digit_char (n div 100), digit_char (n div 10 mod 10), digit_char (n mod 10)]"
    if "100 \<le> n" "n < 1000" for n
  proof -
    have "n div 10 < 100" using that(2) by (intro less_mult_imp_div_less) simp
    moreover have "10 \<le> n div 10" using that(1) div_le_mono [of 100 n 10] by simp
    moreover have "n div 10 div 10 = n div 100" by (simp add: div_mult2_eq [symmetric])
    ultimately show ?thesis using that(1) two [of "n div 10"] by (subst show_nat.simps) simp
  qed
qed

lemma read_digits_stop:
  "rest = [] \<or> to_digit r (hd rest) = None \<Longrightarrow> read_digits r rest = ([], rest)"
  by (cases rest) auto

lemma read_digits_Cons:
  "to_digit r c = Some d \<Longrightarrow> read_digits r (c # cs) = (d # fst (read_digits r cs), snd (read_digits r cs))"
  by (simp add: split_beta)

lemma read_number_show:
  assumes "n < 256" and "rest = [] \<or> to_digit 10 (hd rest) = None"
  shows "read_number 10 3 False 256 (show_nat n @ rest) = Some (n, rest)"
proof -
  note stop = read_digits_stop [OF assms(2)]
  consider "n < 10" | "10 \<le> n" "n < 100" | "100 \<le> n" "n < 1000" using assms(1) by linarith
  then show ?thesis
  proof cases
    case 1
    then show ?thesis
      by (simp add: show_nat_digits read_number_def read_digits_Cons stop digits_value_def
          del: read_digits.simps digit_char.simps)
  next
    case 2
    have "n div 10 < 10" using 2(2) by (intro less_mult_imp_div_less) simp
    then show ?thesis
      using 2 assms(1)
      by (simp add: show_nat_digits read_number_def read_digits_Cons stop digits_value_def digit_char_zero
          del: read_digits.simps digit_char.simps)
  next
    case 3
    have b: "n div 100 < 10" using 3(2) by (intro less_mult_imp_div_less) simp
    have "(n div 100 * 10 + n div 10 mod 10) * 10 + n mod 10 = n"
    proof -
      have "n div 100 = n div 10 div 10" by (simp add: div_mult2_eq [symmetric])
      then show ?thesis by simp
    qed
    moreover have "n div 100 \<noteq> 0" using 3(1) by simp
    ultimately show ?thesis
      using 3 b assms(1)
      by (simp add: show_nat_digits read_number_def read_digits_Cons stop digits_value_def digit_char_zero
          del: read_digits.simps digit_char.simps)
  qed
qed

lemma to_digit_dot [simp]: "to_digit 10 (CHR ''.'') = None"
  by (simp add: to_digit_def is_ascii_digit_def is_ascii_lowercase_def is_ascii_uppercase_def byte_def)

text \<open>A text that starts like a name is no address.\<close>

lemma to_digit_mono: "to_digit 16 c = None \<Longrightarrow> to_digit 10 c = None"
  by (auto simp: to_digit_def Let_def split: option.splits if_splits)

lemma read_number_none: "to_digit r c = None \<Longrightarrow> read_number r m z b (c # cs) = None"
  by (simp add: read_number_def)

lemma parse_ip_name:
  assumes "s = c # cs" and "to_digit 16 c = None" and "c \<noteq> CHR '':''"
  shows "parse_ip s = None"
proof -
  have v4: "read_v4_groups (Suc n) 0 s = None" for n
    using assms to_digit_mono [of c] by (simp add: read_separator_def read_number_none)
  have "read_ipv4_addr s = None"
    using v4 [of 3] by (simp add: read_ipv4_addr_def del: read_v4_groups.simps)
  moreover have "read_groups n 0 s = ([], False, s)" for n
    using assms calculation by (cases n) (simp_all add: read_separator_def read_number_none)
  ultimately show ?thesis
    using assms(1,3) by (simp add: parse_ip_def read_ip_addr_def read_ipv6_addr_def read_given_char_def)
qed

text \<open>Printed IPv4 addresses are read back: the parser reads the dotted decimal text of any four
  octets as exactly these octets.\<close>

theorem parse_show_v4: "parse_ip (show_v4 a b c d) = Some (V4 a b c d)"
proof -
  have four: "(4 :: nat) = Suc (Suc (Suc (Suc 0)))" by simp
  have "read_v4_groups 4 0 (show_v4 a b c d) = Some ([unat a, unat b, unat c, unat d], [])"
    unfolding four
    by (simp add: show_v4_def read_separator_def read_given_char_def
        read_number_show [where rest = "[]", simplified] read_number_show)
  then show ?thesis by (simp add: parse_ip_def read_ip_addr_def read_ipv4_addr_def)
qed

end
