(* ===== verification/Network_Policy.thy ===== *)
theory Network_Policy
  imports Host_Actions Ip_Addresses
begin

text \<open>
  The static network policy (\<open>ironclaw_network/src/policy.rs\<close>, \<open>url_target.rs\<close>, \<open>resolver.rs\<close>): which
  target of a request a policy allows, how a URL becomes a target, and which resolved addresses are
  kept. The URL parser (\<open>url\<close> crate) and the name service are parameters.
\<close>

section \<open>Requests, permits and denials\<close>

record network_request =
  nr_scope :: resource_scope
  nr_target :: network_target
  nr_method :: network_method
  nr_estimated_bytes :: "u64 option"

record network_permit =
  np_scope :: resource_scope
  np_target :: network_target
  np_method :: network_method
  np_estimated_bytes :: "u64 option"

datatype network_policy_error =
    TargetDenied resource_scope network_target
  | PrivateTargetDenied resource_scope network_target
  | EgressEstimateRequired resource_scope u64
  | EgressLimitExceeded resource_scope u64 u64

definition is_target_denied :: "network_policy_error \<Rightarrow> bool" where
  "is_target_denied e = (case e of TargetDenied _ _ \<Rightarrow> True | _ \<Rightarrow> False)"

definition is_private_target_denied :: "network_policy_error \<Rightarrow> bool" where
  "is_private_target_denied e = (case e of PrivateTargetDenied _ _ \<Rightarrow> True | _ \<Rightarrow> False)"

definition is_egress_limit_exceeded :: "network_policy_error \<Rightarrow> bool" where
  "is_egress_limit_exceeded e = (case e of EgressLimitExceeded _ _ _ \<Rightarrow> True | _ \<Rightarrow> False)"

definition is_egress_estimate_required :: "network_policy_error \<Rightarrow> bool" where
  "is_egress_estimate_required e = (case e of EgressEstimateRequired _ _ \<Rightarrow> True | _ \<Rightarrow> False)"

definition show_policy_error :: "network_policy_error \<Rightarrow> string" where
  "show_policy_error e =
     (case e of
        TargetDenied _ _ \<Rightarrow> ''network target is not allowed by policy''
      | PrivateTargetDenied _ _ \<Rightarrow>
          ''network target is private, loopback, link-local, documentation, or otherwise host-local''
      | EgressEstimateRequired _ limit \<Rightarrow>
          ''network egress estimate is required when limit '' @ show_nat (unat limit) @ '' is configured''
      | EgressLimitExceeded _ estimated limit \<Rightarrow>
          ''network egress estimate '' @ show_nat (unat estimated) @ '' exceeds limit ''
          @ show_nat (unat limit))"

section \<open>Matching\<close>

definition host_matches_pattern :: "string \<Rightarrow> string \<Rightarrow> bool" where
  "host_matches_pattern host0 pattern0 =
     (let host = to_ascii_lowercase host0; pattern = to_ascii_lowercase pattern0 in
      if pattern = ''*'' then True
      else (case strip_prefix ''*.'' pattern of
              Some suffix \<Rightarrow>
                (case strip_suffix (''.'' @ suffix) host of
                   None \<Rightarrow> False
                 | Some prefix \<Rightarrow> prefix \<noteq> [] \<and> \<not> contains_char (CHR ''.'') prefix)
            | None \<Rightarrow> host = pattern))"

definition target_matches_pattern :: "network_target \<Rightarrow> network_target_pattern \<Rightarrow> bool" where
  "target_matches_pattern target pattern =
     (if (case ntp_scheme pattern of Some scheme \<Rightarrow> scheme \<noteq> nt_scheme target | None \<Rightarrow> False) then False
      else if (case ntp_port pattern of Some port \<Rightarrow> Some port \<noteq> nt_port target | None \<Rightarrow> False) then False
      else host_matches_pattern (nt_host target) (ntp_host_pattern pattern))"

definition names_private_ip :: "string \<Rightarrow> bool" where
  "names_private_ip host =
     (case parse_ip host of Some ip \<Rightarrow> is_private_or_loopback_ip ip | None \<Rightarrow> False)"

definition network_policy_allows :: "network_policy \<Rightarrow> network_target \<Rightarrow> bool" where
  "network_policy_allows policy target =
     (if allowed_targets policy = [] then False
      else if deny_private_ip_ranges policy \<and> names_private_ip (nt_host target) then False
      else list_ex (target_matches_pattern target) (allowed_targets policy))"

section \<open>Authorization of one request\<close>

definition authorize_static_policy ::
  "network_policy \<Rightarrow> network_request \<Rightarrow> network_policy_error + network_permit" where
  "authorize_static_policy policy request =
     rbind
       (case max_egress_bytes policy of
          None \<Rightarrow> Ok ()
        | Some limit \<Rightarrow>
            (case nr_estimated_bytes request of
               None \<Rightarrow> Err (EgressEstimateRequired (nr_scope request) limit)
             | Some estimated \<Rightarrow>
                 if estimated > limit then Err (EgressLimitExceeded (nr_scope request) estimated limit)
                 else Ok ()))
       (\<lambda>_. if deny_private_ip_ranges policy \<and> names_private_ip (nt_host (nr_target request))
            then Err (PrivateTargetDenied (nr_scope request) (nr_target request))
            else if \<not> network_policy_allows policy (nr_target request)
            then Err (TargetDenied (nr_scope request) (nr_target request))
            else Ok \<lparr>np_scope = nr_scope request, np_target = nr_target request,
                     np_method = nr_method request, np_estimated_bytes = nr_estimated_bytes request\<rparr>)"

record static_network_policy_enforcer =
  enf_policy :: network_policy

definition enforcer_new :: "network_policy \<Rightarrow> static_network_policy_enforcer" where
  "enforcer_new policy = \<lparr>enf_policy = policy\<rparr>"

definition enforcer_authorize where
  "enforcer_authorize enf request = authorize_static_policy (enf_policy enf) request"

section \<open>Targets of URLs\<close>

text \<open>What the boundary reads of a parsed URL.\<close>

record url_view =
  url_username :: string
  url_password :: "string option"
  url_scheme :: string
  url_host_str :: "string option"
  url_port_or_known_default :: "u16 option"

type_synonym url_parser = "string \<Rightarrow> string + url_view"

datatype network_target_url_error =
    UrlParse string
  | UserinfoDenied
  | UnsupportedScheme string
  | MissingHost

definition show_url_error :: "network_target_url_error \<Rightarrow> string" where
  "show_url_error e =
     (case e of
        UrlParse s \<Rightarrow> ''invalid URL: '' @ s
      | UserinfoDenied \<Rightarrow> ''URL userinfo is not allowed''
      | UnsupportedScheme s \<Rightarrow> ''unsupported URL scheme '' @ s
      | MissingHost \<Rightarrow> ''URL host is required'')"

definition network_target_for_url :: "url_parser \<Rightarrow> string \<Rightarrow> network_target_url_error + network_target"
where
  "network_target_for_url url_parse raw =
     (case url_parse raw of
        Inl e \<Rightarrow> Err (UrlParse e)
      | Inr url \<Rightarrow>
          if url_username url \<noteq> [] \<or> url_password url \<noteq> None then Err UserinfoDenied
          else
            rbind
              (if url_scheme url = ''http'' then Ok Http
               else if url_scheme url = ''https'' then Ok Https
               else Err (UnsupportedScheme (url_scheme url)))
              (\<lambda>scheme.
                 case url_host_str url of
                   None \<Rightarrow> Err MissingHost
                 | Some host \<Rightarrow>
                     if trim host = [] then Err MissingHost
                     else Ok \<lparr>nt_scheme = scheme, nt_host = to_ascii_lowercase host,
                              nt_port = url_port_or_known_default url\<rparr>))"

definition is_rfc3986_unreserved_segment :: "string \<Rightarrow> bool" where
  "is_rfc3986_unreserved_segment segment =
     (segment \<noteq> [] \<and> segment \<noteq> ''.'' \<and> segment \<noteq> ''..''
      \<and> list_all (\<lambda>c. is_ascii_alphanumeric c \<or> c = CHR ''-'' \<or> c = CHR ''.'' \<or> c = CHR ''_'' \<or> c = CHR ''~'')
          segment)"

text \<open>\<open>decode\<close> is the lossy decoding of the \<open>percent_encoding\<close> crate.\<close>

definition percent_decode_url_component_lossy :: "(string \<Rightarrow> string) \<Rightarrow> string \<Rightarrow> string" where
  "percent_decode_url_component_lossy decode input =
     (if \<not> contains_char (CHR ''%'') input then input else decode input)"

definition default_port :: "network_scheme \<Rightarrow> u16" where
  "default_port scheme = (case scheme of Http \<Rightarrow> 80 | Https \<Rightarrow> 443)"

section \<open>Properties\<close>

lemma ascii_lower_dot [simp]: "ascii_lower c = CHR ''.'' \<longleftrightarrow> c = CHR ''.''"
proof (cases "is_ascii_uppercase c")
  case True
  then have u: "65 \<le> byte c" "byte c \<le> 90" by (simp_all add: is_ascii_uppercase_def)
  then have "byte (ascii_lower c) = byte c + 32"
    using True by (simp add: ascii_lower_def byte_def of_char_of take_bit_eq_mod)
  then show ?thesis using u by (auto simp: byte_def)
qed (simp add: ascii_lower_def)

lemma strip_suffix_Some: "strip_suffix p s = Some t \<longleftrightarrow> s = t @ p"
  by (auto simp: strip_suffix_def) (metis append_take_drop_id)

text \<open>Host patterns: the pattern \<open>*\<close> allows every host; a pattern \<open>*.\<close> followed by a suffix
  allows exactly the hosts of one non-empty label followed by a dot and the suffix, never the bare
  suffix and never two labels; any other pattern allows only itself. Case is ignored throughout.\<close>

theorem host_pattern_exact:
  "host_matches_pattern host pattern \<longleftrightarrow>
     (let h = to_ascii_lowercase host; p = to_ascii_lowercase pattern in
      p = ''*'' \<or> (p = h \<and> \<not> starts_with ''*.'' p)
      \<or> (\<exists>label suffix. p = ''*.'' @ suffix \<and> h = label @ ''.'' @ suffix \<and> label \<noteq> []
           \<and> CHR ''.'' \<notin> set label))"
proof -
  define h where "h = to_ascii_lowercase host"
  define p where "p = to_ascii_lowercase pattern"
  show ?thesis
  proof (cases "starts_with ''*.'' p")
    case True
    then obtain suffix where p: "p = ''*.'' @ suffix" by (auto simp: starts_with_iff)
    then have "strip_prefix ''*.'' p = Some suffix" by (simp only: strip_prefix_append)
    then show ?thesis
      using True p
      by (auto simp: host_matches_pattern_def Let_def h_def [symmetric] p_def [symmetric]
          contains_char_def strip_suffix_Some split: option.splits)
         (metis append_Cons append_Nil not_Some_eq strip_suffix_Some)+
  next
    case False
    then show ?thesis
      by (auto simp: host_matches_pattern_def Let_def h_def [symmetric] p_def [symmetric]
          strip_prefix_def starts_with_iff)
  qed
qed

theorem host_pattern_exact_witness:
  "host_matches_pattern ''API.example.com'' ''*.Example.com''
   \<and> \<not> host_matches_pattern ''a.b.example.com'' ''*.example.com''
   \<and> \<not> host_matches_pattern ''example.com'' ''*.example.com''"
  unfolding host_pattern_exact
  by (auto simp: to_ascii_lowercase_def ascii_lower_def is_ascii_uppercase_def byte_def Let_def char_of_def
      bit_0 Cons_eq_append_conv starts_with_def)

lemma authorize_Ok:
  "authorize_static_policy policy request = Ok permit \<longleftrightarrow>
     (\<forall>limit. max_egress_bytes policy = Some limit \<longrightarrow>
        (\<exists>n. nr_estimated_bytes request = Some n \<and> n \<le> limit))
     \<and> (deny_private_ip_ranges policy \<longrightarrow> \<not> names_private_ip (nt_host (nr_target request)))
     \<and> (\<exists>pat \<in> set (allowed_targets policy). target_matches_pattern (nr_target request) pat)
     \<and> permit = \<lparr>np_scope = nr_scope request, np_target = nr_target request,
          np_method = nr_method request, np_estimated_bytes = nr_estimated_bytes request\<rparr>"
  by (auto simp: authorize_static_policy_def rbind_eq_Inr network_policy_allows_def list_ex_iff not_less
      split: option.splits if_splits)

end
