(* ===== verification/Network_Egress.thy ===== *)
theory Network_Egress
  imports Network_Policy
begin

text \<open>
  The HTTP egress boundary (\<open>ironclaw_network\<close>: \<open>types.rs\<close>, \<open>error.rs\<close>, \<open>resolver.rs\<close>, \<open>egress.rs\<close>,
  \<open>transport.rs\<close>): from a host-mediated request to the transport request with pinned addresses, and
  the transport with its cache of clients and the bounded reading of a response. Parameters: the URL
  parser, the name service, and the HTTP client of the \<open>reqwest\<close> crate (building a client for a key,
  sending a request). A body is the list of its bytes; a \<open>Duration\<close> is its number of nanoseconds. A
  lock is never poisoned.
\<close>

section \<open>Requests, responses and errors\<close>

definition DEFAULT_RESPONSE_BODY_LIMIT :: u64 where
  "DEFAULT_RESPONSE_BODY_LIMIT = 10 * 1024 * 1024"

definition MAX_RESPONSE_BODY_LIMIT :: u64 where
  "MAX_RESPONSE_BODY_LIMIT = DEFAULT_RESPONSE_BODY_LIMIT"

record network_http_request =
  hr_scope :: resource_scope
  hr_method :: network_method
  hr_url :: string
  hr_headers :: "(string \<times> string) list"
  hr_body :: "u8 list"
  hr_policy :: network_policy
  hr_response_body_limit :: "u64 option"
  hr_timeout_ms :: "u32 option"

definition request_scrub :: "network_http_request \<Rightarrow> network_http_request" where
  "request_scrub r = r\<lparr>hr_url := [], hr_headers := map (\<lambda>(name, value). (name, [])) (hr_headers r)\<rparr>"

record network_transport_request =
  tr_method :: network_method
  tr_url :: string
  tr_headers :: "(string \<times> string) list"
  tr_body :: "u8 list"
  tr_resolved_ips :: "ip_addr list"
  tr_response_body_limit :: "u64 option"
  tr_timeout_ms :: "u32 option"

definition transport_request_scrub :: "network_transport_request \<Rightarrow> network_transport_request" where
  "transport_request_scrub r =
     r\<lparr>tr_url := [], tr_headers := map (\<lambda>(name, value). (name, [])) (tr_headers r)\<rparr>"

record network_usage =
  use_request_bytes :: u64
  use_response_bytes :: u64
  use_resolved_ip :: "ip_addr option"

record network_http_response =
  resp_status :: u16
  resp_headers :: "(string \<times> string) list"
  resp_body :: "u8 list"
  resp_usage :: network_usage

datatype network_http_error_kind =
    KindInvalidUrl | KindPolicyDenied | KindDnsFailed | KindTransportFailed
  | KindResponseBodyLimitExceeded

definition kind_as_str :: "network_http_error_kind \<Rightarrow> string" where
  "kind_as_str k =
     (case k of
        KindInvalidUrl \<Rightarrow> ''invalid_url'' | KindPolicyDenied \<Rightarrow> ''policy_denied''
      | KindDnsFailed \<Rightarrow> ''dns_failed'' | KindTransportFailed \<Rightarrow> ''transport_failed''
      | KindResponseBodyLimitExceeded \<Rightarrow> ''response_body_limit_exceeded'')"

datatype network_http_error =
    InvalidUrl (err_reason: string) (err_request_bytes: u64) (err_response_bytes: u64)
  | PolicyDeniedHttp (err_reason: string) (err_request_bytes: u64) (err_response_bytes: u64)
  | Dns (err_reason: string) (err_request_bytes: u64) (err_response_bytes: u64)
  | Transport (err_reason: string) (err_request_bytes: u64) (err_response_bytes: u64)
  | ResponseBodyLimit (err_limit: u64) (err_request_bytes: u64) (err_response_bytes: u64)
      (err_partial_response: "network_http_response option")

definition error_kind :: "network_http_error \<Rightarrow> network_http_error_kind" where
  "error_kind e =
     (case e of
        InvalidUrl _ _ _ \<Rightarrow> KindInvalidUrl
      | PolicyDeniedHttp _ _ _ \<Rightarrow> KindPolicyDenied
      | Dns _ _ _ \<Rightarrow> KindDnsFailed
      | Transport _ _ _ \<Rightarrow> KindTransportFailed
      | ResponseBodyLimit _ _ _ _ \<Rightarrow> KindResponseBodyLimitExceeded)"

definition stable_reason :: "network_http_error \<Rightarrow> string" where
  "stable_reason e = kind_as_str (error_kind e)"

definition into_partial_response :: "network_http_error \<Rightarrow> network_http_response option" where
  "into_partial_response e = (case e of ResponseBodyLimit _ _ _ p \<Rightarrow> p | _ \<Rightarrow> None)"

definition show_http_error :: "network_http_error \<Rightarrow> string" where
  "show_http_error e =
     (case e of
        InvalidUrl reason _ _ \<Rightarrow> ''invalid network URL: '' @ reason
      | PolicyDeniedHttp reason _ _ \<Rightarrow> ''network policy denied request: '' @ reason
      | Dns reason _ _ \<Rightarrow> ''network DNS resolution failed: '' @ reason
      | Transport reason _ _ \<Rightarrow> ''network transport failed: '' @ reason
      | ResponseBodyLimit limit _ _ _ \<Rightarrow>
          ''network response body exceeded limit '' @ show_nat (unat limit))"

section \<open>Byte estimates\<close>

definition len_u64 :: "nat \<Rightarrow> u64" where
  "len_u64 n = (if n < 2 ^ 64 then of_nat n else - 1)"

definition add_len :: "nat \<Rightarrow> u64 \<Rightarrow> u64" where
  "add_len n acc = sat_add acc (len_u64 n)"

definition method_label :: "network_method \<Rightarrow> string" where
  "method_label m =
     (case m of NmGet \<Rightarrow> ''GET'' | NmPost \<Rightarrow> ''POST'' | NmPut \<Rightarrow> ''PUT'' | NmPatch \<Rightarrow> ''PATCH''
      | NmDelete \<Rightarrow> ''DELETE'' | NmHead \<Rightarrow> ''HEAD'')"

definition crlf :: string where
  "crlf = [CHR 0x0D, CHR 0x0A]"

definition add_header :: "string \<times> string \<Rightarrow> u64 \<Rightarrow> u64" where
  "add_header h acc =
     add_len (length crlf) (add_len (length (snd h)) (add_len (length '': '') (add_len (length (fst h)) acc)))"

definition estimate_http_request_bytes ::
  "network_method \<Rightarrow> string \<Rightarrow> (string \<times> string) list \<Rightarrow> u8 list \<Rightarrow> u64" where
  "estimate_http_request_bytes method url headers body =
     add_len (length body)
       (add_len (length crlf)
         (fold add_header headers
           (add_len (length ('' HTTP/1.1'' @ crlf))
             (add_len (length url) (add_len (length '' '') (add_len (length (method_label method)) 0))))))"

section \<open>From a request to a transport request\<close>

definition network_target_for_http_url ::
  "url_parser \<Rightarrow> string \<Rightarrow> u64 \<Rightarrow> network_http_error + network_target" where
  "network_target_for_http_url url_parse raw request_bytes =
     map_err (\<lambda>e. InvalidUrl (show_url_error e) request_bytes 0) (network_target_for_url url_parse raw)"

type_synonym name_service = "string \<Rightarrow> u16 \<Rightarrow> network_http_error + ip_addr list"

text \<open>\<open>lookup\<close> is \<open>to_socket_addrs\<close> of the operating system: an error text, or addresses.\<close>

definition system_resolve_ips :: "(string \<Rightarrow> u16 \<Rightarrow> string + ip_addr list) \<Rightarrow> name_service" where
  "system_resolve_ips lookup host port =
     (case parse_ip host of
        Some ip \<Rightarrow> Ok [ip]
      | None \<Rightarrow> map_err (\<lambda>reason. Dns reason 0 0) (lookup host port))"

definition resolve_public_ips ::
  "network_target \<Rightarrow> network_policy \<Rightarrow> name_service \<Rightarrow> u64 \<Rightarrow> network_http_error + ip_addr list" where
  "resolve_public_ips target policy resolver request_bytes =
     rbind
       (case parse_ip (nt_host target) of
          Some ip \<Rightarrow> Ok [ip]
        | None \<Rightarrow>
            map_err (\<lambda>e. Dns (show_http_error e) request_bytes (err_response_bytes e))
              (resolver (nt_host target) (unwrap_or (nt_port target) (default_port (nt_scheme target)))))
       (\<lambda>ips.
          if ips = []
          then Err (Dns ''network target did not resolve to any IP addresses'' request_bytes 0)
          else if deny_private_ip_ranges policy \<and> list_ex is_private_or_loopback_ip ips
          then Err (PolicyDeniedHttp ''network target resolves to a private or host-local IP'' request_bytes 0)
          else Ok ips)"

definition reject_caller_host_header :: "(string \<times> string) list \<Rightarrow> network_http_error + unit" where
  "reject_caller_host_header headers =
     (if list_ex (\<lambda>(name, _). eq_ignore_ascii_case (trim name) ''host'') headers
      then Err (PolicyDeniedHttp ''caller-provided Host header is not allowed'' 0 0)
      else Ok ())"

text \<open>\<open>worker\<close> is the failure of the blocking task that resolves the name, if it fails.\<close>

definition egress_prepare ::
  "url_parser \<Rightarrow> name_service \<Rightarrow> string option \<Rightarrow> network_http_request
    \<Rightarrow> network_http_error + network_transport_request" where
  "egress_prepare url_parse resolver worker request =
     (let estimated =
            estimate_http_request_bytes (hr_method request) (hr_url request) (hr_headers request)
              (hr_body request)
      in
      rbind (reject_caller_host_header (hr_headers request)) (\<lambda>_.
      rbind (network_target_for_http_url url_parse (hr_url request) estimated) (\<lambda>target.
      rbind
        (map_err (\<lambda>e. PolicyDeniedHttp (show_policy_error e) estimated 0)
          (enforcer_authorize (enforcer_new (hr_policy request))
             \<lparr>nr_scope = hr_scope request, nr_target = target, nr_method = hr_method request,
              nr_estimated_bytes = Some estimated\<rparr>)) (\<lambda>permit.
      rbind
        (case worker of
           Some e \<Rightarrow> Err (Transport (''network resolver worker failed: '' @ e) estimated 0)
         | None \<Rightarrow> resolve_public_ips target (hr_policy request) resolver estimated) (\<lambda>ips.
      Ok \<lparr>tr_method = np_method permit, tr_url = hr_url request, tr_headers = hr_headers request,
          tr_body = hr_body request, tr_resolved_ips = ips,
          tr_response_body_limit = hr_response_body_limit request,
          tr_timeout_ms = hr_timeout_ms request\<rparr>)))))"

definition egress_execute ::
  "url_parser \<Rightarrow> name_service \<Rightarrow> string option
    \<Rightarrow> (network_transport_request \<Rightarrow> network_http_error + network_http_response) \<Rightarrow> network_http_request
    \<Rightarrow> network_http_error + network_http_response" where
  "egress_execute url_parse resolver worker transport request =
     rbind (egress_prepare url_parse resolver worker request) transport"

section \<open>The transport\<close>

definition MAX_REQWEST_CLIENT_CACHE_ENTRIES :: nat where
  "MAX_REQWEST_CLIENT_CACHE_ENTRIES = 128"

record client_key =
  ck_host :: string
  ck_port :: u16
  ck_resolved_addrs :: "(ip_addr \<times> u16) list"
  ck_timeout :: nat

type_synonym 'c client_cache = "(client_key, 'c) hmap"

text \<open>The client crate: building a client, and sending a request with it, which fails or gives the
  status, the headers (a value that is not text is nothing) and the chunks of the body, each of which
  may fail.\<close>

record http_reply =
  rep_status :: u16
  rep_headers :: "(string \<times> string option) list"
  rep_chunks :: "(string + u8 list) list"

record 'c client_ops =
  build_client :: "client_key \<Rightarrow> string + 'c"
  send_request :: "'c \<Rightarrow> network_method \<Rightarrow> url_view \<Rightarrow> (string \<times> string) list \<Rightarrow> u8 list
    \<Rightarrow> string + http_reply"

record 'c reqwest_transport =
  rt_timeout :: nat
  rt_client_cache :: "'c client_cache"

definition client_insert :: "client_key \<Rightarrow> 'c \<Rightarrow> 'c client_cache \<Rightarrow> 'c client_cache \<times> 'c" where
  "client_insert key client cache =
     (let cache1 = (if length cache \<ge> MAX_REQWEST_CLIENT_CACHE_ENTRIES then [] else cache) in
      case hget cache1 key of
        Some c \<Rightarrow> (cache1, c)
      | None \<Rightarrow> (hput key client cache1, client))"

text \<open>The cache is locked twice; \<open>others\<close> is what concurrent calls did to it in between.\<close>

definition client_for ::
  "'c client_ops \<Rightarrow> ('c client_cache \<Rightarrow> 'c client_cache) \<Rightarrow> 'c client_cache \<Rightarrow> client_key \<Rightarrow> u64
    \<Rightarrow> 'c client_cache \<times> (network_http_error + 'c)" where
  "client_for ops others cache key request_bytes =
     (case hget cache key of
        Some client \<Rightarrow> (cache, Ok client)
      | None \<Rightarrow>
          (case build_client ops key of
             Inl e \<Rightarrow> (cache, Err (Transport e request_bytes 0))
           | Inr client \<Rightarrow>
               (case client_insert key client (others cache) of (cache1, c) \<Rightarrow> (cache1, Ok c))))"

definition effective_response_body_limit :: "u64 option \<Rightarrow> u64" where
  "effective_response_body_limit requested =
     min (unwrap_or requested DEFAULT_RESPONSE_BODY_LIMIT) MAX_RESPONSE_BODY_LIMIT"

definition effective_request_timeout :: "u32 option \<Rightarrow> nat \<Rightarrow> nat" where
  "effective_request_timeout requested_ms default_timeout =
     (case requested_ms of
        Some ms \<Rightarrow> min (unat (max ms 1) * 1000000) default_timeout
      | None \<Rightarrow> default_timeout)"

text \<open>Parsing the URL takes it out of the request, also when it fails.\<close>

definition take_request_url ::
  "url_parser \<Rightarrow> network_transport_request \<Rightarrow> u64
    \<Rightarrow> network_transport_request \<times> (network_http_error + url_view)" where
  "take_request_url url_parse request request_bytes =
     (request\<lparr>tr_url := []\<rparr>,
      case url_parse (tr_url request) of
        Inl _ \<Rightarrow> Err (InvalidUrl ''URL parse error: invalid format'' request_bytes 0)
      | Inr url \<Rightarrow> Ok url)"

text \<open>The reading loop. \<open>done\<close> makes the response from a body and a number of response bytes.\<close>

fun read_body ::
  "u64 \<Rightarrow> u64 \<Rightarrow> (u8 list \<Rightarrow> u64 \<Rightarrow> network_http_response) \<Rightarrow> u8 list \<Rightarrow> (string + u8 list) list
    \<Rightarrow> network_http_error + network_http_response" where
  "read_body limit request_bytes finish body [] = Ok (finish body (of_nat (length body)))"
| "read_body limit request_bytes finish body (Inl e # chunks) =
     Err (Transport e request_bytes (of_nat (length body)))"
| "read_body limit request_bytes finish body (Inr chunk # chunks) =
     (let remaining = sat_sub limit (of_nat (length body)) in
      if of_nat (length chunk) > remaining
      then Err (ResponseBodyLimit limit request_bytes (sat_add limit 1)
             (Some (finish (body @ take (min (unat remaining) (length chunk)) chunk) (sat_add limit 1))))
      else
        (let body1 = body @ chunk; response_bytes = of_nat (length body1) :: u64 in
         if response_bytes > limit
         then Err (ResponseBodyLimit limit request_bytes response_bytes
                (Some (finish (take (unat limit) body1) response_bytes)))
         else read_body limit request_bytes finish body1 chunks))"

definition transport_execute ::
  "url_parser \<Rightarrow> 'c client_ops \<Rightarrow> ('c client_cache \<Rightarrow> 'c client_cache) \<Rightarrow> 'c reqwest_transport
    \<Rightarrow> network_transport_request
    \<Rightarrow> 'c reqwest_transport \<times> (network_http_error + network_http_response)" where
  "transport_execute url_parse ops others t request =
     (let request_bytes = of_nat (length (tr_body request)) in
      case rbind (reject_caller_host_header (tr_headers request)) (\<lambda>_.
           rbind (snd (take_request_url url_parse request request_bytes)) (\<lambda>url.
           case url_host_str url of
             None \<Rightarrow> Err (InvalidUrl ''URL host is required'' request_bytes 0)
           | Some host \<Rightarrow>
               (case url_port_or_known_default url of
                  None \<Rightarrow> Err (InvalidUrl ''URL port is required'' request_bytes 0)
                | Some port \<Rightarrow> Ok (url, host, port)))) of
        Inl e \<Rightarrow> (t, Err e)
      | Inr (url, host, port) \<Rightarrow>
          (case client_for ops others (rt_client_cache t)
                  \<lparr>ck_host = host, ck_port = port,
                   ck_resolved_addrs = map (\<lambda>ip. (ip, port)) (tr_resolved_ips request),
                   ck_timeout = effective_request_timeout (tr_timeout_ms request) (rt_timeout t)\<rparr>
                  request_bytes of
             (cache, Inl e) \<Rightarrow> (t\<lparr>rt_client_cache := cache\<rparr>, Err e)
           | (cache, Inr client) \<Rightarrow>
               (t\<lparr>rt_client_cache := cache\<rparr>,
                case send_request ops client (tr_method request) url (tr_headers request) (tr_body request) of
                  Inl e \<Rightarrow> Err (Transport e request_bytes 0)
                | Inr reply \<Rightarrow>
                    read_body (effective_response_body_limit (tr_response_body_limit request)) request_bytes
                      (\<lambda>body n. \<lparr>resp_status = rep_status reply,
                         resp_headers = List.map_filter (\<lambda>(name, value). map_option (Pair name) value)
                           (rep_headers reply),
                         resp_body = body,
                         resp_usage = \<lparr>use_request_bytes = request_bytes, use_response_bytes = n,
                           use_resolved_ip = (case tr_resolved_ips request of [] \<Rightarrow> None | ip # _ \<Rightarrow> Some ip)\<rparr>\<rparr>)
                      [] (rep_chunks reply))))"

section \<open>Byte estimates are exact up to saturation\<close>

definition request_size :: "network_method \<Rightarrow> string \<Rightarrow> (string \<times> string) list \<Rightarrow> u8 list \<Rightarrow> nat" where
  "request_size method url headers body =
     length (method_label method) + 1 + length url + 11
     + sum_list (map (\<lambda>(name, value). length name + length value + 4) headers) + 2 + length body"

definition u64_max :: nat where
  "u64_max = 2 ^ 64 - 1"

lemma min_sat: "min (min a m + n) m = min (a + n) m" for a m n :: nat
  by linarith

lemma unat_u64_max: "unat (x :: u64) \<le> u64_max"
  using unsigned_less [of x, where 'a = nat] by (simp add: u64_max_def)

lemma unat_add_len: "unat (add_len n acc) = min (unat acc + n) u64_max"
proof -
  have "unat (len_u64 n) = min n u64_max"
    by (auto simp: len_u64_def u64_max_def unat_of_nat take_bit_nat_eq_self unsigned_minus_1_eq_mask
        mask_eq_exp_minus_1)
  then show ?thesis by (simp add: add_len_def word_nat u64_max_def)
qed

lemma unat_add_header:
  "unat (add_header h acc) = min (unat acc + (length (fst h) + length (snd h) + 4)) u64_max"
  unfolding add_header_def unat_add_len min_sat by (simp add: crlf_def ac_simps)

lemma unat_fold_headers:
  "unat (fold add_header hs acc)
     = min (unat acc + sum_list (map (\<lambda>(name, value). length name + length value + 4) hs)) u64_max"
proof (induction hs arbitrary: acc)
  case Nil
  then show ?case using unat_u64_max [of acc] by simp
next
  case (Cons h hs)
  show ?case
    unfolding fold.simps o_apply Cons.IH unat_add_header min_sat
    by (cases h) (simp add: ac_simps)
qed

lemma estimate_exact:
  "unat (estimate_http_request_bytes method url headers body)
     = min (request_size method url headers body) u64_max"
  unfolding estimate_http_request_bytes_def unat_add_len unat_fold_headers min_sat
  by (simp add: request_size_def crlf_def ac_simps)

section \<open>Properties\<close>

lemma resolve_public_ips_Ok:
  assumes "resolve_public_ips target policy resolver n = Ok ips"
  shows "ips \<noteq> []" "deny_private_ip_ranges policy \<Longrightarrow> list_all (\<lambda>ip. \<not> is_private_or_loopback_ip ip) ips"
    "parse_ip (nt_host target) = Some ip \<Longrightarrow> ips = [ip]"
  using assms
  by (auto simp: resolve_public_ips_def rbind_eq_Inr list_ex_iff list_all_iff split: option.splits if_splits)

definition allowed_transport ::
  "url_parser \<Rightarrow> network_http_request \<Rightarrow> network_transport_request \<Rightarrow> bool" where
  "allowed_transport url_parse r t =
     (\<exists>target. network_target_for_url url_parse (hr_url r) = Ok target
       \<and> (\<exists>pat \<in> set (allowed_targets (hr_policy r)). target_matches_pattern target pat)
       \<and> (\<forall>limit. max_egress_bytes (hr_policy r) = Some limit \<longrightarrow>
            request_size (hr_method r) (hr_url r) (hr_headers r) (hr_body r) \<le> unat limit
            \<or> unat limit = u64_max)
       \<and> list_all (\<lambda>(name, _). \<not> eq_ignore_ascii_case (trim name) ''host'') (hr_headers r)
       \<and> tr_resolved_ips t \<noteq> []
       \<and> (deny_private_ip_ranges (hr_policy r) \<longrightarrow>
            list_all (\<lambda>ip. \<not> is_private_or_loopback_ip ip) (tr_resolved_ips t))
       \<and> (\<forall>ip. parse_ip (nt_host target) = Some ip \<longrightarrow> tr_resolved_ips t = [ip])
       \<and> t = \<lparr>tr_method = hr_method r, tr_url = hr_url r, tr_headers = hr_headers r, tr_body = hr_body r,
              tr_resolved_ips = tr_resolved_ips t,
              tr_response_body_limit = hr_response_body_limit r, tr_timeout_ms = hr_timeout_ms r\<rparr>)"

lemma egress_prepare_allowed:
  assumes "egress_prepare url_parse resolver worker r = Ok t"
  shows "allowed_transport url_parse r t"
proof -
  define n where "n = estimate_http_request_bytes (hr_method r) (hr_url r) (hr_headers r) (hr_body r)"
  obtain target permit ips where
      h: "reject_caller_host_header (hr_headers r) = Ok ()"
    and u: "network_target_for_url url_parse (hr_url r) = Ok target"
    and a: "authorize_static_policy (hr_policy r)
        \<lparr>nr_scope = hr_scope r, nr_target = target, nr_method = hr_method r, nr_estimated_bytes = Some n\<rparr>
        = Ok permit"
    and i: "resolve_public_ips target (hr_policy r) resolver n = Ok ips"
    and t: "t = \<lparr>tr_method = np_method permit, tr_url = hr_url r, tr_headers = hr_headers r, tr_body = hr_body r,
          tr_resolved_ips = ips, tr_response_body_limit = hr_response_body_limit r,
          tr_timeout_ms = hr_timeout_ms r\<rparr>"
    using assms
    by (auto simp: egress_prepare_def Let_def rbind_eq_Inr n_def network_target_for_http_url_def
        enforcer_authorize_def enforcer_new_def split: option.splits)
  have "request_size (hr_method r) (hr_url r) (hr_headers r) (hr_body r) \<le> unat limit
      \<or> unat limit = u64_max" if "max_egress_bytes (hr_policy r) = Some limit" for limit
  proof -
    have "unat n \<le> unat limit" using a that by (auto simp: authorize_Ok word_le_nat_alt)
    then show ?thesis using unat_u64_max [of limit] unfolding n_def estimate_exact by linarith
  qed
  then show ?thesis
    using h u a i t resolve_public_ips_Ok [OF i]
    unfolding allowed_transport_def
    by (intro exI [of _ target])
       (auto simp: authorize_Ok reject_caller_host_header_def list_ex_iff list_all_iff split: if_splits)
qed

text \<open>(C24) Egress is contained: whatever the transport, a request either fails before the transport is
  called, or the transport receives exactly one request, with the caller's method, URL, headers and
  body, for a target that a pattern of the policy allows, within the policy's limit of bytes, without
  a caller's Host header, and with the addresses it may connect to; with private ranges denied none
  of these addresses is private, and for a literal address they are that address alone.\<close>

theorem egress_contained:
  "(\<exists>e. \<forall>transport. egress_execute url_parse resolver worker transport r = Err e)
   \<or> (\<exists>t. (\<forall>transport. egress_execute url_parse resolver worker transport r = transport t)
        \<and> allowed_transport url_parse r t)"
proof (cases "egress_prepare url_parse resolver worker r")
  case (Inl e)
  then show ?thesis by (simp add: egress_execute_def)
next
  case (Inr t)
  then show ?thesis using egress_prepare_allowed [OF Inr] by (auto simp: egress_execute_def)
qed

definition sample_url :: url_view where
  "sample_url = \<lparr>url_username = [], url_password = None, url_scheme = ''https'',
     url_host_str = Some ''gw.example.com'', url_port_or_known_default = Some 443\<rparr>"

definition sample_http_request :: network_http_request where
  "sample_http_request =
     \<lparr>hr_scope = system_scope 1, hr_method = NmGet, hr_url = ''https://gw.example.com/'',
      hr_headers = [], hr_body = [],
      hr_policy = \<lparr>allowed_targets = [\<lparr>ntp_scheme = Some Https, ntp_host_pattern = ''*.example.com'',
          ntp_port = None\<rparr>], deny_private_ip_ranges = True, max_egress_bytes = Some 4096\<rparr>,
      hr_response_body_limit = None, hr_timeout_ms = None\<rparr>"

lemma sample_prepared:
  "is_ok (egress_prepare (\<lambda>_. Ok sample_url) (\<lambda>_ _. Ok [V4 93 184 216 34]) None sample_http_request)"
proof -
  let ?target = "\<lparr>nt_scheme = Https, nt_host = ''gw.example.com'', nt_port = Some 443\<rparr>"
  define n where "n = estimate_http_request_bytes NmGet ''https://gw.example.com/'' [] []"
  have "trim ''gw.example.com'' = ''gw.example.com''"
    by (simp add: trim_def trim_start.simps trim_end.simps white_head_def white_last_def byte_def)
  then have u: "network_target_for_url (\<lambda>_. Ok sample_url) ''https://gw.example.com/'' = Ok ?target"
    by (simp add: network_target_for_url_def sample_url_def to_ascii_lowercase_def ascii_lower_def
        is_ascii_uppercase_def byte_def)
  have ip: "parse_ip ''gw.example.com'' = None"
    by (rule parse_ip_name [of _ "CHR ''g''" "''w.example.com''"]) (simp_all add: to_digit_def is_ascii_digit_def is_ascii_lowercase_def byte_def Let_def)
  have "unat n \<le> 4096"
    unfolding n_def estimate_exact by (simp add: request_size_def method_label_def u64_max_def)
  then have "n \<le> 4096" by (simp add: word_le_nat_alt)
  moreover have "host_matches_pattern ''gw.example.com'' ''*.example.com''"
    by (simp add: host_matches_pattern_def to_ascii_lowercase_def ascii_lower_def contains_char_def
        is_ascii_uppercase_def byte_def strip_prefix_def starts_with_def strip_suffix_def Let_def)
  moreover have "\<not> is_private_or_loopback_ip (V4 93 184 216 34)"
    by (simp add: is_private_or_loopback_ip_def v4_private_or_loopback_def v4_is_private_def
        v4_is_documentation_def is_carrier_grade_nat_v4_def)
  ultimately show ?thesis
    using u ip
    by (simp add: egress_prepare_def sample_http_request_def reject_caller_host_header_def
        network_target_for_http_url_def n_def [symmetric] enforcer_authorize_def enforcer_new_def
        authorize_static_policy_def names_private_ip_def network_policy_allows_def
        target_matches_pattern_def resolve_public_ips_def not_less)
qed

theorem egress_contained_witness:
  "\<exists>t. (\<forall>transport. egress_execute (\<lambda>_. Ok sample_url) (\<lambda>_ _. Ok [V4 93 184 216 34]) None transport
         sample_http_request = transport t)
     \<and> allowed_transport (\<lambda>_. Ok sample_url) sample_http_request t"
proof -
  let ?run = "\<lambda>transport. egress_execute (\<lambda>_. Ok sample_url) (\<lambda>_ _. Ok [V4 93 184 216 34]) None transport
    sample_http_request"
  have "?run (\<lambda>_. Err (Transport x 0 0)) = Err (Transport x 0 0)" for x
    using sample_prepared by (auto simp: egress_execute_def is_ok_iff)
  note answers = this
  have "\<not> (\<exists>e. \<forall>transport. ?run transport = Err e)"
  proof
    assume "\<exists>e. \<forall>transport. ?run transport = Err e"
    then obtain e where e: "?run transport = Err e" for transport by blast
    have "Transport ''a'' 0 0 = e" using answers [of "''a''"] e by simp
    moreover have "Transport ''b'' 0 0 = e" using answers [of "''b''"] e by simp
    ultimately show False by auto
  qed
  then show ?thesis
    using egress_contained [of "\<lambda>_. Ok sample_url" "\<lambda>_ _. Ok [V4 93 184 216 34]" None sample_http_request]
    by blast
qed

text \<open>A chunk shorter than the address space has the length the code reads.\<close>

abbreviation chunk_fits :: "string + u8 list \<Rightarrow> bool" where
  "chunk_fits c \<equiv> (case c of Inl _ \<Rightarrow> True | Inr bytes \<Rightarrow> length bytes < 2 ^ 64)"

definition received :: "(string + u8 list) list \<Rightarrow> u8 list" where
  "received chunks = concat (List.map_filter (\<lambda>c. case c of Inl _ \<Rightarrow> None | Inr b \<Rightarrow> Some b) chunks)"

definition body_outcome ::
  "u64 \<Rightarrow> (u8 list \<Rightarrow> u64 \<Rightarrow> network_http_response) \<Rightarrow> u8 list \<Rightarrow> network_http_error + network_http_response
    \<Rightarrow> bool" where
  "body_outcome limit finish whole r =
     (case r of
        Inr resp \<Rightarrow> length whole \<le> unat limit \<and> resp = finish whole (of_nat (length whole))
      | Inl (ResponseBodyLimit l _ n partial) \<Rightarrow>
          l = limit \<and> unat limit < length whole \<and> n = sat_add limit 1
          \<and> partial = Some (finish (take (unat limit) whole) n)
      | Inl (Transport _ _ n) \<Rightarrow> unat n \<le> unat limit
      | _ \<Rightarrow> False)"

lemma received_simps [simp]:
  "received [] = []" "received (Inl e # cs) = received cs" "received (Inr b # cs) = b @ received cs"
  by (simp_all add: received_def List.map_filter_def)

lemma read_body_outcome:
  assumes "length body \<le> unat limit" and "list_all chunk_fits chunks"
  shows "body_outcome limit finish (body @ received chunks) (read_body limit rb finish body chunks)"
  using assms
proof (induction chunks arbitrary: body)
  case Nil
  then show ?case by (simp add: body_outcome_def)
next
  case (Cons c chunks)
  have small: "unat (of_nat (length body) :: u64) = length body" and lim: "unat limit < 2 ^ 64"
    using Cons.prems(1) unsigned_less [of limit, where 'a = nat]
    by (simp_all add: unat_of_nat take_bit_nat_eq_self)
  show ?case
  proof (cases c)
    case (Inl e)
    then show ?thesis using Cons.prems(1) small by (simp add: body_outcome_def)
  next
    case (Inr b)
    define remaining where "remaining = sat_sub limit (of_nat (length body))"
    have rem: "unat remaining = unat limit - length body"
      using small by (simp add: remaining_def word_nat)
    have blen: "unat (of_nat (length b) :: u64) = length b"
      using Cons.prems(2) Inr by (simp add: unat_of_nat take_bit_nat_eq_self)
    show ?thesis
    proof (cases "(of_nat (length b) :: u64) > remaining")
      case True
      then have more: "unat limit - length body < length b"
        using rem blen by (simp add: word_less_nat_alt)
      have "min (unat remaining) (length b) = unat limit - length body" using more rem by simp
      moreover have "take (unat limit) (body @ b @ received chunks)
          = body @ take (unat limit - length body) b"
        using Cons.prems(1) more by simp
      ultimately show ?thesis
        using True more Inr by (simp add: body_outcome_def Let_def remaining_def [symmetric])
    next
      case False
      then have less: "length b \<le> unat limit - length body"
        using rem blen by (simp add: word_less_nat_alt)
      then have fit: "length (body @ b) \<le> unat limit" using Cons.prems(1) by simp
      then have "\<not> (of_nat (length (body @ b)) :: u64) > limit"
        using lim by (simp add: word_less_nat_alt unat_of_nat take_bit_nat_eq_self del: of_nat_add)
      then show ?thesis
        using False Inr Cons.IH [OF fit] Cons.prems(2)
        by (simp add: Let_def remaining_def [symmetric])
    qed
  qed
qed



section \<open>Pinned clients\<close>

text \<open>The caches that concurrent calls can leave behind: every change is an insertion of a client that
  was built for its key.\<close>

inductive cache_reachable :: "'c client_ops \<Rightarrow> 'c client_cache \<Rightarrow> bool" for ops where
  empty: "cache_reachable ops []"
| insert: "cache_reachable ops cache \<Longrightarrow> build_client ops key = Ok client
    \<Longrightarrow> cache_reachable ops (fst (client_insert key client cache))"

definition cache_ok :: "'c client_ops \<Rightarrow> 'c client_cache \<Rightarrow> bool" where
  "cache_ok ops cache =
     (hwf cache \<and> length cache \<le> MAX_REQWEST_CLIENT_CACHE_ENTRIES
      \<and> list_all (\<lambda>(key, client). build_client ops key = Ok client) cache)"

lemma cache_ok_get: "cache_ok ops cache \<Longrightarrow> hget cache key = Some c \<Longrightarrow> build_client ops key = Ok c"
  by (auto simp: cache_ok_def list_all_iff dest: map_of_SomeD)

lemma hwf_snoc: "hwf (m @ [(k, v)]) \<longleftrightarrow> hget m k = None \<and> hwf m"
  by (auto simp: hwf_def map_of_eq_None_iff)

lemma cache_ok_insert:
  assumes "cache_ok ops cache" and "build_client ops key = Ok client"
  shows "cache_ok ops (fst (client_insert key client cache))
    \<and> build_client ops key = Ok (snd (client_insert key client cache))"
proof -
  define c1 where "c1 = (if length cache \<ge> MAX_REQWEST_CLIENT_CACHE_ENTRIES then [] else cache)"
  have ok: "cache_ok ops c1" "length c1 < MAX_REQWEST_CLIENT_CACHE_ENTRIES"
    using assms(1) by (auto simp: c1_def cache_ok_def MAX_REQWEST_CLIENT_CACHE_ENTRIES_def)
  show ?thesis
    using ok assms(2) cache_ok_get [OF ok(1), of key]
    unfolding client_insert_def c1_def [symmetric] Let_def
    by (auto simp: cache_ok_def hput_fresh hwf_snoc split: option.splits)
qed

lemma cache_reachable_ok: "cache_reachable ops cache \<Longrightarrow> cache_ok ops cache"
  by (induction rule: cache_reachable.induct) (auto simp: cache_ok_insert, simp add: cache_ok_def)

text \<open>(C26) Connections are pinned: the client cache never holds more than its limit of entries, and
  whatever other calls do to the cache meanwhile, a client that is handed out was built for exactly
  the requested key, that is for the host, port, resolved addresses and timeout of the request.\<close>

theorem client_is_pinned:
  assumes "cache_reachable ops cache" and "\<And>c. cache_reachable ops c \<Longrightarrow> cache_reachable ops (others c)"
    and "client_for ops others cache key rb = (cache', r)"
  shows "cache_reachable ops cache' \<and> length cache' \<le> MAX_REQWEST_CLIENT_CACHE_ENTRIES
    \<and> (case r of Inr client \<Rightarrow> build_client ops key = Ok client | Inl e \<Rightarrow> cache' = cache)"
proof (cases "hget cache key")
  case (Some c)
  then show ?thesis
    using assms(1,3) cache_ok_get [OF cache_reachable_ok [OF assms(1)] Some] cache_reachable_ok [OF assms(1)]
    by (auto simp: client_for_def cache_ok_def)
next
  case None
  show ?thesis
  proof (cases "build_client ops key")
    case (Inl e)
    then show ?thesis
      using None assms(1,3) cache_reachable_ok [OF assms(1)] by (auto simp: client_for_def cache_ok_def)
  next
    case (Inr client)
    have o: "cache_reachable ops (others cache)" using assms(1,2) by blast
    have "cache' = fst (client_insert key client (others cache))"
      "r = Ok (snd (client_insert key client (others cache)))"
      using None Inr assms(3) by (auto simp: client_for_def split_beta)
    moreover have "cache_reachable ops cache'" unfolding calculation by (rule cache_reachable.insert [OF o Inr])
    ultimately show ?thesis
      using cache_ok_insert [OF cache_reachable_ok [OF o] Inr] cache_reachable_ok
      by (auto simp: cache_ok_def)
  qed
qed

theorem client_is_pinned_witness:
  "let ops = \<lparr>build_client = (\<lambda>key. Ok key), send_request = (\<lambda>_ _ _ _ _. Err ''off'')\<rparr>;
       key = \<lparr>ck_host = ''example.com'', ck_port = 443, ck_resolved_addrs = [(V4 93 184 216 34, 443)],
              ck_timeout = 30\<rparr>
   in \<exists>cache. client_for ops id [] key 0 = (cache, Ok key) \<and> cache_reachable ops cache \<and> length cache \<le> 128"
proof -
  let ?ops = "\<lparr>build_client = (\<lambda>key. Ok key), send_request = (\<lambda>_ _ _ _ _. Err ''off'')\<rparr>"
  let ?key = "\<lparr>ck_host = ''example.com'', ck_port = 443, ck_resolved_addrs = [(V4 93 184 216 34, 443)],
              ck_timeout = 30\<rparr>"
  have c: "client_for ?ops id [] ?key 0 = ([(?key, ?key)], Ok ?key)"
    by (simp add: client_for_def client_insert_def MAX_REQWEST_CLIENT_CACHE_ENTRIES_def)
  show ?thesis
    using client_is_pinned [OF cache_reachable.empty _ c] c
    by (simp add: Let_def MAX_REQWEST_CLIENT_CACHE_ENTRIES_def)
qed

end
