(* ===== verification/Runtime_Events.thy ===== *)
theory Runtime_Events
  imports Host_Actions
begin

text \<open>
  Redacted runtime events (\<open>ironclaw_events/src/runtime_event.rs\<close>): the event record, its constructors,
  the sanitizers of error kinds, error summaries and hook fields, and the two wire forms. JSON text
  is not modelled: a wire form is the record the derived encoder writes and the decoder reads. Fresh
  identifiers and the time are one argument of the constructors.
\<close>

section \<open>Error kinds and hook labels\<close>

definition UNCLASSIFIED_ERROR_KIND :: string where
  "UNCLASSIFIED_ERROR_KIND = ''Unclassified''"

definition MAX_ERROR_KIND_LEN :: nat where "MAX_ERROR_KIND_LEN = 64"
definition MAX_ERROR_KIND_SEGMENT_LEN :: nat where "MAX_ERROR_KIND_SEGMENT_LEN = 24"
definition MAX_ERROR_SUMMARY_BYTES :: nat where "MAX_ERROR_SUMMARY_BYTES = 512"

definition REDACTED_ERROR_SUMMARY :: string where
  "REDACTED_ERROR_SUMMARY = ''the tool failure details were redacted''"

definition WORKSPACE_FILE_ERROR_SUMMARY :: string where
  "WORKSPACE_FILE_ERROR_SUMMARY = ''can'' @ [CHR 0x27] @ ''t access your workspace file''"

definition is_error_kind_char :: "char \<Rightarrow> bool" where
  "is_error_kind_char b = (is_ascii_lowercase b \<or> is_ascii_digit b \<or> b = CHR ''_'')"

text \<open>Splitting at every character of a predicate, empty pieces included.\<close>

fun split_by :: "(char \<Rightarrow> bool) \<Rightarrow> string \<Rightarrow> string list" where
  "split_by P [] = [[]]"
| "split_by P (c # cs) =
     (if P c then [] # split_by P cs
      else (case split_by P cs of [] \<Rightarrow> [[c]] | p # ps \<Rightarrow> (c # p) # ps))"

definition is_safe_error_kind :: "string \<Rightarrow> bool" where
  "is_safe_error_kind value =
     (if value = [] \<or> length value > MAX_ERROR_KIND_LEN then False
      else if \<not> is_ascii_lowercase (hd value) then False
      else if list_ex (\<lambda>b. \<not> is_error_kind_char b \<and> b \<noteq> CHR ''.'' \<and> b \<noteq> CHR '':'') value then False
      else list_all (\<lambda>segment. segment \<noteq> [] \<and> length segment \<le> MAX_ERROR_KIND_SEGMENT_LEN
               \<and> is_ascii_lowercase (hd segment))
             (split_by (\<lambda>c. c = CHR ''.'' \<or> c = CHR '':'') value))"

definition sanitize_error_kind :: "string \<Rightarrow> string" where
  "sanitize_error_kind value = (if is_safe_error_kind value then value else UNCLASSIFIED_ERROR_KIND)"

definition UNCLASSIFIED_HOOK_LABEL :: string where
  "UNCLASSIFIED_HOOK_LABEL = ''unclassified''"

definition MAX_HOOK_LABEL_LEN :: nat where "MAX_HOOK_LABEL_LEN = 48"
definition HOOK_ID_LEN :: nat where "HOOK_ID_LEN = 64"

definition is_safe_hook_label :: "string \<Rightarrow> bool" where
  "is_safe_hook_label value =
     (if value = [] \<or> length value > MAX_HOOK_LABEL_LEN then False
      else if \<not> is_ascii_lowercase (hd value) then False
      else list_all is_error_kind_char value)"

definition sanitize_hook_label :: "string \<Rightarrow> string" where
  "sanitize_hook_label value = (if is_safe_hook_label value then value else UNCLASSIFIED_HOOK_LABEL)"

definition is_safe_hook_id :: "string \<Rightarrow> bool" where
  "is_safe_hook_id value =
     (length value = HOOK_ID_LEN
      \<and> list_all (\<lambda>b. is_ascii_digit b \<or> (97 \<le> byte b \<and> byte b \<le> 102)) value)"

definition sanitize_hook_id :: "string \<Rightarrow> string" where
  "sanitize_hook_id value = (if is_safe_hook_id value then value else UNCLASSIFIED_HOOK_LABEL)"

section \<open>Error summaries\<close>

text \<open>Start positions of the non-overlapping occurrences of a phrase, from the left.\<close>

function match_indices :: "nat \<Rightarrow> string \<Rightarrow> string \<Rightarrow> nat list" where
  "match_indices i phrase s =
     (if s = [] \<or> phrase = [] then []
      else if starts_with phrase s
      then i # match_indices (i + length phrase) phrase (drop (length phrase) s)
      else match_indices (Suc i) phrase (tl s))"
  by pat_completeness auto
termination by (relation "measure (\<lambda>(i, phrase, s). length s)") auto

declare match_indices.simps [simp del]

definition is_phrase_boundary :: "char option \<Rightarrow> bool" where
  "is_phrase_boundary c =
     (case c of Some ch \<Rightarrow> \<not> is_ascii_alphanumeric ch \<and> ch \<noteq> CHR ''_'' | None \<Rightarrow> True)"

text \<open>The neighbouring characters are read as bytes: a byte of a longer character is a boundary, as the
  character is.\<close>

definition char_before :: "string \<Rightarrow> nat \<Rightarrow> char option" where
  "char_before value i = (if i = 0 then None else Some (value ! (i - 1)))"

definition char_at :: "string \<Rightarrow> nat \<Rightarrow> char option" where
  "char_at value i = (if i < length value then Some (value ! i) else None)"

definition contains_bounded_phrase :: "string \<Rightarrow> string \<Rightarrow> bool" where
  "contains_bounded_phrase value phrase =
     list_ex (\<lambda>start. is_phrase_boundary (char_before value start)
         \<and> is_phrase_boundary (char_at value (start + length phrase)))
       (match_indices 0 phrase value)"

definition mentions_workspace_file_context :: "string \<Rightarrow> bool" where
  "mentions_workspace_file_context lower =
     list_ex (contains_bounded_phrase lower)
       [''workspace file'', ''workspace path'', ''filesystem'', ''file not found'', ''file failed'',
        ''read_file'', ''write_file'', ''list_dir'', ''path workspace'']"

definition contains_internal_workspace_filename :: "string \<Rightarrow> bool" where
  "contains_internal_workspace_filename lower =
     list_ex (\<lambda>forbidden. contains_str forbidden lower)
       [''.system'', ''agents.md'', ''bootstrap.md'', ''heartbeat.md'', ''identity.md'', ''memory.md'',
        ''soul.md'', ''tools.md'', ''user.md'']"

definition is_common_filename_extension :: "string \<Rightarrow> bool" where
  "is_common_filename_extension extension =
     (extension \<in> set [''bash'', ''css'', ''csv'', ''env'', ''html'', ''js'', ''json'', ''jsonl'', ''lock'',
        ''log'', ''md'', ''py'', ''rs'', ''sh'', ''toml'', ''ts'', ''txt'', ''yaml'', ''yml''])"

text \<open>The part before and the part after the last dot.\<close>

definition rsplit_once_dot :: "string \<Rightarrow> (string \<times> string) option" where
  "rsplit_once_dot s =
     (if CHR ''.'' \<in> set s
      then (let extension = rev (takeWhile (\<lambda>c. c \<noteq> CHR ''.'') (rev s))
            in Some (take (length s - length extension - 1) s, extension))
      else None)"

definition is_filename_like_token :: "string \<Rightarrow> bool" where
  "is_filename_like_token token =
     (case rsplit_once_dot token of
        None \<Rightarrow> False
      | Some (stem, extension) \<Rightarrow>
          if stem = [] \<or> extension = [] \<or> length extension > 8 then False
          else if \<not> is_common_filename_extension extension then False
          else list_ex is_ascii_alphanumeric stem \<and> list_all is_ascii_alphanumeric extension)"

text \<open>Splitting at every Unicode whitespace character.\<close>

function split_white :: "string \<Rightarrow> string \<Rightarrow> string list" where
  "split_white acc s =
     (if s = [] then [rev acc]
      else if white_head s = 0 then split_white (hd s # acc) (tl s)
      else rev acc # split_white [] (drop (white_head s) s))"
  by pat_completeness auto
termination by (relation "measure (\<lambda>(acc, s). length s)") auto

declare split_white.simps [simp del]

definition token_quote :: "char \<Rightarrow> bool" where
  "token_quote c =
     (c \<in> set [CHR 0x22, CHR 0x27, CHR ''('', CHR '')'', CHR '','', CHR '':'', CHR '';'', CHR ''['',
        CHR '']'', CHR ''{'', CHR ''}''])"

definition trim_matches :: "(char \<Rightarrow> bool) \<Rightarrow> string \<Rightarrow> string" where
  "trim_matches P s = rev (dropWhile P (rev (dropWhile P s)))"

definition contains_filename_like_token :: "string \<Rightarrow> bool" where
  "contains_filename_like_token lower =
     list_ex (\<lambda>token. is_filename_like_token (trim_matches token_quote token)) (split_white [] lower)"

definition is_workspace_file_error_summary :: "string \<Rightarrow> string \<Rightarrow> bool" where
  "is_workspace_file_error_summary value lower =
     (if value = WORKSPACE_FILE_ERROR_SUMMARY then False
      else if contains_internal_workspace_filename lower then True
      else if mentions_workspace_file_context lower \<and> contains_filename_like_token lower then True
      else mentions_workspace_file_context lower
        \<and> (contains_str ''failed'' lower \<or> contains_str ''not found'' lower \<or> contains_str ''denied'' lower
           \<or> contains_str ''missing'' lower \<or> contains_str (''can'' @ [CHR 0x27] @ ''t access'') lower
           \<or> contains_str ''cannot access'' lower))"

definition is_secret_like_token :: "string \<Rightarrow> bool" where
  "is_secret_like_token token =
     (list_ex (\<lambda>prefix. starts_with prefix token)
        [''sk-'', ''sk-ant-'', ''ghp_'', ''github_pat_'', ''gho_'', ''ghu_'', ''ghs_'', ''ghr_'',
         ''glpat-'', ''gcp-'', ''ya29.'', ''aiza'']
      \<or> (length token \<ge> 16 \<and> (starts_with ''akia'' token \<or> starts_with ''asia'' token)))"

definition contains_secret_like_token :: "string \<Rightarrow> bool" where
  "contains_secret_like_token lower =
     list_ex is_secret_like_token
       (split_by (\<lambda>c. \<not> is_ascii_alphanumeric c \<and> c \<noteq> CHR ''-'' \<and> c \<noteq> CHR ''_'' \<and> c \<noteq> CHR ''.'') lower)"

definition unsafe_summary_char :: "char \<Rightarrow> bool" where
  "unsafe_summary_char c =
     (c = CHR 0x00 \<or> byte c < 32 \<or> byte c \<ge> 127
      \<or> c \<in> set [CHR ''{'', CHR ''}'', CHR ''['', CHR '']'', CHR 0x60, CHR ''<'', CHR ''>'', CHR ''/'',
          CHR 0x5C])"

definition forbidden_phrases :: "string list" where
  "forbidden_phrases =
     [''access token'', ''api key'', ''api_key'', ''apikey'', ''authorization:'', ''bearer '',
      ''password'', ''passwd'', ''provider error'', ''raw runtime'', ''secret'', ''stack trace'',
      ''traceback'']"

definition is_safe_error_summary :: "string \<Rightarrow> string \<Rightarrow> bool" where
  "is_safe_error_summary value lower =
     (if list_ex unsafe_summary_char value then False
      else if list_ex (\<lambda>forbidden. contains_str forbidden lower) forbidden_phrases then False
      else \<not> contains_secret_like_token lower)"

definition is_char_boundary :: "string \<Rightarrow> nat \<Rightarrow> bool" where
  "is_char_boundary s i =
     (i = 0 \<or> i = length s \<or> (i < length s \<and> \<not> (128 \<le> byte (s ! i) \<and> byte (s ! i) < 192)))"

fun boundary_below :: "string \<Rightarrow> nat \<Rightarrow> nat" where
  "boundary_below s 0 = 0"
| "boundary_below s (Suc n) = (if is_char_boundary s (Suc n) then Suc n else boundary_below s n)"

definition truncate_error_summary :: "string \<Rightarrow> string" where
  "truncate_error_summary value =
     (if length value \<le> MAX_ERROR_SUMMARY_BYTES then value
      else take (boundary_below value (MAX_ERROR_SUMMARY_BYTES - length ''...'')) value @ ''...'')"

definition INPUT_ENCODE_HUMAN_SUMMARY :: string where
  "INPUT_ENCODE_HUMAN_SUMMARY = ''the tool input could not be encoded''"

definition sanitize_error_summary_str :: "string \<Rightarrow> string option" where
  "sanitize_error_summary_str value =
     (let trimmed = trim value in
      if trimmed = [] then None
      else if trimmed = INPUT_ENCODE_HUMAN_SUMMARY then Some INPUT_ENCODE_HUMAN_SUMMARY
      else
        (let lower = to_ascii_lowercase trimmed in
         if is_workspace_file_error_summary trimmed lower then Some WORKSPACE_FILE_ERROR_SUMMARY
         else if \<not> is_safe_error_summary trimmed lower then Some REDACTED_ERROR_SUMMARY
         else Some (truncate_error_summary trimmed)))"


definition sanitize_error_summary :: "string \<Rightarrow> string option" where
  "sanitize_error_summary summary = sanitize_error_summary_str summary"

section \<open>Events\<close>

datatype runtime_event_kind =
    DispatchRequested | RuntimeSelected | DispatchSucceeded | DispatchFailed
  | CapabilityActivityRequested | CapabilityActivitySucceeded | CapabilityActivityFailed
  | ModelStarted | ModelCompleted | ModelFailed
  | AssistantReplyFinalized
  | LoopCompleted | LoopCancelled | LoopFailed
  | ProcessStarted | ProcessCompleted | ProcessFailed | ProcessKilled
  | HookDispatched | HookDecisionEmitted | HookFailed

text \<open>The runtime is a parameter: a kind in memory, its serialized name on the wire.\<close>

record 'r event_fields =
  ev_event_id :: uuid
  ev_timestamp :: instant
  ev_kind :: runtime_event_kind
  ev_scope :: resource_scope
  ev_parent_invocation_id :: "invocation_id option"
  ev_capability_id :: capability_id
  ev_provider :: "extension_id option"
  ev_runtime :: "'r option"
  ev_process_id :: "process_id option"
  ev_output_bytes :: "u64 option"
  ev_error_kind :: "string option"
  ev_error_summary :: "string option"
  ev_hook_id :: "string option"
  ev_hook_point :: "string option"
  ev_hook_trust_class :: "string option"
  ev_hook_decision :: "string option"
  ev_hook_failure_category :: "string option"
  ev_hook_failure_disposition :: "string option"

type_synonym runtime_event = "runtime_kind event_fields"
type_synonym runtime_event_wire = "string event_fields"

text \<open>The identifier and the instant every constructor draws.\<close>

type_synonym event_stamp = "uuid \<times> instant"

text \<open>A payload in which every optional field is absent.\<close>

definition new_metadata_only ::
    "event_stamp \<Rightarrow> runtime_event_kind \<Rightarrow> resource_scope \<Rightarrow> capability_id \<Rightarrow> runtime_event" where
  "new_metadata_only stamp kind scope capability_id =
     \<lparr> ev_event_id = fst stamp, ev_timestamp = snd stamp, ev_kind = kind, ev_scope = scope,
       ev_parent_invocation_id = None, ev_capability_id = capability_id, ev_provider = None,
       ev_runtime = None, ev_process_id = None, ev_output_bytes = None, ev_error_kind = None,
       ev_error_summary = None, ev_hook_id = None, ev_hook_point = None, ev_hook_trust_class = None,
       ev_hook_decision = None, ev_hook_failure_category = None, ev_hook_failure_disposition = None \<rparr>"

definition dispatch_requested :: "event_stamp \<Rightarrow> resource_scope \<Rightarrow> capability_id \<Rightarrow> runtime_event" where
  "dispatch_requested stamp scope cap = new_metadata_only stamp DispatchRequested scope cap"

definition runtime_selected ::
    "event_stamp \<Rightarrow> resource_scope \<Rightarrow> capability_id \<Rightarrow> extension_id \<Rightarrow> runtime_kind \<Rightarrow> runtime_event" where
  "runtime_selected stamp scope cap provider runtime =
     (new_metadata_only stamp RuntimeSelected scope cap)
       \<lparr> ev_provider := Some provider, ev_runtime := Some runtime \<rparr>"

definition dispatch_succeeded ::
    "event_stamp \<Rightarrow> resource_scope \<Rightarrow> capability_id \<Rightarrow> extension_id \<Rightarrow> runtime_kind \<Rightarrow> u64 \<Rightarrow> runtime_event" where
  "dispatch_succeeded stamp scope cap provider runtime output_bytes =
     (new_metadata_only stamp DispatchSucceeded scope cap)
       \<lparr> ev_provider := Some provider, ev_runtime := Some runtime, ev_output_bytes := Some output_bytes \<rparr>"

definition dispatch_failed ::
    "event_stamp \<Rightarrow> resource_scope \<Rightarrow> capability_id \<Rightarrow> extension_id option \<Rightarrow> runtime_kind option
      \<Rightarrow> string \<Rightarrow> runtime_event" where
  "dispatch_failed stamp scope cap provider runtime error_kind =
     (new_metadata_only stamp DispatchFailed scope cap)
       \<lparr> ev_provider := provider, ev_runtime := runtime,
         ev_error_kind := Some (sanitize_error_kind error_kind) \<rparr>"

definition model_started :: "event_stamp \<Rightarrow> resource_scope \<Rightarrow> capability_id \<Rightarrow> runtime_event" where
  "model_started stamp scope cap = new_metadata_only stamp ModelStarted scope cap"

definition model_completed :: "event_stamp \<Rightarrow> resource_scope \<Rightarrow> capability_id \<Rightarrow> runtime_event" where
  "model_completed stamp scope cap = new_metadata_only stamp ModelCompleted scope cap"

definition model_failed ::
    "event_stamp \<Rightarrow> resource_scope \<Rightarrow> capability_id \<Rightarrow> string \<Rightarrow> runtime_event" where
  "model_failed stamp scope cap error_kind =
     (new_metadata_only stamp ModelFailed scope cap)
       \<lparr> ev_error_kind := Some (sanitize_error_kind error_kind) \<rparr>"

definition assistant_reply_finalized ::
    "event_stamp \<Rightarrow> resource_scope \<Rightarrow> capability_id \<Rightarrow> runtime_event" where
  "assistant_reply_finalized stamp scope cap = new_metadata_only stamp AssistantReplyFinalized scope cap"

definition loop_completed :: "event_stamp \<Rightarrow> resource_scope \<Rightarrow> capability_id \<Rightarrow> runtime_event" where
  "loop_completed stamp scope cap = new_metadata_only stamp LoopCompleted scope cap"

definition loop_cancelled :: "event_stamp \<Rightarrow> resource_scope \<Rightarrow> capability_id \<Rightarrow> runtime_event" where
  "loop_cancelled stamp scope cap = new_metadata_only stamp LoopCancelled scope cap"

definition loop_failed ::
    "event_stamp \<Rightarrow> resource_scope \<Rightarrow> capability_id \<Rightarrow> string \<Rightarrow> runtime_event" where
  "loop_failed stamp scope cap error_kind =
     (new_metadata_only stamp LoopFailed scope cap)
       \<lparr> ev_error_kind := Some (sanitize_error_kind error_kind) \<rparr>"

definition process_started ::
    "event_stamp \<Rightarrow> resource_scope \<Rightarrow> capability_id \<Rightarrow> extension_id \<Rightarrow> runtime_kind \<Rightarrow> process_id \<Rightarrow> runtime_event" where
  "process_started stamp scope cap provider runtime pid =
     (new_metadata_only stamp ProcessStarted scope cap)
       \<lparr> ev_provider := Some provider, ev_runtime := Some runtime, ev_process_id := Some pid \<rparr>"

definition process_completed ::
    "event_stamp \<Rightarrow> resource_scope \<Rightarrow> capability_id \<Rightarrow> extension_id \<Rightarrow> runtime_kind \<Rightarrow> process_id \<Rightarrow> runtime_event" where
  "process_completed stamp scope cap provider runtime pid =
     (new_metadata_only stamp ProcessCompleted scope cap)
       \<lparr> ev_provider := Some provider, ev_runtime := Some runtime, ev_process_id := Some pid \<rparr>"

definition process_failed ::
    "event_stamp \<Rightarrow> resource_scope \<Rightarrow> capability_id \<Rightarrow> extension_id \<Rightarrow> runtime_kind \<Rightarrow> process_id
      \<Rightarrow> string \<Rightarrow> runtime_event" where
  "process_failed stamp scope cap provider runtime pid error_kind =
     (new_metadata_only stamp ProcessFailed scope cap)
       \<lparr> ev_provider := Some provider, ev_runtime := Some runtime, ev_process_id := Some pid,
         ev_error_kind := Some (sanitize_error_kind error_kind) \<rparr>"

definition process_killed ::
    "event_stamp \<Rightarrow> resource_scope \<Rightarrow> capability_id \<Rightarrow> extension_id \<Rightarrow> runtime_kind \<Rightarrow> process_id \<Rightarrow> runtime_event" where
  "process_killed stamp scope cap provider runtime pid =
     (new_metadata_only stamp ProcessKilled scope cap)
       \<lparr> ev_provider := Some provider, ev_runtime := Some runtime, ev_process_id := Some pid \<rparr>"

definition capability_activity_requested ::
    "event_stamp \<Rightarrow> resource_scope \<Rightarrow> capability_id \<Rightarrow> runtime_event" where
  "capability_activity_requested stamp scope cap =
     (dispatch_requested stamp scope cap) \<lparr> ev_kind := CapabilityActivityRequested \<rparr>"

definition capability_activity_succeeded ::
    "event_stamp \<Rightarrow> resource_scope \<Rightarrow> capability_id \<Rightarrow> extension_id \<Rightarrow> runtime_kind \<Rightarrow> u64 \<Rightarrow> runtime_event" where
  "capability_activity_succeeded stamp scope cap provider runtime output_bytes =
     (dispatch_succeeded stamp scope cap provider runtime output_bytes)
       \<lparr> ev_kind := CapabilityActivitySucceeded \<rparr>"

definition capability_activity_failed ::
    "event_stamp \<Rightarrow> resource_scope \<Rightarrow> capability_id \<Rightarrow> extension_id option \<Rightarrow> runtime_kind option
      \<Rightarrow> string \<Rightarrow> runtime_event" where
  "capability_activity_failed stamp scope cap provider runtime error_kind =
     (dispatch_failed stamp scope cap provider runtime error_kind)
       \<lparr> ev_kind := CapabilityActivityFailed \<rparr>"

definition with_error_summary :: "runtime_event \<Rightarrow> string \<Rightarrow> runtime_event" where
  "with_error_summary event summary = event \<lparr> ev_error_summary := sanitize_error_summary summary \<rparr>"

definition hook_dispatched ::
    "event_stamp \<Rightarrow> resource_scope \<Rightarrow> capability_id \<Rightarrow> string \<Rightarrow> string \<Rightarrow> string \<Rightarrow> extension_id option
      \<Rightarrow> runtime_event" where
  "hook_dispatched stamp scope cap hook_id point trust_class owning_extension =
     (new_metadata_only stamp HookDispatched scope cap)
       \<lparr> ev_provider := owning_extension, ev_hook_id := Some (sanitize_hook_id hook_id),
         ev_hook_point := Some (sanitize_hook_label point),
         ev_hook_trust_class := Some (sanitize_hook_label trust_class) \<rparr>"

definition hook_decision_emitted ::
    "event_stamp \<Rightarrow> resource_scope \<Rightarrow> capability_id \<Rightarrow> string \<Rightarrow> string \<Rightarrow> extension_id option
      \<Rightarrow> runtime_event" where
  "hook_decision_emitted stamp scope cap hook_id decision owning_extension =
     (new_metadata_only stamp HookDecisionEmitted scope cap)
       \<lparr> ev_provider := owning_extension, ev_hook_id := Some (sanitize_hook_id hook_id),
         ev_hook_decision := Some (sanitize_hook_label decision) \<rparr>"

definition hook_failed ::
    "event_stamp \<Rightarrow> resource_scope \<Rightarrow> capability_id \<Rightarrow> string \<Rightarrow> string \<Rightarrow> string \<Rightarrow> extension_id option
      \<Rightarrow> runtime_event" where
  "hook_failed stamp scope cap hook_id category disposition owning_extension =
     (new_metadata_only stamp HookFailed scope cap)
       \<lparr> ev_provider := owning_extension, ev_hook_id := Some (sanitize_hook_id hook_id),
         ev_hook_failure_category := Some (sanitize_hook_label category),
         ev_hook_failure_disposition := Some (sanitize_hook_label disposition) \<rparr>"

section \<open>Wire forms\<close>

fun runtime_kind_str :: "runtime_kind \<Rightarrow> string" where
  "runtime_kind_str RtWasm = ''wasm''"
| "runtime_kind_str RtMcp = ''mcp''"
| "runtime_kind_str RtScript = ''script''"
| "runtime_kind_str RtFirstParty = ''first_party''"
| "runtime_kind_str RtSystem = ''system''"

text \<open>The decoder of the host interface skips the two privileged variants; the trusted one has them.\<close>

definition untrusted_runtime_kind :: "string \<Rightarrow> runtime_kind option" where
  "untrusted_runtime_kind s =
     (if s = ''wasm'' then Some RtWasm else if s = ''mcp'' then Some RtMcp
      else if s = ''script'' then Some RtScript else None)"

definition trusted_runtime_kind :: "string \<Rightarrow> runtime_kind option" where
  "trusted_runtime_kind s =
     (if s = ''wasm'' then Some RtWasm else if s = ''mcp'' then Some RtMcp
      else if s = ''script'' then Some RtScript else if s = ''first_party'' then Some RtFirstParty
      else if s = ''system'' then Some RtSystem else None)"

text \<open>The redaction that every wire crossing applies, with the runtime of the copy given.\<close>

definition redacted_copy :: "'s option \<Rightarrow> 'r event_fields \<Rightarrow> 's event_fields" where
  "redacted_copy runtime e =
     \<lparr> ev_event_id = ev_event_id e, ev_timestamp = ev_timestamp e, ev_kind = ev_kind e,
       ev_scope = ev_scope e, ev_parent_invocation_id = ev_parent_invocation_id e,
       ev_capability_id = ev_capability_id e, ev_provider = ev_provider e, ev_runtime = runtime,
       ev_process_id = ev_process_id e, ev_output_bytes = ev_output_bytes e,
       ev_error_kind = map_option sanitize_error_kind (ev_error_kind e),
       ev_error_summary = Option.bind (ev_error_summary e) sanitize_error_summary_str,
       ev_hook_id = map_option sanitize_hook_id (ev_hook_id e),
       ev_hook_point = map_option sanitize_hook_label (ev_hook_point e),
       ev_hook_trust_class = map_option sanitize_hook_label (ev_hook_trust_class e),
       ev_hook_decision = map_option sanitize_hook_label (ev_hook_decision e),
       ev_hook_failure_category = map_option sanitize_hook_label (ev_hook_failure_category e),
       ev_hook_failure_disposition = map_option sanitize_hook_label (ev_hook_failure_disposition e) \<rparr>"

definition serialize_event :: "runtime_event \<Rightarrow> runtime_event_wire" where
  "serialize_event e = redacted_copy (map_option runtime_kind_str (ev_runtime e)) e"

definition decode_event ::
    "(string \<Rightarrow> runtime_kind option) \<Rightarrow> runtime_event_wire \<Rightarrow> runtime_event option" where
  "decode_event decode_runtime w =
     (case ev_runtime w of
        None \<Rightarrow> Some (redacted_copy None w)
      | Some name \<Rightarrow>
          (case decode_runtime name of
             None \<Rightarrow> None
           | Some runtime \<Rightarrow> Some (redacted_copy (Some runtime) w)))"

definition deserialize_event :: "runtime_event_wire \<Rightarrow> runtime_event option" where
  "deserialize_event w = decode_event untrusted_runtime_kind w"

definition deserialize_trusted_runtime_event :: "runtime_event_wire \<Rightarrow> runtime_event option" where
  "deserialize_trusted_runtime_event w = decode_event trusted_runtime_kind w"

section \<open>What the sanitizers guarantee\<close>

definition safe_or :: "(string \<Rightarrow> bool) \<Rightarrow> string \<Rightarrow> string option \<Rightarrow> bool" where
  "safe_or safe fallback field = (case field of None \<Rightarrow> True | Some v \<Rightarrow> safe v \<or> v = fallback)"

definition safe_summary :: "string \<Rightarrow> bool" where
  "safe_summary s =
     (s \<noteq> [] \<and> length s \<le> MAX_ERROR_SUMMARY_BYTES \<and> list_all (\<lambda>c. \<not> unsafe_summary_char c) s
      \<and> list_all (\<lambda>p. \<not> contains_str p (to_ascii_lowercase s)) forbidden_phrases)"

definition redacted :: "'r event_fields \<Rightarrow> bool" where
  "redacted e =
     (safe_or is_safe_error_kind UNCLASSIFIED_ERROR_KIND (ev_error_kind e)
      \<and> (case ev_error_summary e of None \<Rightarrow> True | Some s \<Rightarrow> safe_summary s)
      \<and> safe_or is_safe_hook_id UNCLASSIFIED_HOOK_LABEL (ev_hook_id e)
      \<and> safe_or is_safe_hook_label UNCLASSIFIED_HOOK_LABEL (ev_hook_point e)
      \<and> safe_or is_safe_hook_label UNCLASSIFIED_HOOK_LABEL (ev_hook_trust_class e)
      \<and> safe_or is_safe_hook_label UNCLASSIFIED_HOOK_LABEL (ev_hook_decision e)
      \<and> safe_or is_safe_hook_label UNCLASSIFIED_HOOK_LABEL (ev_hook_failure_category e)
      \<and> safe_or is_safe_hook_label UNCLASSIFIED_HOOK_LABEL (ev_hook_failure_disposition e))"

lemma safe_or_sanitized:
  "safe_or is_safe_error_kind UNCLASSIFIED_ERROR_KIND (map_option sanitize_error_kind x)"
  "safe_or is_safe_hook_id UNCLASSIFIED_HOOK_LABEL (map_option sanitize_hook_id x)"
  "safe_or is_safe_hook_label UNCLASSIFIED_HOOK_LABEL (map_option sanitize_hook_label x)"
  by (auto simp: safe_or_def sanitize_error_kind_def sanitize_hook_id_def sanitize_hook_label_def
      split: option.split)

lemma sanitize_safe_or:
  "safe_or is_safe_error_kind UNCLASSIFIED_ERROR_KIND x \<Longrightarrow> map_option sanitize_error_kind x = x"
  "safe_or is_safe_hook_id UNCLASSIFIED_HOOK_LABEL x \<Longrightarrow> map_option sanitize_hook_id x = x"
  "safe_or is_safe_hook_label UNCLASSIFIED_HOOK_LABEL x \<Longrightarrow> map_option sanitize_hook_label x = x"
  by (auto simp: safe_or_def sanitize_error_kind_def sanitize_hook_id_def sanitize_hook_label_def
      split: option.splits)

lemma sanitize_constants:
  "sanitize_error_summary_str INPUT_ENCODE_HUMAN_SUMMARY = Some INPUT_ENCODE_HUMAN_SUMMARY"
  "sanitize_error_summary_str WORKSPACE_FILE_ERROR_SUMMARY = Some WORKSPACE_FILE_ERROR_SUMMARY"
  "sanitize_error_summary_str REDACTED_ERROR_SUMMARY = Some REDACTED_ERROR_SUMMARY"
  by code_simp+

lemma safe_constants:
  "safe_summary INPUT_ENCODE_HUMAN_SUMMARY" "safe_summary WORKSPACE_FILE_ERROR_SUMMARY"
  "safe_summary REDACTED_ERROR_SUMMARY"
  by code_simp+

text \<open>Every outcome of the summary sanitizer.\<close>

lemma sanitize_cases:
  assumes "sanitize_error_summary_str s = Some t"
  obtains (const) "t \<in> {INPUT_ENCODE_HUMAN_SUMMARY, WORKSPACE_FILE_ERROR_SUMMARY, REDACTED_ERROR_SUMMARY}"
  | (kept) "trim s \<noteq> []" "is_safe_error_summary (trim s) (to_ascii_lowercase (trim s))"
      "t = truncate_error_summary (trim s)"
  using assms by (auto simp: sanitize_error_summary_str_def Let_def split: if_splits)

lemma safe_char_ascii: "\<not> unsafe_summary_char c \<Longrightarrow> byte c < 128"
  unfolding unsafe_summary_char_def by linarith

lemma safe_chars_ascii: "list_all (\<lambda>c. \<not> unsafe_summary_char c) s \<Longrightarrow> list_all (\<lambda>c. byte c < 128) s"
  by (simp add: list_all_iff safe_char_ascii)

lemma safe_summary_parts:
  "is_safe_error_summary v lower \<Longrightarrow> list_all (\<lambda>c. \<not> unsafe_summary_char c) v"
  "is_safe_error_summary v lower \<Longrightarrow> list_all (\<lambda>p. \<not> contains_str p lower) forbidden_phrases"
  by (auto simp: is_safe_error_summary_def list_ex_iff list_all_iff split: if_splits)

lemma boundary_below_ascii:
  "n < length s \<Longrightarrow> list_all (\<lambda>c. byte c < 128) s \<Longrightarrow> boundary_below s n = n"
  by (cases n) (auto simp: is_char_boundary_def list_all_length)

lemma truncate_ascii:
  assumes "list_all (\<lambda>c. byte c < 128) s"
  shows "truncate_error_summary s = (if length s \<le> 512 then s else take 509 s @ ''...'')"
  using assms by (simp add: truncate_error_summary_def MAX_ERROR_SUMMARY_BYTES_def boundary_below_ascii)

lemma forbidden_no_dot: "p \<in> set forbidden_phrases \<Longrightarrow> CHR ''.'' \<notin> set p \<and> p \<noteq> []"
  by (auto simp: forbidden_phrases_def)

lemma truncate_keeps_absence:
  assumes "p \<in> set forbidden_phrases" and "\<not> contains_str p (to_ascii_lowercase s)"
  shows "\<not> contains_str p (to_ascii_lowercase (take n s @ ''...''))"
proof
  assume "contains_str p (to_ascii_lowercase (take n s @ ''...''))"
  then have "contains_str p (take n (to_ascii_lowercase s) @ ''...'')"
    by (simp add: to_ascii_lowercase_def take_map ascii_lower_def is_ascii_uppercase_def byte_def)
  then have "contains_str p (take n (to_ascii_lowercase s))"
    by (rule contains_str_append) (use forbidden_no_dot [OF assms(1)] in auto)
  then show False using assms(2) contains_str_take by blast
qed

lemma sanitize_summary_safe:
  assumes "sanitize_error_summary_str s = Some t"
  shows "safe_summary t"
  using assms
proof (cases rule: sanitize_cases)
  case const
  then show ?thesis using safe_constants by auto
next
  case kept
  note chars = safe_summary_parts(1) [OF kept(2)]
  have cut: "t = (if length (trim s) \<le> 512 then trim s else take 509 (trim s) @ ''...'')"
    using kept(3) truncate_ascii [OF safe_chars_ascii [OF chars]] by simp
  have dot: "\<not> unsafe_summary_char (CHR ''.'')"
    by (simp add: unsafe_summary_char_def byte_def)
  have "list_all (\<lambda>c. \<not> unsafe_summary_char c) t"
    using chars cut dot by (auto simp: list_all_iff dest: in_set_takeD)
  moreover have "list_all (\<lambda>p. \<not> contains_str p (to_ascii_lowercase t)) forbidden_phrases"
    using safe_summary_parts(2) [OF kept(2)] cut truncate_keeps_absence
    by (auto simp: list_all_iff)
  ultimately show ?thesis
    using cut kept(1) by (auto simp: safe_summary_def MAX_ERROR_SUMMARY_BYTES_def)
qed

lemma sanitized_trimmed:
  assumes "sanitize_error_summary_str s = Some t"
  shows "trim t = t"
  using assms
proof (cases rule: sanitize_cases)
  case const
  have "trim INPUT_ENCODE_HUMAN_SUMMARY = INPUT_ENCODE_HUMAN_SUMMARY"
    "trim WORKSPACE_FILE_ERROR_SUMMARY = WORKSPACE_FILE_ERROR_SUMMARY"
    "trim REDACTED_ERROR_SUMMARY = REDACTED_ERROR_SUMMARY"
    by code_simp+
  then show ?thesis using const by auto
next
  case kept
  note ascii = safe_chars_ascii [OF safe_summary_parts(1) [OF kept(2)]]
  note vis = trim_visible [OF kept(1) ascii]
  have cut: "t = (if length (trim s) \<le> 512 then trim s else take 509 (trim s) @ ''...'')"
    using kept(3) truncate_ascii [OF ascii] by simp
  have dot: "visible (CHR ''.'')" by (simp add: visible_def byte_def)
  have "t \<noteq> []" "hd t = hd (trim s)" "visible (last t)"
    using cut kept(1) vis(2) dot by auto
  moreover have "list_all (\<lambda>c. byte c < 128) t"
    using safe_summary_parts sanitize_summary_safe [OF assms] by (simp add: safe_summary_def safe_chars_ascii)
  ultimately show ?thesis using vis(1) trim_id by metis
qed

text \<open>A second pass keeps a summary or replaces it by a constant, so that a third changes nothing.\<close>

lemma sanitize_second_pass:
  assumes "sanitize_error_summary_str s = Some t"
  shows "sanitize_error_summary_str t \<in> {Some t, Some WORKSPACE_FILE_ERROR_SUMMARY, Some REDACTED_ERROR_SUMMARY}"
proof -
  have safe: "safe_summary t" by (rule sanitize_summary_safe [OF assms])
  then have "truncate_error_summary t = t"
    by (simp add: safe_summary_def truncate_error_summary_def)
  then show ?thesis
    using safe sanitized_trimmed [OF assms]
    by (simp add: sanitize_error_summary_str_def Let_def safe_summary_def)
qed

lemma sanitize_stable:
  "Option.bind (Option.bind (sanitize_error_summary_str s) sanitize_error_summary_str)
     sanitize_error_summary_str
   = Option.bind (sanitize_error_summary_str s) sanitize_error_summary_str"
proof (cases "sanitize_error_summary_str s")
  case (Some t)
  then show ?thesis using sanitize_second_pass [OF Some] sanitize_constants by auto
qed simp

lemma redacted_copy_redacted: "redacted (redacted_copy r e)"
  using sanitize_summary_safe
  by (auto simp: redacted_def redacted_copy_def safe_or_sanitized split: option.split bind_splits)

section \<open>Wire crossings\<close>

lemma trusted_reads_written [simp]: "trusted_runtime_kind (runtime_kind_str r) = Some r"
  by (cases r) (simp_all add: trusted_runtime_kind_def)

lemma untrusted_reads_written [simp]:
  "untrusted_runtime_kind (runtime_kind_str r) = (if r = RtFirstParty \<or> r = RtSystem then None else Some r)"
  by (cases r) (simp_all add: untrusted_runtime_kind_def)

lemma untrusted_unprivileged: "untrusted_runtime_kind s = Some r \<Longrightarrow> r \<noteq> RtFirstParty \<and> r \<noteq> RtSystem"
  by (auto simp: untrusted_runtime_kind_def split: if_splits)

lemma redacted_copy_runtime [simp]: "ev_runtime (redacted_copy r e) = r"
  by (simp add: redacted_copy_def)

lemma redacted_copy_stable:
  assumes "redacted e" and "Option.bind (ev_error_summary e) sanitize_error_summary_str = ev_error_summary e"
  shows "redacted_copy (ev_runtime e) (redacted_copy r e) = e"
  using assms by (simp add: redacted_copy_def redacted_def sanitize_safe_or)

lemma redacted_copy_summary:
  "ev_error_summary (redacted_copy r e) = Option.bind (ev_error_summary e) sanitize_error_summary_str"
  by (simp add: redacted_copy_def)

lemma trusted_serialized:
  "deserialize_trusted_runtime_event (serialize_event e)
   = Some (redacted_copy (ev_runtime e) (redacted_copy (map_option runtime_kind_str (ev_runtime e)) e))"
  by (cases "ev_runtime e")
     (simp_all add: deserialize_trusted_runtime_event_def serialize_event_def decode_event_def)

lemma twice_redacted_summary:
  "Option.bind (ev_error_summary (redacted_copy r (redacted_copy q e))) sanitize_error_summary_str
   = ev_error_summary (redacted_copy r (redacted_copy q e))"
  using sanitize_stable by (cases "ev_error_summary e") (simp_all add: redacted_copy_summary)

lemma stable_roundtrip:
  assumes "redacted e" and "Option.bind (ev_error_summary e) sanitize_error_summary_str = ev_error_summary e"
  shows "deserialize_trusted_runtime_event (serialize_event e) = Some e"
    and "deserialize_event (serialize_event e)
       = (if ev_runtime e = Some RtFirstParty \<or> ev_runtime e = Some RtSystem then None else Some e)"
proof -
  show "deserialize_trusted_runtime_event (serialize_event e) = Some e"
    using redacted_copy_stable [OF assms] by (simp add: trusted_serialized)
  show "deserialize_event (serialize_event e)
      = (if ev_runtime e = Some RtFirstParty \<or> ev_runtime e = Some RtSystem then None else Some e)"
    using redacted_copy_stable [OF assms]
    by (cases "ev_runtime e") (auto simp: deserialize_event_def serialize_event_def decode_event_def)
qed

text \<open>The constructors redact what they are given; none of them sets a summary.\<close>

lemmas event_constructor_defs =
  dispatch_requested_def runtime_selected_def dispatch_succeeded_def dispatch_failed_def
  model_started_def model_completed_def model_failed_def assistant_reply_finalized_def
  loop_completed_def loop_cancelled_def loop_failed_def process_started_def process_completed_def
  process_failed_def process_killed_def capability_activity_requested_def
  capability_activity_succeeded_def capability_activity_failed_def hook_dispatched_def
  hook_decision_emitted_def hook_failed_def

lemma metadata_redacted [simp]:
  "redacted (new_metadata_only stamp kind scope cap)"
  "ev_error_summary (new_metadata_only stamp kind scope cap) = None"
  by (simp_all add: redacted_def new_metadata_only_def safe_or_def)

lemma safe_or_some [simp]:
  "safe_or is_safe_error_kind UNCLASSIFIED_ERROR_KIND (Some (sanitize_error_kind k))"
  "safe_or is_safe_hook_id UNCLASSIFIED_HOOK_LABEL (Some (sanitize_hook_id k))"
  "safe_or is_safe_hook_label UNCLASSIFIED_HOOK_LABEL (Some (sanitize_hook_label k))"
  using safe_or_sanitized [of "Some k"] by simp_all

inductive_set constructed :: "runtime_event set" where
  "dispatch_requested stamp scope cap \<in> constructed"
| "runtime_selected stamp scope cap provider runtime \<in> constructed"
| "dispatch_succeeded stamp scope cap provider runtime output_bytes \<in> constructed"
| "dispatch_failed stamp scope cap oprovider oruntime error_kind \<in> constructed"
| "model_started stamp scope cap \<in> constructed"
| "model_completed stamp scope cap \<in> constructed"
| "model_failed stamp scope cap error_kind \<in> constructed"
| "assistant_reply_finalized stamp scope cap \<in> constructed"
| "loop_completed stamp scope cap \<in> constructed"
| "loop_cancelled stamp scope cap \<in> constructed"
| "loop_failed stamp scope cap error_kind \<in> constructed"
| "process_started stamp scope cap provider runtime pid \<in> constructed"
| "process_completed stamp scope cap provider runtime pid \<in> constructed"
| "process_failed stamp scope cap provider runtime pid error_kind \<in> constructed"
| "process_killed stamp scope cap provider runtime pid \<in> constructed"
| "capability_activity_requested stamp scope cap \<in> constructed"
| "capability_activity_succeeded stamp scope cap provider runtime output_bytes \<in> constructed"
| "capability_activity_failed stamp scope cap oprovider oruntime error_kind \<in> constructed"
| "hook_dispatched stamp scope cap hook point trust owner \<in> constructed"
| "hook_decision_emitted stamp scope cap hook decision owner \<in> constructed"
| "hook_failed stamp scope cap hook category disposition owner \<in> constructed"

lemma constructed_redacted:
  "e \<in> constructed \<Longrightarrow> redacted e \<and> ev_error_summary e = None"
  by (induction rule: constructed.induct)
     (simp_all add: event_constructor_defs redacted_def new_metadata_only_def safe_or_def
        sanitize_error_kind_def sanitize_hook_id_def sanitize_hook_label_def)

text \<open>(C35) An event that a constructor of the source builds survives the durable log unchanged, and so
  does one that has been written and read once, whatever in-process code put into its fields; the
  untrusted decoder refuses exactly the events of the first-party and system runtimes.\<close>

theorem durable_event_stable:
  "\<exists>e'. deserialize_trusted_runtime_event (serialize_event e) = Some e' \<and> redacted e'
     \<and> (e \<in> constructed \<longrightarrow> e' = e)
     \<and> deserialize_trusted_runtime_event (serialize_event e') = Some e'
     \<and> deserialize_event (serialize_event e')
         = (if ev_runtime e' = Some RtFirstParty \<or> ev_runtime e' = Some RtSystem then None else Some e')"
proof -
  let ?e = "redacted_copy (ev_runtime e) (redacted_copy (map_option runtime_kind_str (ev_runtime e)) e)"
  have "e \<in> constructed \<longrightarrow> ?e = e"
    using constructed_redacted [of e]
      redacted_copy_stable [of e "map_option runtime_kind_str (ev_runtime e)"] by simp
  moreover note stable_roundtrip [OF redacted_copy_redacted twice_redacted_summary]
  ultimately show ?thesis
    using trusted_serialized [of e] redacted_copy_redacted by blast
qed

theorem durable_event_stable_witness:
  "deserialize_trusted_runtime_event (serialize_event
      (process_killed (7, 100) (system_scope 1) ''shell.run'' ''shell'' RtSystem 5))
   = Some (process_killed (7, 100) (system_scope 1) ''shell.run'' ''shell'' RtSystem 5)"
  (is "_ (_ ?e) = Some ?e")
proof -
  have "?e \<in> constructed" by (rule constructed.intros)
  then show ?thesis using durable_event_stable [of ?e] by blast
qed


definition leaky_wire :: runtime_event_wire where
  "leaky_wire = (serialize_event (model_failed (7, 100) (system_scope 1)
       ''model.call'' ''timeout''))
     \<lparr> ev_runtime := Some ''wasm'', ev_error_kind := Some ''open /etc/shadow: denied'',
       ev_error_summary := Some ''bearer abc leaked'' \<rparr>"


end
