(* ===== verification/Event_Log.thy ===== *)
theory Event_Log
  imports Runtime_Events Audit_Envelopes
begin

text \<open>
  Durable logs of runtime events and audit envelopes (\<open>ironclaw_events\<close>: \<open>cursor.rs\<close>, \<open>error.rs\<close>,
  \<open>in_memory.rs\<close>, \<open>sink.rs\<close>, \<open>jsonl.rs\<close>): streams keyed by tenant, user and agent, each with a cursor that
  counts its records, replay after a cursor through a read filter, retention, and the line-based
  replay of a JSONL file. The locks are taken for a whole operation and are not poisoned; the JSON
  decoder is a parameter.
\<close>

section \<open>Cursors, keys and filters\<close>

type_synonym event_cursor = u64

definition cursor_origin :: event_cursor where "cursor_origin = 0"

record event_stream_key =
  esk_tenant_id :: tenant_id
  esk_user_id :: user_id
  esk_agent_id :: "agent_id option"

definition stream_key_new :: "tenant_id \<Rightarrow> user_id \<Rightarrow> agent_id option \<Rightarrow> event_stream_key" where
  "stream_key_new tenant user agent =
     \<lparr> esk_tenant_id = tenant, esk_user_id = user, esk_agent_id = agent \<rparr>"

definition stream_key_from_scope :: "resource_scope \<Rightarrow> event_stream_key" where
  "stream_key_from_scope scope =
     \<lparr> esk_tenant_id = tenant_id scope, esk_user_id = user_id scope, esk_agent_id = agent_id scope \<rparr>"

definition stream_key_matches :: "event_stream_key \<Rightarrow> resource_scope \<Rightarrow> bool" where
  "stream_key_matches key scope =
     (esk_tenant_id key = tenant_id scope \<and> esk_user_id key = user_id scope
      \<and> esk_agent_id key = agent_id scope)"

record read_scope =
  rs_project_id :: "project_id option"
  rs_mission_id :: "mission_id option"
  rs_thread_id :: "thread_id option"
  rs_process_id :: "process_id option"

definition read_scope_any :: read_scope where
  "read_scope_any =
     \<lparr> rs_project_id = None, rs_mission_id = None, rs_thread_id = None, rs_process_id = None \<rparr>"

definition matches_optional :: "'a option \<Rightarrow> 'a option \<Rightarrow> bool" where
  "matches_optional want have = (case want of None \<Rightarrow> True | Some w \<Rightarrow> have = Some w)"

definition matches_event :: "read_scope \<Rightarrow> runtime_event \<Rightarrow> bool" where
  "matches_event f event =
     (matches_optional (rs_project_id f) (project_id (ev_scope event))
      \<and> matches_optional (rs_mission_id f) (mission_id (ev_scope event))
      \<and> matches_optional (rs_thread_id f) (thread_id (ev_scope event))
      \<and> matches_optional (rs_process_id f) (ev_process_id event))"

definition matches_audit :: "read_scope \<Rightarrow> audit_envelope \<Rightarrow> bool" where
  "matches_audit f record =
     (matches_optional (rs_project_id f) (env_project_id record)
      \<and> matches_optional (rs_mission_id f) (env_mission_id record)
      \<and> matches_optional (rs_thread_id f) (env_thread_id record)
      \<and> matches_optional (rs_process_id f) (env_process_id record))"

section \<open>Entries, replays and errors\<close>

record 'r event_log_entry =
  le_cursor :: event_cursor
  le_record :: 'r

record 'r event_replay =
  rp_entries :: "'r event_log_entry list"
  rp_next_cursor :: event_cursor

datatype event_error =
    EventSerialize string
  | EventSink string
  | EventDurableLog string
  | ReplayGap event_cursor event_cursor
  | InvalidReplayRequest string

section \<open>One stream\<close>

record 'r stream_state =
  ss_next_cursor :: u64
  ss_earliest_retained :: u64
  ss_entries :: "'r event_log_entry list"

definition stream_default :: "'r stream_state" where
  "stream_default = \<lparr> ss_next_cursor = 0, ss_earliest_retained = 0, ss_entries = [] \<rparr>"

text \<open>The position where a sorted sequence stops satisfying a predicate.\<close>

definition partition_point :: "('a \<Rightarrow> bool) \<Rightarrow> 'a list \<Rightarrow> nat" where
  "partition_point P xs = length (takeWhile P xs)"

definition stream_append ::
    "'r stream_state \<Rightarrow> 'r \<Rightarrow> 'r stream_state \<times> (event_error + 'r event_log_entry)" where
  "stream_append st record =
     (if ss_next_cursor st = - 1
      then (st, Err (EventDurableLog ''event cursor overflowed u64; durable log exhausted''))
      else
        (let next = ss_next_cursor st + 1;
             entry = \<lparr> le_cursor = next, le_record = record \<rparr>
         in (st \<lparr> ss_next_cursor := next, ss_entries := ss_entries st @ [entry] \<rparr>, Ok entry)))"

text \<open>The scan of the entries past the cursor: the collected entries and the last cursor looked at.\<close>

fun scan_entries ::
    "('r \<Rightarrow> bool) \<Rightarrow> nat \<Rightarrow> 'r event_log_entry list \<Rightarrow> event_cursor \<Rightarrow> 'r event_log_entry list
      \<Rightarrow> 'r event_log_entry list \<times> event_cursor" where
  "scan_entries is_match limit acc last_scanned [] = (acc, last_scanned)"
| "scan_entries is_match limit acc last_scanned (entry # rest) =
     (if \<not> is_match (le_record entry) then scan_entries is_match limit acc (le_cursor entry) rest
      else if limit \<le> length (acc @ [entry]) then (acc @ [entry], le_cursor entry)
      else scan_entries is_match limit (acc @ [entry]) (le_cursor entry) rest)"

definition stream_read_after ::
    "'r stream_state \<Rightarrow> event_cursor \<Rightarrow> nat \<Rightarrow> ('r \<Rightarrow> bool) \<Rightarrow> event_error + 'r event_replay" where
  "stream_read_after st after limit is_match =
     (if ss_next_cursor st < after then Err (ReplayGap after (ss_next_cursor st))
      else if 0 < ss_earliest_retained st \<and> after < sat_sub (ss_earliest_retained st) 1
      then Err (ReplayGap after (ss_earliest_retained st))
      else
        (let start_index = partition_point (\<lambda>entry. le_cursor entry \<le> after) (ss_entries st);
             (entries, last_scanned) = scan_entries is_match limit [] after (drop start_index (ss_entries st))
         in Ok \<lparr> rp_entries = entries,
                  rp_next_cursor = (if entries = [] then last_scanned else le_cursor (last entries)) \<rparr>))"

definition stream_truncate ::
    "'r stream_state \<Rightarrow> event_cursor \<Rightarrow> 'r stream_state \<times> (event_error + unit)" where
  "stream_truncate st cursor =
     (if cursor = 0 then (st, Ok ())
      else if ss_next_cursor st < cursor
      then (st, Err (InvalidReplayRequest (''truncation cursor '' @ show_nat (unat cursor)
              @ '' exceeds stream head '' @ show_nat (unat (ss_next_cursor st)))))
      else
        (let st' = st \<lparr> ss_entries := filter (\<lambda>entry. cursor < le_cursor entry) (ss_entries st) \<rparr>
         in (if ss_earliest_retained st \<le> cursor
             then st' \<lparr> ss_earliest_retained := cursor + 1 \<rparr> else st', Ok ())))"

section \<open>Logs of many streams\<close>

type_synonym 'r log_streams = "(event_stream_key, 'r stream_state) hmap"

definition log_append ::
    "('r \<Rightarrow> event_stream_key) \<Rightarrow> 'r log_streams \<Rightarrow> 'r
      \<Rightarrow> 'r log_streams \<times> (event_error + 'r event_log_entry)" where
  "log_append key_of streams record =
     (let key = key_of record;
          (st, reply) = stream_append (unwrap_or (hget streams key) stream_default) record
      in (hput key st streams, reply))"

definition log_truncate ::
    "'r log_streams \<Rightarrow> event_stream_key \<Rightarrow> event_cursor \<Rightarrow> 'r log_streams \<times> (event_error + unit)" where
  "log_truncate streams key cursor =
     (case hget streams key of
        None \<Rightarrow> (streams, Ok ())
      | Some st \<Rightarrow> let (st', reply) = stream_truncate st cursor in (hput key st' streams, reply))"

definition log_read ::
    "(read_scope \<Rightarrow> 'r \<Rightarrow> bool) \<Rightarrow> 'r log_streams \<Rightarrow> event_stream_key \<Rightarrow> read_scope \<Rightarrow> event_cursor option
      \<Rightarrow> nat \<Rightarrow> event_error + 'r event_replay" where
  "log_read is_match streams key f after limit =
     (if limit = 0 then Err (InvalidReplayRequest ''limit must be greater than zero'')
      else
        (let after = unwrap_or after cursor_origin in
         case hget streams key of
           Some st \<Rightarrow> stream_read_after st after limit (is_match f)
         | None \<Rightarrow>
             if 0 < after then Err (ReplayGap after cursor_origin)
             else Ok \<lparr> rp_entries = [], rp_next_cursor = after \<rparr>))"

definition event_log_append where
  "event_log_append = log_append (\<lambda>event. stream_key_from_scope (ev_scope event))"

definition event_log_truncate where
  "event_log_truncate = (log_truncate :: runtime_event log_streams \<Rightarrow> _)"

definition event_log_read where
  "event_log_read = log_read matches_event"

definition head_cursor ::
    "runtime_event log_streams \<Rightarrow> event_stream_key \<Rightarrow> event_cursor \<Rightarrow> event_error + event_cursor" where
  "head_cursor streams key after =
     (let head = (case hget streams key of Some st \<Rightarrow> ss_next_cursor st | None \<Rightarrow> 0)
      in if head < after then Err (ReplayGap after head) else Ok head)"

fun append_batch ::
    "runtime_event log_streams \<Rightarrow> runtime_event list
      \<Rightarrow> runtime_event log_streams \<times> (event_error + runtime_event event_log_entry) list" where
  "append_batch streams [] = (streams, [])"
| "append_batch streams (event # events) =
     (let (streams1, reply) = event_log_append streams event;
          (streams2, replies) = append_batch streams1 events
      in (streams2, reply # replies))"

definition audit_log_append where
  "audit_log_append =
     log_append (\<lambda>record. stream_key_new (env_tenant_id record) (env_user_id record) (env_agent_id record))"

definition audit_log_truncate where
  "audit_log_truncate = (log_truncate :: audit_envelope log_streams \<Rightarrow> _)"

definition audit_log_read where
  "audit_log_read = log_read matches_audit"

section \<open>Sinks\<close>

definition memory_sink_emit :: "runtime_event list \<Rightarrow> runtime_event \<Rightarrow> runtime_event list \<times> (event_error + unit)" where
  "memory_sink_emit events event = (events @ [event], Ok ())"

definition memory_audit_sink_emit ::
    "audit_envelope list \<Rightarrow> audit_envelope \<Rightarrow> audit_envelope list \<times> (event_error + unit)" where
  "memory_audit_sink_emit records record = (records @ [record], Ok ())"

definition durable_sink_emit ::
    "runtime_event log_streams \<Rightarrow> runtime_event \<Rightarrow> runtime_event log_streams \<times> (event_error + unit)" where
  "durable_sink_emit streams event =
     (let (streams', reply) = event_log_append streams event
      in (streams', case reply of Inl e \<Rightarrow> Inl e | Inr _ \<Rightarrow> Ok ()))"

definition durable_audit_sink_emit ::
    "audit_envelope log_streams \<Rightarrow> audit_envelope \<Rightarrow> audit_envelope log_streams \<times> (event_error + unit)" where
  "durable_audit_sink_emit streams record =
     (let (streams', reply) = audit_log_append streams record
      in (streams', case reply of Inl e \<Rightarrow> Inl e | Inr _ \<Rightarrow> Ok ()))"

section \<open>Security audit records\<close>

datatype security_boundary =
  LeakDetector | NoExposureGuard | CredentialChannel | AuthContinuation | HookDeny | McpDirectLease

fun security_boundary_str :: "security_boundary \<Rightarrow> string" where
  "security_boundary_str LeakDetector = ''leak_detector''"
| "security_boundary_str NoExposureGuard = ''no_exposure_guard''"
| "security_boundary_str CredentialChannel = ''credential_channel''"
| "security_boundary_str AuthContinuation = ''auth_continuation''"
| "security_boundary_str HookDeny = ''hook_deny''"
| "security_boundary_str McpDirectLease = ''mcp_direct_lease''"

datatype security_decision = SecBlocked | SecAllowed | SecScopeMismatch | SecReplayRejected

fun security_decision_str :: "security_decision \<Rightarrow> string" where
  "security_decision_str SecBlocked = ''blocked''"
| "security_decision_str SecAllowed = ''allowed''"
| "security_decision_str SecScopeMismatch = ''scope_mismatch''"
| "security_decision_str SecReplayRejected = ''replay_rejected''"

record security_audit_event =
  sae_boundary :: security_boundary
  sae_decision :: security_decision
  sae_capability_id :: "capability_id option"
  sae_scope :: "resource_scope option"
  sae_timestamp :: instant
  sae_code :: string

definition security_audit_event_new ::
    "instant \<Rightarrow> security_boundary \<Rightarrow> security_decision \<Rightarrow> string \<Rightarrow> security_audit_event" where
  "security_audit_event_new now boundary decision code =
     \<lparr> sae_boundary = boundary, sae_decision = decision, sae_capability_id = None, sae_scope = None,
       sae_timestamp = now, sae_code = code \<rparr>"

definition sae_with_capability_id :: "security_audit_event \<Rightarrow> capability_id \<Rightarrow> security_audit_event" where
  "sae_with_capability_id event cap = event \<lparr> sae_capability_id := Some cap \<rparr>"

definition sae_with_scope :: "security_audit_event \<Rightarrow> resource_scope \<Rightarrow> security_audit_event" where
  "sae_with_scope event scope = event \<lparr> sae_scope := Some scope \<rparr>"

definition security_sink_record ::
    "security_audit_event list \<Rightarrow> security_audit_event \<Rightarrow> security_audit_event list" where
  "security_sink_record events event = events @ [event]"

section \<open>JSONL files\<close>

text \<open>Validation of UTF-8: the width of the character at the head, or the length of the invalid
  sequence, absent when the input ends inside a character.\<close>

definition utf8_cont :: "nat \<Rightarrow> bool" where
  "utf8_cont b = (0x80 \<le> b \<and> b \<le> 0xBF)"

definition utf8_lead3 :: "nat \<Rightarrow> nat \<Rightarrow> bool" where
  "utf8_lead3 a b =
     (a = 0xE0 \<and> 0xA0 \<le> b \<and> b \<le> 0xBF \<or> 0xE1 \<le> a \<and> a \<le> 0xEC \<and> utf8_cont b
      \<or> a = 0xED \<and> 0x80 \<le> b \<and> b \<le> 0x9F \<or> 0xEE \<le> a \<and> a \<le> 0xEF \<and> utf8_cont b)"

definition utf8_lead4 :: "nat \<Rightarrow> nat \<Rightarrow> bool" where
  "utf8_lead4 a b =
     (a = 0xF0 \<and> 0x90 \<le> b \<and> b \<le> 0xBF \<or> 0xF1 \<le> a \<and> a \<le> 0xF3 \<and> utf8_cont b
      \<or> a = 0xF4 \<and> 0x80 \<le> b \<and> b \<le> 0x8F)"

fun utf8_step :: "nat list \<Rightarrow> nat option + nat" where
  "utf8_step [] = Inr 0"
| "utf8_step (a # r) =
     (if a < 0x80 then Inr 1
      else if 0xC2 \<le> a \<and> a \<le> 0xDF then
        (case r of [] \<Rightarrow> Inl None | b # _ \<Rightarrow> if utf8_cont b then Inr 2 else Inl (Some 1))
      else if 0xE0 \<le> a \<and> a \<le> 0xEF then
        (case r of [] \<Rightarrow> Inl None | b # r1 \<Rightarrow>
           if \<not> utf8_lead3 a b then Inl (Some 1)
           else (case r1 of [] \<Rightarrow> Inl None | c # _ \<Rightarrow> if utf8_cont c then Inr 3 else Inl (Some 2)))
      else if 0xF0 \<le> a \<and> a \<le> 0xF4 then
        (case r of [] \<Rightarrow> Inl None | b # r1 \<Rightarrow>
           if \<not> utf8_lead4 a b then Inl (Some 1)
           else (case r1 of [] \<Rightarrow> Inl None | c # r2 \<Rightarrow>
             if \<not> utf8_cont c then Inl (Some 2)
             else (case r2 of [] \<Rightarrow> Inl None | d # _ \<Rightarrow> if utf8_cont d then Inr 4 else Inl (Some 3))))
      else Inl (Some 1))"

lemma utf8_step_pos: "s \<noteq> [] \<Longrightarrow> utf8_step s = Inr w \<Longrightarrow> 0 < w"
  by (cases s) (auto split: if_splits list.splits)

function utf8_scan :: "nat \<Rightarrow> string \<Rightarrow> (nat \<times> nat option) option" where
  "utf8_scan i s =
     (if s = [] then None
      else (case utf8_step (map byte s) of
         Inl e \<Rightarrow> Some (i, e)
       | Inr w \<Rightarrow> utf8_scan (i + w) (drop w s)))"
  by pat_completeness auto
termination by (relation "measure (\<lambda>(i, s). length s)") (auto dest!: utf8_step_pos [rotated])

declare utf8_scan.simps [simp del]

definition utf8_error_text :: "nat \<times> nat option \<Rightarrow> string" where
  "utf8_error_text e =
     (case snd e of
        Some n \<Rightarrow> ''invalid utf-8 sequence of '' @ show_nat n @ '' bytes from index '' @ show_nat (fst e)
      | None \<Rightarrow> ''incomplete utf-8 byte sequence from index '' @ show_nat (fst e))"

definition from_utf8 :: "string \<Rightarrow> event_error + string" where
  "from_utf8 bytes =
     (case utf8_scan 0 bytes of None \<Rightarrow> Ok bytes | Some e \<Rightarrow> Err (EventSerialize (utf8_error_text e)))"

text \<open>The lines of a text: a line ends at a line feed, one carriage return before it is dropped, and
  the rest after the last line feed is a line when it is not empty.\<close>

definition strip_cr :: "string \<Rightarrow> string" where
  "strip_cr line = (if line \<noteq> [] \<and> last line = CHR 0x0D then butlast line else line)"

fun text_lines :: "string \<Rightarrow> string \<Rightarrow> string list" where
  "text_lines acc [] = (if acc = [] then [] else [acc])"
| "text_lines acc (c # cs) =
     (if c = CHR 0x0A then strip_cr acc # text_lines [] cs else text_lines (acc @ [c]) cs)"

definition record_lines :: "string \<Rightarrow> string list" where
  "record_lines text = filter (\<lambda>line. trim line \<noteq> []) (text_lines [] text)"

fun decode_lines :: "(string \<Rightarrow> string + 'r) \<Rightarrow> string list \<Rightarrow> event_error + 'r list" where
  "decode_lines from_str [] = Ok []"
| "decode_lines from_str (line # rest) =
     (case from_str line of
        Inl reason \<Rightarrow> Err (EventSerialize reason)
      | Inr record \<Rightarrow>
          (case decode_lines from_str rest of Inl e \<Rightarrow> Inl e | Inr records \<Rightarrow> Ok (record # records)))"

definition parse_jsonl :: "(string \<Rightarrow> string + 'r) \<Rightarrow> string \<Rightarrow> event_error + 'r list" where
  "parse_jsonl from_str bytes =
     (case from_utf8 bytes of
        Inl e \<Rightarrow> Inl e
      | Inr text \<Rightarrow> decode_lines from_str (record_lines text))"

fun replay_lines ::
    "(string \<Rightarrow> string + 'r) \<Rightarrow> u64 \<Rightarrow> nat \<Rightarrow> u64 \<Rightarrow> 'r event_log_entry list \<Rightarrow> string list
      \<Rightarrow> event_error + u64 \<times> 'r event_log_entry list" where
  "replay_lines from_str after limit current_cursor entries [] = Ok (current_cursor, entries)"
| "replay_lines from_str after limit current_cursor entries (line # rest) =
     (let cursor = current_cursor + 1 in
      case from_str line of
        Inl reason \<Rightarrow> Err (EventSerialize reason)
      | Inr record \<Rightarrow>
          replay_lines from_str after limit cursor
            (if after < cursor \<and> length entries < limit
             then entries @ [\<lparr> le_cursor = cursor, le_record = record \<rparr>] else entries) rest)"

definition replay_jsonl ::
    "(string \<Rightarrow> string + 'r) \<Rightarrow> string \<Rightarrow> event_cursor option \<Rightarrow> nat \<Rightarrow> event_error + 'r event_replay" where
  "replay_jsonl from_str bytes after limit =
     (if limit = 0 then Err (InvalidReplayRequest ''limit must be greater than zero'')
      else
        (let after = unwrap_or after cursor_origin in
         case from_utf8 bytes of
           Inl e \<Rightarrow> Inl e
         | Inr text \<Rightarrow>
             (case replay_lines from_str after limit 0 [] (record_lines text) of
                Inl e \<Rightarrow> Inl e
              | Inr (current_cursor, entries) \<Rightarrow>
                  if current_cursor < after then Err (ReplayGap after current_cursor)
                  else Ok \<lparr> rp_entries = entries,
                            rp_next_cursor = (if entries = [] then after else le_cursor (last entries)) \<rparr>)))"

section \<open>A stream as a history\<close>

text \<open>What a stream promises: the history of the records ever appended, the record at position \<open>i\<close> under
  cursor \<open>i\<close>, of which the first \<open>d\<close> are no longer retained.\<close>

definition log_entry :: "nat \<times> 'r \<Rightarrow> 'r event_log_entry" where
  "log_entry ir = \<lparr> le_cursor = word_of_nat (fst ir), le_record = snd ir \<rparr>"

lemma log_entry_pair: "log_entry (i, r) = \<lparr> le_cursor = word_of_nat i, le_record = r \<rparr>"
  by (simp add: log_entry_def)

definition replay_page :: "'r list \<Rightarrow> ('r \<Rightarrow> bool) \<Rightarrow> nat \<Rightarrow> nat \<Rightarrow> 'r event_replay" where
  "replay_page hs m c limit =
     (let es = take limit (filter (\<lambda>ir. m (snd ir)) (enumerate (Suc c) (drop c hs)))
      in \<lparr> rp_entries = map log_entry es,
           rp_next_cursor = word_of_nat (if es = [] then length hs else fst (last es)) \<rparr>)"

definition stream_rep :: "'r stream_state \<Rightarrow> 'r list \<Rightarrow> nat \<Rightarrow> bool" where
  "stream_rep st hs d \<longleftrightarrow>
     d \<le> length hs \<and> length hs < 2 ^ 64 \<and> Suc d < 2 ^ 64
     \<and> ss_next_cursor st = word_of_nat (length hs)
     \<and> ss_earliest_retained st = (if d = 0 then 0 else word_of_nat (Suc d))
     \<and> ss_entries st = map log_entry (enumerate (Suc d) (drop d hs))"

lemma unat_u64 [simp]: "n < 2 ^ 64 \<Longrightarrow> unat (word_of_nat n :: u64) = n"
  by (simp add: unat_of_nat)

lemma u64_eq: "n < 2 ^ 64 \<Longrightarrow> (word_of_nat n = (w :: u64)) \<longleftrightarrow> n = unat w"
  by auto

lemma dropWhile_enumerate:
  "dropWhile (\<lambda>ir. fst ir \<le> c) (enumerate (Suc d) ys) = enumerate (Suc d + (c - d)) (drop (c - d) ys)"
proof (induction ys arbitrary: d)
  case (Cons y ys)
  show ?case
  proof (cases "Suc d \<le> c")
    case True
    then obtain k where "c - d = Suc k" "c - Suc d = k" 
      by (metis Suc_diff_le diff_Suc_Suc)
    then show ?thesis using True Cons.IH [of "Suc d"] by simp
  qed simp
qed simp

lemma enumerate_Nil_iff [simp]: "enumerate n ys = [] \<longleftrightarrow> ys = []"
  using length_enumerate [of n ys] by (metis length_0_conv)

lemma last_enumerate: "ys \<noteq> [] \<Longrightarrow> fst (last (enumerate n ys)) = n + length ys - 1"
  by (cases ys rule: rev_cases) (simp_all add: enumerate_append_eq)

lemma scan_fst:
  "length acc < limit \<Longrightarrow>
   fst (scan_entries m limit acc ls es) = acc @ take (limit - length acc) (filter (\<lambda>e. m (le_record e)) es)"
proof (induction es arbitrary: acc ls)
  case (Cons e es)
  show ?case
  proof (cases "m (le_record e) \<and> Suc (length acc) < limit")
    case True
    then have "limit - length acc = Suc (limit - Suc (length acc))" by arith
    then show ?thesis using True Cons.IH [of "acc @ [e]"] by simp
  next
    case False
    then show ?thesis using Cons by (auto simp: not_less take_Cons' Suc_diff_le)
  qed
qed simp

lemma scan_snd:
  "filter (\<lambda>e. m (le_record e)) es = [] \<Longrightarrow>
   snd (scan_entries m limit acc ls es) = (if es = [] then ls else le_cursor (last es))"
  by (induction es arbitrary: ls) (auto split: if_splits)


lemma unat_minus_1_u64: "unat (- 1 :: u64) = 2 ^ 64 - 1"
  by (simp add: unsigned_minus_1_eq_mask mask_eq_exp_minus_1)

lemma stream_rep_default [simp]: "stream_rep stream_default [] 0"
  by (simp add: stream_rep_def stream_default_def)

lemma stream_append_rep:
  assumes "stream_rep st hs d"
  shows "stream_append st r
    = (if Suc (length hs) < 2 ^ 64
       then (fst (stream_append st r), Ok (log_entry (Suc (length hs), r)))
       else (st, Err (EventDurableLog ''event cursor overflowed u64; durable log exhausted'')))"
    and "Suc (length hs) < 2 ^ 64 \<Longrightarrow> stream_rep (fst (stream_append st r)) (hs @ [r]) d"
proof -
  have next_: "ss_next_cursor st = word_of_nat (length hs)" and len: "length hs < 2 ^ 64"
    using assms by (simp_all add: stream_rep_def)
  have full: "ss_next_cursor st = - 1 \<longleftrightarrow> \<not> Suc (length hs) < 2 ^ 64"
    using len unfolding next_ by (subst u64_eq) (auto simp: unat_minus_1_u64)
  have suc: "word_of_nat (length hs) + 1 = (word_of_nat (Suc (length hs)) :: u64)" by simp
  show "stream_append st r
    = (if Suc (length hs) < 2 ^ 64
       then (fst (stream_append st r), Ok (log_entry (Suc (length hs), r)))
       else (st, Err (EventDurableLog ''event cursor overflowed u64; durable log exhausted'')))"
    using full by (auto simp: stream_append_def Let_def next_ log_entry_def)
  show "stream_rep (fst (stream_append st r)) (hs @ [r]) d" if "Suc (length hs) < 2 ^ 64"
    using that assms full
    by (auto simp: stream_append_def Let_def stream_rep_def log_entry_def enumerate_append_eq add.commute)
qed


lemma filter_enumerate_tail:
  "filter (\<lambda>ir. c < fst ir) (enumerate (Suc d) ys) = enumerate (Suc d + (c - d)) (drop (c - d) ys)"
proof (induction ys arbitrary: d)
  case (Cons y ys)
  show ?case
  proof (cases "Suc d \<le> c")
    case True
    then have "c - d = Suc (c - Suc d)" by simp
    then show ?thesis using True Cons.IH [of "Suc d"] by simp
  next
    case False
    then show ?thesis using Cons.IH [of "Suc d"] by simp
  qed
qed simp

lemma entry_cursor_bounds:
  assumes "ir \<in> set (enumerate (Suc d) (drop d hs))" and "length hs < 2 ^ 64"
  shows "fst ir < 2 ^ 64" and "unat (le_cursor (log_entry ir)) = fst ir"
proof -
  show "fst ir < 2 ^ 64"
    using assms by (auto simp: in_set_enumerate_eq less_diff_conv)
  then show "unat (le_cursor (log_entry ir)) = fst ir" by (simp add: log_entry_def)
qed

lemma stream_rep_unat:
  assumes "stream_rep st hs d"
  shows "unat (ss_next_cursor st) = length hs"
    and "unat (ss_earliest_retained st) = (if d = 0 then 0 else Suc d)"
    and "ir \<in> set (enumerate (Suc d) (drop d hs)) \<Longrightarrow> unat (le_cursor (log_entry ir)) = fst ir"
  using assms entry_cursor_bounds [of ir d hs]
  by (auto simp: stream_rep_def simp del: of_nat_Suc)

lemma stream_truncate_rep:
  assumes rep: "stream_rep st hs d" and small: "unat c < 2 ^ 64 - 1"
  shows "stream_rep (fst (stream_truncate st c)) hs (if unat c \<le> length hs then max d (unat c) else d)"
proof -
  note r = rep [unfolded stream_rep_def]
  have over: "ss_next_cursor st < c \<longleftrightarrow> length hs < unat c"
    using stream_rep_unat(1) [OF rep] by (simp add: word_less_nat_alt)
  have kept: "filter (\<lambda>e. c < le_cursor e) (ss_entries st)
      = map log_entry (enumerate (Suc (max d (unat c))) (drop (max d (unat c)) hs))"
  proof -
    have "filter (\<lambda>e. c < le_cursor e) (ss_entries st)
        = map log_entry (filter (\<lambda>ir. unat c < fst ir) (enumerate (Suc d) (drop d hs)))"
      using r stream_rep_unat(3) [OF rep]
      by (simp add: filter_map o_def word_less_nat_alt cong: filter_cong)
    also have "\<dots> = map log_entry (enumerate (Suc d + (unat c - d)) (drop (unat c - d + d) hs))"
      by (simp add: filter_enumerate_tail)
    also have "\<dots> = map log_entry (enumerate (Suc (max d (unat c))) (drop (max d (unat c)) hs))"
      by (simp add: max_def)
    finally show ?thesis .
  qed
  have early: "ss_earliest_retained st \<le> c \<longleftrightarrow> d = 0 \<or> d < unat c"
    using stream_rep_unat(2) [OF rep] by (auto simp: word_le_nat_alt)
  have suc: "c + 1 = word_of_nat (Suc (unat c))" by simp
  show ?thesis
  proof (cases "c = 0 \<or> length hs < unat c")
    case True
    then show ?thesis using rep over by (auto simp: stream_truncate_def)
  next
    case False
    then have "0 < unat c" by (auto simp: unat_gt_0)
    then show ?thesis
      using False r over kept early suc small
      by (auto simp: stream_truncate_def Let_def stream_rep_def max_def simp del: of_nat_Suc)
  qed
qed

lemma stream_read_rep:
  assumes rep: "stream_rep st hs d" and limit: "0 < limit"
  shows "stream_read_after st c limit m
    = (if length hs < unat c then Err (ReplayGap c (word_of_nat (length hs)))
       else if unat c < d then Err (ReplayGap c (word_of_nat (Suc d)))
       else Ok (replay_page hs m (unat c) limit))"
proof -
  note r = rep [unfolded stream_rep_def]
  have over: "ss_next_cursor st < c \<longleftrightarrow> length hs < unat c"
    using stream_rep_unat(1) [OF rep] by (simp add: word_less_nat_alt)
  have early: "(0 < ss_earliest_retained st \<and> c < sat_sub (ss_earliest_retained st) 1) \<longleftrightarrow> unat c < d"
    using stream_rep_unat(2) [OF rep] by (auto simp: word_less_nat_alt unat_sat_sub)
  show ?thesis
  proof (cases "length hs < unat c \<or> unat c < d")
    case True
    then show ?thesis using over early r by (auto simp: stream_read_after_def simp del: of_nat_Suc)
  next
    case False
    let ?P = "\<lambda>e. le_cursor e \<le> c"
    let ?es = "enumerate (Suc (unat c)) (drop (unat c) hs)"
    have "drop (partition_point ?P (ss_entries st)) (ss_entries st) = dropWhile ?P (ss_entries st)"
      by (simp add: partition_point_def dropWhile_eq_drop)
    also have "\<dots> = map log_entry (dropWhile (\<lambda>ir. fst ir \<le> unat c) (enumerate (Suc d) (drop d hs)))"
      using r stream_rep_unat(3) [OF rep]
      by (simp add: dropWhile_map o_def word_le_nat_alt cong: dropWhile_cong)
    also have "\<dots> = map log_entry ?es"
      using False by (simp add: dropWhile_enumerate)
    finally have rest: "drop (partition_point ?P (ss_entries st)) (ss_entries st) = map log_entry ?es" .
    let ?hits = "filter (\<lambda>ir. m (snd ir)) ?es"
    let ?scan = "scan_entries m limit [] c (map log_entry ?es)"
    have hits: "filter (\<lambda>e. m (le_record e)) (map log_entry ?es) = map log_entry ?hits"
      by (simp add: filter_map o_def log_entry_def)
    have fst: "fst ?scan = map log_entry (take limit ?hits)"
      using limit by (simp add: scan_fst hits take_map)
    have snd: "snd ?scan = word_of_nat (length hs)" if "take limit ?hits = []"
    proof -
      have "filter (\<lambda>e. m (le_record e)) (map log_entry ?es) = []" using that limit hits by simp
      then have "snd ?scan = (if ?es = [] then c else le_cursor (log_entry (last ?es)))"
        by (simp add: scan_snd last_map)
      also have "\<dots> = word_of_nat (length hs)"
      proof (cases "length hs = unat c")
        case True
        then show ?thesis by simp
      next
        case less: False
        then show ?thesis using False by (simp add: log_entry_def last_enumerate)
      qed
      finally show ?thesis .
    qed
    have "(if fst ?scan = [] then snd ?scan else le_cursor (last (fst ?scan)))
        = word_of_nat (if take limit ?hits = [] then length hs else fst (last (take limit ?hits)))"
      using fst snd by (auto simp: last_map log_entry_def)
    then show ?thesis
      using False over early rest fst
      by (auto simp: stream_read_after_def Let_def split_def replay_page_def)
  qed
qed


section \<open>Consumers\<close>

text \<open>A consumer of one stream polls from its cursor and goes on from the cursor it is handed, while
  others append and the retention policy truncates.\<close>

datatype 'r log_call = LogAppend 'r | LogTruncate event_stream_key event_cursor | LogPoll nat

fun consumer_step ::
    "('l \<Rightarrow> 'r \<Rightarrow> 'l \<times> (event_error + 'r event_log_entry))
      \<Rightarrow> ('l \<Rightarrow> event_stream_key \<Rightarrow> event_cursor \<Rightarrow> 'l \<times> (event_error + unit))
      \<Rightarrow> ('l \<Rightarrow> event_stream_key \<Rightarrow> read_scope \<Rightarrow> event_cursor option \<Rightarrow> nat \<Rightarrow> event_error + 'r event_replay)
      \<Rightarrow> event_stream_key \<Rightarrow> read_scope \<Rightarrow> 'l \<times> event_cursor \<times> 'r event_log_entry list \<Rightarrow> 'r log_call
      \<Rightarrow> 'l \<times> event_cursor \<times> 'r event_log_entry list" where
  "consumer_step app trunc rd k f (l, c, out) (LogAppend r) = (fst (app l r), c, out)"
| "consumer_step app trunc rd k f (l, c, out) (LogTruncate k' b) = (fst (trunc l k' b), c, out)"
| "consumer_step app trunc rd k f (l, c, out) (LogPoll limit) =
     (case rd l k f (Some c) limit of
        Inl _ \<Rightarrow> (l, c, out)
      | Inr page \<Rightarrow> (l, rp_next_cursor page, out @ rp_entries page))"

fun appended :: "'r log_call list \<Rightarrow> 'r list" where
  "appended [] = []"
| "appended (LogAppend r # calls) = r # appended calls"
| "appended (_ # calls) = appended calls"

lemma appended_append [simp]: "appended (xs @ ys) = appended xs @ appended ys"
  by (induction xs rule: appended.induct) auto

lemma length_appended: "length (appended calls) \<le> length calls"
  by (induction calls rule: appended.induct) auto

lemma take_filter_enumerate:
  assumes "es = take limit (filter m (enumerate (Suc c) ys))" and "es \<noteq> []"
  shows "c < fst (last es) \<and> fst (last es) \<le> c + length ys
    \<and> filter m (take (fst (last es) - c) (enumerate (Suc c) ys)) = es"
  using assms
proof (induction ys arbitrary: c limit es)
  case (Cons y ys)
  let ?l = "if m (Suc c, y) then limit - 1 else limit"
  let ?rest = "take ?l (filter m (enumerate (Suc (Suc c)) ys))"
  have es: "es = (if m (Suc c, y) then [(Suc c, y)] else []) @ ?rest"
    using Cons.prems by (cases limit) auto
  show ?case
  proof (cases "?rest = []")
    case True
    then show ?thesis using es Cons.prems(2) by (auto split: if_splits)
  next
    case False
    note ih = Cons.IH [OF refl this]
    have "fst (last es) - c = Suc (fst (last ?rest) - Suc c)" "last es = last ?rest"
      using ih es False by (auto split: if_splits)
    then show ?thesis using ih es by (auto split: if_splits)
  qed
qed simp

text \<open>The consumer's side of a page: what was delivered up to a cursor, and the page, are together
  what is delivered up to the next cursor.\<close>

definition delivered :: "'r list \<Rightarrow> ('r \<Rightarrow> bool) \<Rightarrow> nat \<Rightarrow> (nat \<times> 'r) list" where
  "delivered hs m c = filter (\<lambda>ir. m (snd ir)) (take c (enumerate 1 hs))"

lemma enumerate_split: "c \<le> length hs \<Longrightarrow>
  enumerate 1 hs = take c (enumerate 1 hs) @ enumerate (Suc c) (drop c hs)"
proof -
  assume c: "c \<le> length hs"
  have "enumerate 1 hs = enumerate 1 (take c hs) @ enumerate (Suc c) (drop c hs)"
    using c enumerate_append_eq [of 1 "take c hs" "drop c hs"] by simp
  moreover from this have "take c (enumerate 1 hs) = enumerate 1 (take c hs)" using c by simp
  ultimately show ?thesis by metis
qed

lemma replay_page_extends:
  assumes "c \<le> length hs" and "0 < limit" and "length hs < 2 ^ 64"
  shows "unat (rp_next_cursor (replay_page hs m c limit)) \<le> length hs"
    and "map log_entry (delivered hs m c) @ rp_entries (replay_page hs m c limit)
      = map log_entry (delivered hs m (unat (rp_next_cursor (replay_page hs m c limit))))"
    and "length (rp_entries (replay_page hs m c limit)) < limit \<Longrightarrow>
      delivered hs m (unat (rp_next_cursor (replay_page hs m c limit))) = delivered hs m (length hs)"
proof -
  let ?rest = "enumerate (Suc c) (drop c hs)"
  let ?hits = "filter (\<lambda>ir. m (snd ir)) ?rest"
  let ?es = "take limit ?hits"
  let ?n = "if ?es = [] then length hs else fst (last ?es)"
  have split: "delivered hs m (c + k) = delivered hs m c @ filter (\<lambda>ir. m (snd ir)) (take k ?rest)" for k
  proof -
    have "take (c + k) (enumerate 1 hs) = take c (enumerate 1 hs) @ take k ?rest"
      using assms(1) by (subst (1) enumerate_split [OF assms(1)]) simp
    then show ?thesis by (simp add: delivered_def)
  qed
  have all: "delivered hs m (length hs) = delivered hs m c @ ?hits"
    using split [of "length hs - c"] assms(1) by simp
  have n: "?n \<le> length hs \<and> delivered hs m ?n = delivered hs m c @ ?es"
  proof (cases "?es = []")
    case True
    then show ?thesis using all assms(2) by simp
  next
    case False
    define i where "i = fst (last ?es)"
    have t: "c < i" "i \<le> c + length (drop c hs)" "filter (\<lambda>ir. m (snd ir)) (take (i - c) ?rest) = ?es"
      using take_filter_enumerate [OF refl False] unfolding i_def by blast+
    have "delivered hs m i = delivered hs m c @ ?es"
      using split [of "i - c"] t(1,3) by simp
    moreover have "?n = i" using False by (simp add: i_def)
    ultimately show ?thesis using t(2) assms(1) by simp
  qed
  have next_: "unat (rp_next_cursor (replay_page hs m c limit)) = ?n"
    using n assms(3) by (simp add: replay_page_def Let_def)
  show "unat (rp_next_cursor (replay_page hs m c limit)) \<le> length hs" using n next_ by simp
  show "map log_entry (delivered hs m c) @ rp_entries (replay_page hs m c limit)
      = map log_entry (delivered hs m (unat (rp_next_cursor (replay_page hs m c limit))))"
    using n unfolding next_ by (simp add: replay_page_def Let_def)
  show "delivered hs m (unat (rp_next_cursor (replay_page hs m c limit))) = delivered hs m (length hs)"
    if "length (rp_entries (replay_page hs m c limit)) < limit"
  proof -
    have "?es = ?hits" using that by (simp add: replay_page_def Let_def)
    then show ?thesis using n all unfolding next_ by simp
  qed
qed


text \<open>What a durable log promises its consumers.\<close>

locale durable_log =
  fixes log_app :: "'l \<Rightarrow> 'r \<Rightarrow> 'l \<times> (event_error + 'r event_log_entry)"
    and log_trunc :: "'l \<Rightarrow> event_stream_key \<Rightarrow> event_cursor \<Rightarrow> 'l \<times> (event_error + unit)"
    and log_rd :: "'l \<Rightarrow> event_stream_key \<Rightarrow> read_scope \<Rightarrow> event_cursor option \<Rightarrow> nat \<Rightarrow> event_error + 'r event_replay"
    and key_of :: "'r \<Rightarrow> event_stream_key"
    and is_match :: "read_scope \<Rightarrow> 'r \<Rightarrow> bool"
    and rep :: "'l \<Rightarrow> (event_stream_key \<Rightarrow> 'r list) \<Rightarrow> (event_stream_key \<Rightarrow> nat) \<Rightarrow> bool"
  assumes rep_bound: "rep l H D \<Longrightarrow> length (H k) < 2 ^ 64"
    and app_law: "rep l H D \<Longrightarrow> Suc (length (H (key_of r))) < 2 ^ 64 \<Longrightarrow>
      rep (fst (log_app l r)) (H(key_of r := H (key_of r) @ [r])) D"
    and trunc_law: "rep l H D \<Longrightarrow> length (H k) < 2 ^ 64 - 1 \<Longrightarrow> \<exists>D'. rep (fst (log_trunc l k b)) H D'"
    and rd_zero: "\<exists>e. log_rd l k f after 0 = Err e"
    and rd_gap: "rep l H D \<Longrightarrow> 0 < limit \<Longrightarrow> length (H k) < unat c \<or> unat c < D k \<Longrightarrow>
      \<exists>a. log_rd l k f (Some c) limit = Err (ReplayGap c a)"
    and rd_page: "rep l H D \<Longrightarrow> 0 < limit \<Longrightarrow> unat c \<le> length (H k) \<Longrightarrow> D k \<le> unat c \<Longrightarrow>
      log_rd l k f (Some c) limit = Ok (replay_page (H k) (is_match f) (unat c) limit)"
begin

lemma rd_cases:
  assumes "rep l H D"
  obtains e where "log_rd l k f (Some c) limit = Err e"
  | "0 < limit" "unat c \<le> length (H k)"
    "log_rd l k f (Some c) limit = Ok (replay_page (H k) (is_match f) (unat c) limit)"
  using rd_zero rd_gap [OF assms, of limit k c f] rd_page [OF assms, of limit c k f]
  by (metis linorder_not_le neq0_conv)

lemma consumer_exact:
  assumes start: "rep l0 (\<lambda>k. []) (\<lambda>k. 0)" and "length calls < 2 ^ 64 - 1"
    and "foldl (consumer_step log_app log_trunc log_rd k f) (l0, 0, []) calls = (l, c, out)"
  shows "(\<exists>D. rep l (\<lambda>k. filter (\<lambda>r. key_of r = k) (appended calls)) D)
    \<and> unat c \<le> length (filter (\<lambda>r. key_of r = k) (appended calls))
    \<and> out = map log_entry (delivered (filter (\<lambda>r. key_of r = k) (appended calls)) (is_match f) (unat c))"
  using assms(2,3)
proof (induction calls arbitrary: l c out rule: rev_induct)
  case Nil
  then show ?case using start by (auto simp: delivered_def)
next
  case (snoc call calls)
  let ?H = "\<lambda>k. filter (\<lambda>r. key_of r = k) (appended calls)"
  obtain l1 c1 out1 where s1: "foldl (consumer_step log_app log_trunc log_rd k f) (l0, 0, []) calls = (l1, c1, out1)"
    by (cases "foldl (consumer_step log_app log_trunc log_rd k f) (l0, 0, []) calls")
  obtain D where rep: "rep l1 ?H D" and c1: "unat c1 \<le> length (?H k)"
    and out1: "out1 = map log_entry (delivered (?H k) (is_match f) (unat c1))"
    using snoc.IH [OF _ s1] snoc.prems(1) by auto
  have step: "consumer_step log_app log_trunc log_rd k f (l1, c1, out1) call = (l, c, out)"
    using snoc.prems(2) s1 by simp
  have len: "length (?H k') < 2 ^ 64 - 1" for k'
  proof -
    have "length (?H k') \<le> length (appended calls)" by (rule length_filter_le)
    then show ?thesis using length_appended [of calls] snoc.prems(1) by (simp del: length_filter_le)
  qed
  show ?case
  proof (cases call)
    case (LogAppend r)
    have "rep l (?H(key_of r := ?H (key_of r) @ [r])) D"
      using app_law [OF rep, of r] len [of "key_of r"] step LogAppend by auto
    moreover have "?H(key_of r := ?H (key_of r) @ [r])
        = (\<lambda>k. filter (\<lambda>r. key_of r = k) (appended (calls @ [call])))"
      using LogAppend by auto
    moreover have "delivered (hs @ [r]) m n = delivered hs m n" if "n \<le> length hs" for hs m n
      using that by (simp add: delivered_def enumerate_append_eq)
    ultimately show ?thesis using c1 out1 step LogAppend by (auto split: if_splits)
  next
    case (LogTruncate k' b)
    then show ?thesis using trunc_law [OF rep len, of k' b] c1 out1 step by auto
  next
    case (LogPoll limit)
    show ?thesis
    proof (cases rule: rd_cases [OF rep, of k f c1 limit])
      case (1 e)
      then show ?thesis using LogPoll rep c1 out1 step by auto
    next
      case 2
      note page = replay_page_extends [OF 2(2,1) rep_bound [OF rep], of "is_match f"]
      show ?thesis using LogPoll rep 2(3) step page(1,2) out1 by auto
    qed
  qed
qed

lemma consumer_caught_up:
  assumes "rep l H D" and "unat c \<le> length (H k)"
    and "out = map log_entry (delivered (H k) (is_match f) (unat c))"
    and "log_rd l k f (Some c) limit = Ok page" and "length (rp_entries page) < limit"
  shows "out @ rp_entries page = map log_entry (delivered (H k) (is_match f) (length (H k)))"
proof (cases rule: rd_cases [OF assms(1), of k f c limit])
  case (1 e)
  then show ?thesis using assms(4) by simp
next
  case 2
  then have p: "page = replay_page (H k) (is_match f) (unat c) limit" using assms(4) by simp
  show ?thesis
    using replay_page_extends(2,3) [OF 2(2,1) rep_bound [OF assms(1)], of "is_match f"] assms(3,5) p by simp
qed

end

definition log_rep ::
    "'r log_streams \<Rightarrow> (event_stream_key \<Rightarrow> 'r list) \<Rightarrow> (event_stream_key \<Rightarrow> nat) \<Rightarrow> bool" where
  "log_rep l H D \<longleftrightarrow> (\<forall>k. stream_rep (unwrap_or (hget l k) stream_default) (H k) (D k))"

lemma log_rep_stream: "log_rep l H D \<Longrightarrow> stream_rep (unwrap_or (hget l k) stream_default) (H k) (D k)"
  by (simp add: log_rep_def)

lemma log_append_rep:
  assumes "log_rep l H D" and "Suc (length (H (key_of r))) < 2 ^ 64"
  shows "log_rep (fst (log_append key_of l r)) (H(key_of r := H (key_of r) @ [r])) D"
  using assms stream_append_rep(2) [OF log_rep_stream [OF assms(1)] assms(2), of r]
  by (auto simp: log_rep_def log_append_def Let_def split_def hmap_simps)

lemma log_truncate_rep:
  assumes "log_rep l H D" and "length (H k) < 2 ^ 64 - 1"
  shows "\<exists>D'. log_rep (fst (log_truncate l k b)) H D'"
proof (cases "hget l k")
  case None
  then show ?thesis using assms(1) by (auto simp: log_truncate_def)
next
  case (Some st)
  then have rep: "stream_rep st (H k) (D k)" using log_rep_stream [OF assms(1), of k] by simp
  show ?thesis
  proof (cases "unat b < 2 ^ 64 - 1")
    case True
    let ?d = "if unat b \<le> length (H k) then max (D k) (unat b) else D k"
    have "log_rep (fst (log_truncate l k b)) H (D(k := ?d))"
      using assms(1) stream_truncate_rep [OF rep True] Some
      by (auto simp: log_rep_def log_truncate_def Let_def split_def hmap_simps)
    then show ?thesis by blast
  next
    case False
    then have "ss_next_cursor st < b" "b \<noteq> 0"
      using assms(2) stream_rep_unat(1) [OF rep] by (auto simp: word_less_nat_alt)
    then have "log_rep (fst (log_truncate l k b)) H D"
      using assms(1) Some rep by (auto simp: log_rep_def log_truncate_def stream_truncate_def hmap_simps)
    then show ?thesis by blast
  qed
qed

lemma log_read_stream:
  "0 < limit \<Longrightarrow> log_read is_match l k f after limit
    = stream_read_after (unwrap_or (hget l k) stream_default) (unwrap_or after cursor_origin) limit (is_match f)"
  by (cases "hget l k")
     (auto simp: log_read_def Let_def stream_read_after_def stream_default_def cursor_origin_def
        partition_point_def word_neq_0_conv)

lemma log_read_rep:
  assumes "log_rep l H D" and "0 < limit"
  shows "log_read is_match l k f (Some c) limit
    = (if length (H k) < unat c then Err (ReplayGap c (word_of_nat (length (H k))))
       else if unat c < D k then Err (ReplayGap c (word_of_nat (Suc (D k))))
       else Ok (replay_page (H k) (is_match f) (unat c) limit))"
  using stream_read_rep [OF log_rep_stream [OF assms(1)] assms(2)]
  by (simp add: log_read_stream [OF assms(2)] del: of_nat_Suc)

lemma log_rep_empty: "log_rep [] (\<lambda>k. []) (\<lambda>k. 0)"
  by (simp add: log_rep_def)

lemma durable_log_streams:
  "durable_log (log_append key_of) log_truncate (log_read is_match) key_of is_match log_rep"
proof
  fix l :: "'a log_streams" and H D k
  assume rep: "log_rep l H D"
  show "length (H k) < 2 ^ 64" using log_rep_stream [OF rep] by (auto simp: stream_rep_def)
  show "log_rep (fst (log_append key_of l r)) (H(key_of r := H (key_of r) @ [r])) D"
    if "Suc (length (H (key_of r))) < 2 ^ 64" for r
    by (rule log_append_rep) (use rep that in auto)
  show "\<exists>D'. log_rep (fst (log_truncate l k b)) H D'" if "length (H k) < 2 ^ 64 - 1" for b
    using log_truncate_rep [OF rep that] .
  show "\<exists>a. log_read is_match l k f (Some c) limit = Err (ReplayGap c a)"
    if "0 < limit" "length (H k) < unat c \<or> unat c < D k" for limit c f
    using log_read_rep [OF rep that(1)] that(2) by auto
  show "log_read is_match l k f (Some c) limit = Ok (replay_page (H k) (is_match f) (unat c) limit)"
    if "0 < limit" "unat c \<le> length (H k)" "D k \<le> unat c" for limit c f
    using log_read_rep [OF rep that(1)] that(2,3) by simp
qed (simp add: log_read_def)

interpretation event_log: durable_log event_log_append event_log_truncate event_log_read
  "\<lambda>event. stream_key_from_scope (ev_scope event)" matches_event log_rep
  unfolding event_log_append_def event_log_truncate_def event_log_read_def by (rule durable_log_streams)

interpretation audit_log: durable_log audit_log_append audit_log_truncate audit_log_read
  "\<lambda>record. stream_key_new (env_tenant_id record) (env_user_id record) (env_agent_id record)"
  matches_audit log_rep
  unfolding audit_log_append_def audit_log_truncate_def audit_log_read_def by (rule durable_log_streams)


text \<open>The head of a stream, and a batch as the sequence of its appends.\<close>

lemma head_cursor_rep:
  assumes "log_rep l H D"
  shows "head_cursor l k c
    = (if length (H k) < unat c then Err (ReplayGap c (word_of_nat (length (H k))))
       else Ok (word_of_nat (length (H k))))"
proof -
  have "ss_next_cursor (unwrap_or (hget l k) stream_default) = word_of_nat (length (H k))"
    and "unat (ss_next_cursor (unwrap_or (hget l k) stream_default)) = length (H k)"
    using log_rep_stream [OF assms, of k] stream_rep_unat(1) by (auto simp: stream_rep_def)
  then show ?thesis
    by (cases "hget l k") (auto simp: head_cursor_def word_less_nat_alt stream_default_def)
qed

lemma append_batch_run: "append_batch l events = run_ops event_log_append l events"
  by (induction events arbitrary: l) (simp_all add: split_def Let_def)

lemma security_labels_distinct:
  "security_boundary_str a = security_boundary_str b \<longleftrightarrow> a = b"
  "security_decision_str c = security_decision_str d \<longleftrightarrow> c = d"
  by (cases a; cases b; simp) (cases c; cases d; simp)

section \<open>JSONL replay\<close>

definition jsonl_text :: "('r \<Rightarrow> string) \<Rightarrow> 'r list \<Rightarrow> string" where
  "jsonl_text to_str hs = concat (map (\<lambda>r. to_str r @ [CHR 0x0A]) hs)"

text \<open>A line that a JSON encoder writes: well-formed text on one line, not blank.\<close>

definition record_line :: "string \<Rightarrow> bool" where
  "record_line x \<longleftrightarrow> CHR 0x0A \<notin> set x \<and> trim x \<noteq> [] \<and> last x \<noteq> CHR 0x0D \<and> utf8_scan 0 x = None"

lemma text_lines_line:
  "CHR 0x0A \<notin> set x \<Longrightarrow> text_lines acc (x @ CHR 0x0A # rest) = strip_cr (acc @ x) # text_lines [] rest"
  by (induction x arbitrary: acc) auto

lemma utf8_step_append:
  "a \<noteq> [] \<Longrightarrow> utf8_step a = Inr w \<Longrightarrow> utf8_step (a @ b) = Inr w \<and> w \<le> length a"
  by (cases a) (auto split: if_splits list.splits simp: neq_Nil_conv)

lemma utf8_scan_append:
  "utf8_scan i s = None \<Longrightarrow> utf8_scan i (s @ t) = utf8_scan (i + length s) t"
proof (induction i s rule: utf8_scan.induct)
  case (1 i s)
  show ?case
  proof (cases "s = []")
    case False
    then obtain w where w: "utf8_step (map byte s) = Inr w"
      using "1.prems" by (subst (asm) utf8_scan.simps) (auto split: sum.splits)
    then have "utf8_scan (i + w) (drop w s) = None"
      using "1.prems" False by (subst (asm) utf8_scan.simps) simp
    note ih = "1.IH" [OF False w this]
    have "utf8_step (map byte (s @ t)) = Inr w" "w \<le> length s"
      using utf8_step_append [of "map byte s" w "map byte t"] w False by simp_all
    then show ?thesis using ih False by (subst utf8_scan.simps) simp
  qed simp
qed

lemma utf8_scan_offset: "utf8_scan i s = None \<Longrightarrow> utf8_scan j s = None"
proof (induction i s arbitrary: j rule: utf8_scan.induct)
  case (1 i s)
  then show ?case
    by (subst utf8_scan.simps, subst (asm) (3) utf8_scan.simps) (auto split: sum.splits if_splits)
qed

lemma jsonl_text_valid:
  assumes "\<forall>r\<in>set hs. utf8_scan 0 (to_str r) = None"
  shows "utf8_scan i (jsonl_text to_str hs) = None"
  using assms
proof (induction hs arbitrary: i)
  case Nil
  then show ?case by (simp add: jsonl_text_def utf8_scan.simps)
next
  case (Cons r hs)
  have "utf8_scan i (to_str r) = None" using Cons.prems utf8_scan_offset [of 0 "to_str r" i] by simp
  then have "utf8_scan i (jsonl_text to_str (r # hs))
      = utf8_scan (i + length (to_str r)) (CHR 0x0A # jsonl_text to_str hs)"
    by (simp add: jsonl_text_def utf8_scan_append)
  also have "\<dots> = utf8_scan (Suc (i + length (to_str r))) (jsonl_text to_str hs)"
    by (subst utf8_scan.simps) (simp add: byte_def)
  also have "\<dots> = None" using Cons by simp
  finally show ?case .
qed

lemma record_lines_jsonl:
  "\<forall>r\<in>set hs. record_line (to_str r) \<Longrightarrow> record_lines (jsonl_text to_str hs) = map to_str hs"
  unfolding record_lines_def
  by (induction hs)
     (auto simp: jsonl_text_def record_line_def text_lines_line strip_cr_def)

lemma replay_lines_records:
  assumes "\<forall>r\<in>set hs. from_str (to_str r) = Ok r" and "n + length hs < 2 ^ 64"
  shows "replay_lines from_str after limit (word_of_nat n) entries (map to_str hs)
    = Ok (word_of_nat (n + length hs),
        entries @ take (limit - length entries)
          (map log_entry (dropWhile (\<lambda>ir. fst ir \<le> unat after) (enumerate (Suc n) hs))))"
  using assms
proof (induction hs arbitrary: n entries)
  case (Cons r hs)
  have suc: "word_of_nat n + 1 = (word_of_nat (Suc n) :: u64)" by simp
  have less: "after < word_of_nat (Suc n) \<longleftrightarrow> unat after < Suc n"
    using Cons.prems(2) by (simp add: word_less_nat_alt del: of_nat_Suc)
  have ih: "replay_lines from_str after limit (word_of_nat (Suc n)) es (map to_str hs)
    = Ok (word_of_nat (Suc n + length hs), es @ take (limit - length es)
          (map log_entry (dropWhile (\<lambda>ir. fst ir \<le> unat after) (enumerate (Suc (Suc n)) hs))))" for es
    using Cons.prems by (intro Cons.IH) auto
  show ?case
  proof (cases "unat after < Suc n")
    case True
    then have "dropWhile (\<lambda>ir. fst ir \<le> unat after) (enumerate (Suc (Suc n)) hs) = enumerate (Suc (Suc n)) hs"
      by (simp add: dropWhile_enumerate)
    moreover have "limit - length entries = Suc (limit - Suc (length entries))" if "length entries < limit"
      using that by arith
    ultimately show ?thesis
      using True Cons.prems ih less by (auto simp: Let_def suc log_entry_pair simp del: of_nat_Suc)
  next
    case False
    then show ?thesis using Cons.prems ih less by (auto simp: Let_def suc simp del: of_nat_Suc)
  qed
qed simp


text \<open>(C36) Reading a JSONL file of records, one line each, after a cursor and with a page limit gives
  what the in-memory log gives for the stream of the same records without a filter: the same page,
  the same next cursor and the same gap error, for any decoder that inverts the encoder.\<close>

theorem jsonl_replay_equiv:
  assumes "\<forall>r\<in>set hs. record_line (to_str r) \<and> from_str (to_str r) = Ok r"
    and "length hs < 2 ^ 64" and "log_rep l H D" and "H k = hs" and "D k = 0"
  shows "replay_jsonl from_str (jsonl_text to_str hs) after limit
       = log_read (\<lambda>_ _. True) l k f after limit"
proof (cases "limit = 0")
  case False
  let ?c = "unwrap_or after cursor_origin"
  let ?es = "take limit (enumerate (Suc (unat ?c)) (drop (unat ?c) hs))"
  have utf8: "utf8_scan 0 (jsonl_text to_str hs) = None"
    using assms(1) by (intro jsonl_text_valid) (simp add: record_line_def)
  have recs: "record_lines (jsonl_text to_str hs) = map to_str hs"
    using assms(1) by (intro record_lines_jsonl) simp
  have loop: "replay_lines from_str ?c limit 0 [] (map to_str hs)
      = Ok (word_of_nat (length hs), map log_entry ?es)"
    using replay_lines_records [of hs from_str to_str 0 ?c limit "[]"] assms(1,2) dropWhile_enumerate [of "unat ?c" 0 hs]
    by (simp add: take_map)
  have gap: "word_of_nat (length hs) < ?c \<longleftrightarrow> length hs < unat ?c"
    using assms(2) by (simp add: word_less_nat_alt)
  have read: "log_read (\<lambda>_ _. True) l k f after limit
      = (if length hs < unat ?c then Err (ReplayGap ?c (word_of_nat (length hs)))
         else Ok (replay_page hs (\<lambda>_. True) (unat ?c) limit))"
    using log_read_rep [OF assms(3), of limit "\<lambda>_ _. True" k f ?c] False assms(4,5)
    by (simp add: log_read_stream)
  have next_: "(if map log_entry ?es = [] then ?c else le_cursor (last (map log_entry ?es)))
      = word_of_nat (if ?es = [] then length hs else fst (last ?es))" if "\<not> length hs < unat ?c"
    using that False by (auto simp: last_map log_entry_def)
  show ?thesis
  proof (cases "length hs < unat ?c")
    case True
    then show ?thesis using False utf8 recs loop gap read by (simp add: replay_jsonl_def from_utf8_def Let_def)
  next
    case ok: False
    then show ?thesis
      using False utf8 recs loop gap read next_ [OF ok]
      by (simp add: replay_jsonl_def from_utf8_def Let_def replay_page_def del: map_is_Nil_conv)
  qed
qed (simp add: replay_jsonl_def log_read_def)

definition bool_line :: "bool \<Rightarrow> string" where
  "bool_line b = (if b then ''true'' else ''false'')"

definition line_bool :: "string \<Rightarrow> string + bool" where
  "line_bool s = (if s = ''true'' then Ok True else if s = ''false'' then Ok False else Err ''expected value'')"

theorem jsonl_replay_equiv_witness:
  "replay_jsonl line_bool (jsonl_text bool_line [True, False]) (Some 1) 5
   = log_read (\<lambda>_ _. True)
       (fst (log_append (\<lambda>_. stream_key_new ''t'' ''u'' None)
         (fst (log_append (\<lambda>_. stream_key_new ''t'' ''u'' None) [] True)) False))
       (stream_key_new ''t'' ''u'' None) read_scope_any (Some 1) 5
   \<and> replay_jsonl line_bool (jsonl_text bool_line [True, False]) (Some 1) 5
     = Ok \<lparr> rp_entries = [\<lparr> le_cursor = 2, le_record = False \<rparr>], rp_next_cursor = 2 \<rparr>"
  (is "?a = log_read _ ?l ?k _ _ _ \<and> _ = ?r")
proof -
  let ?key = "\<lambda>_ :: bool. ?k"
  have rep: "log_rep ?l (((\<lambda>k. [])(?k := [True]))(?k := [True, False])) (\<lambda>_. 0)"
    using log_append_rep [of "fst (log_append ?key [] True)" "(\<lambda>k. [])(?k := [True])" "\<lambda>_. 0" ?key False]
      log_append_rep [OF log_rep_empty, of ?key True] by simp
  have lines: "\<forall>b\<in>set [True, False]. record_line (bool_line b) \<and> line_bool (bool_line b) = Ok b"
    by code_simp
  have "?a = log_read (\<lambda>_ _. True) ?l ?k read_scope_any (Some 1) 5"
    by (rule jsonl_replay_equiv [OF lines _ rep]) simp_all
  moreover have "?a = ?r" by code_simp
  ultimately show ?thesis by simp
qed

text \<open>(C33) A consumer of a stream of the event log that polls from its cursor, whatever else is
  appended, to its stream or to others, and whatever retention drops in between, has received exactly
  the matching events of its stream up to its cursor, in order, each once; and a page that is not full
  completes them. Retention never loses events silently: a poll that would have to skip some fails.\<close>

theorem event_consumer_exact:
  assumes "length calls < 2 ^ 64 - 1"
    and "foldl (consumer_step event_log_append event_log_truncate event_log_read key f) ([], 0, []) calls
      = (l, c, out)"
    and "hs = enumerate 1 (filter (\<lambda>e. stream_key_from_scope (ev_scope e) = key) (appended calls))"
  shows "out = map log_entry (filter (\<lambda>ir. matches_event f (snd ir)) (take (unat c) hs))
    \<and> (event_log_read l key f (Some c) limit = Ok page \<and> length (rp_entries page) < limit \<longrightarrow>
         out @ rp_entries page = map log_entry (filter (\<lambda>ir. matches_event f (snd ir)) hs))"
proof -
  let ?hs = "filter (\<lambda>e. stream_key_from_scope (ev_scope e) = key) (appended calls)"
  note ex = event_log.consumer_exact [OF log_rep_empty assms(1,2)]
  then obtain D where rep: "log_rep l (\<lambda>k. filter (\<lambda>e. stream_key_from_scope (ev_scope e) = k) (appended calls)) D"
    by blast
  have "out @ rp_entries page = map log_entry (delivered ?hs (matches_event f) (length ?hs))"
    if "event_log_read l key f (Some c) limit = Ok page" "length (rp_entries page) < limit"
    by (rule event_log.consumer_caught_up [OF rep _ _ that]) (use ex in auto)
  then show ?thesis using ex assms(3) by (auto simp: delivered_def)
qed

theorem event_consumer_exact_witness:
  "snd (foldl (consumer_step event_log_append event_log_truncate event_log_read
         (stream_key_from_scope (system_scope 3)) read_scope_any) ([], 0, [])
       [LogAppend (model_started (1, 2) (system_scope 3) ''model.call''), LogPoll 4])
   = (1, [log_entry (1, model_started (1, 2) (system_scope 3) ''model.call'')])"
  (is "snd (foldl ?step _ ?calls) = (1, [log_entry (1, ?e)])")
proof -
  obtain l c out where run: "foldl ?step ([], 0, []) ?calls = (l, c, out)"
    by (cases "foldl ?step ([], 0, []) ?calls")
  have "c = 1"
    using run by (simp add: event_log_append_def event_log_read_def log_append_def log_read_def
      stream_append_def stream_read_after_def stream_default_def Let_def partition_point_def matches_event_def
      matches_optional_def read_scope_any_def model_started_def new_metadata_only_def cursor_origin_def
      split: sum.splits)
  moreover have "out = map log_entry (filter (\<lambda>ir. matches_event read_scope_any (snd ir))
      (take (unat c) (enumerate 1 [?e])))"
    using event_consumer_exact [OF _ run refl] by (simp add: model_started_def new_metadata_only_def)
  ultimately show ?thesis
    using run by (simp add: matches_event_def matches_optional_def read_scope_any_def)
qed

text \<open>A page without entries hands back the cursor of the last record that the filter rejected, not
  the requested one.\<close>

lemma filtered_page_advances:
  "event_log_read (fst (event_log_append [] (model_started (1, 2) (system_scope 3) ''model.call'')))
     (stream_key_from_scope (system_scope 3)) (read_scope_any \<lparr> rs_process_id := Some 9 \<rparr>) None 10
   = Ok \<lparr> rp_entries = [], rp_next_cursor = 1 \<rparr>"
  by (simp add: event_log_append_def event_log_read_def log_append_def log_read_def stream_append_def
      stream_read_after_def stream_default_def Let_def partition_point_def matches_event_def
      matches_optional_def read_scope_any_def model_started_def new_metadata_only_def cursor_origin_def)

end
