(* ===== verification/Process_Store.thy ===== *)
theory Process_Store
  imports Run_State Runtime_Events Memory_Governor
begin

text \<open>
  Processes (\<open>ironclaw_processes\<close>: \<open>types.rs\<close>, \<open>memory_store.rs\<close>): the records of background
  processes and of their results, the in-memory stores of both, and the interface of a process store
  as a record of its operations, which the decorators of \<open>wrappers.rs\<close> wrap. JSON values are a type
  parameter. What an operation reads of the world, the time and fresh identifiers, is its first
  argument.
\<close>

section \<open>Data\<close>

datatype process_status = PsRunning | PsCompleted | PsFailed | PsKilled

definition process_is_terminal :: "process_status \<Rightarrow> bool" where
  "process_is_terminal s = (s \<noteq> PsRunning)"

record 'd process_record =
  pr_process_id :: process_id
  pr_parent_process_id :: "process_id option"
  pr_invocation_id :: invocation_id
  pr_scope :: resource_scope
  pr_authenticated_actor_user_id :: "user_id option"
  pr_extension_id :: extension_id
  pr_capability_id :: capability_id
  pr_runtime :: runtime_kind
  pr_status :: process_status
  pr_grants :: "'d capability_grant list"
  pr_mounts :: mount_view
  pr_estimated_resources :: "'d resource_estimate"
  pr_resource_reservation_id :: "reservation_id option"
  pr_error_kind :: "string option"

record ('d, 'v) process_start =
  st_process_id :: process_id
  st_parent_process_id :: "process_id option"
  st_invocation_id :: invocation_id
  st_scope :: resource_scope
  st_authenticated_actor_user_id :: "user_id option"
  st_extension_id :: extension_id
  st_capability_id :: capability_id
  st_runtime :: runtime_kind
  st_grants :: "'d capability_grant list"
  st_mounts :: mount_view
  st_estimated_resources :: "'d resource_estimate"
  st_resource_reservation_id :: "reservation_id option"
  st_input :: 'v

record process_exit =
  px_process_id :: process_id
  px_scope :: resource_scope
  px_extension_id :: extension_id
  px_capability_id :: capability_id
  px_runtime :: runtime_kind
  px_status :: process_status
  px_error_kind :: "string option"

definition exit_from_terminal :: "'d process_record \<Rightarrow> process_exit" where
  "exit_from_terminal r =
     \<lparr> px_process_id = pr_process_id r, px_scope = pr_scope r, px_extension_id = pr_extension_id r,
       px_capability_id = pr_capability_id r, px_runtime = pr_runtime r, px_status = pr_status r,
       px_error_kind = pr_error_kind r \<rparr>"

record 'v process_result_record =
  rr_process_id :: process_id
  rr_scope :: resource_scope
  rr_status :: process_status
  rr_output :: "'v option"
  rr_output_ref :: "virtual_path option"
  rr_error_kind :: "string option"

datatype ('d, 'f) process_error =
    UnknownProcess process_id
  | ProcessAlreadyExists process_id
  | InvalidTransition process_id process_status process_status
  | ResourceReservationMismatch process_id reservation_id "reservation_id option"
  | ResourceReservationAlreadyAssigned process_id reservation_id
  | ResourceReservationNotOwned process_id "reservation_id option"
  | PeResource "('d, 'f) resource_error"
  | ResourceCleanupFailed "('d, 'f) process_error" "('d, 'f) resource_error"
  | ProcessResultStoreUnavailable
  | ProcessResultUnavailable process_id
  | InvalidStoredRecord string
  | PeInvalidPath string
  | PeFilesystem filesystem_error
  | PeSerialization string
  | PeDeserialization string

fun is_filesystem_not_found :: "('d, 'f) process_error \<Rightarrow> bool" where
  "is_filesystem_not_found (PeFilesystem (NotFound _ _)) = True"
| "is_filesystem_not_found (ResourceCleanupFailed original _) = is_filesystem_not_found original"
| "is_filesystem_not_found _ = False"

definition process_key :: "resource_scope \<Rightarrow> process_id \<Rightarrow> scope_key" where
  "process_key sc i =
     \<lparr>key_tenant_id = tenant_id sc, key_user_id = user_id sc, key_agent_id = agent_id sc,
      key_project_id = project_id sc, key_mission_id = mission_id sc, key_thread_id = thread_id sc,
      key_id = i\<rparr>"

definition ensure_status_transition ::
    "process_id \<Rightarrow> process_status \<Rightarrow> process_status \<Rightarrow> ('d, 'f) process_error + unit" where
  "ensure_status_transition i old to =
     (if old \<noteq> PsRunning then Err (InvalidTransition i old to) else Ok ())"

section \<open>The interface of a process store\<close>

text \<open>The time of a call, the time of a clean-up in the same call, and the identifiers it draws.\<close>

record ambient =
  amb_now :: instant
  amb_later :: instant
  amb_reservation_id :: reservation_id
  amb_event_id :: uuid

type_synonym ('s, 'd, 'f) process_transition =
  "ambient \<Rightarrow> 's \<Rightarrow> resource_scope \<Rightarrow> process_id \<Rightarrow> 's \<times> (('d, 'f) process_error + 'd process_record)"

record ('s, 'd, 'f, 'v) process_store_ops =
  ps_start :: "ambient \<Rightarrow> 's \<Rightarrow> ('d, 'v) process_start \<Rightarrow> 's \<times> (('d, 'f) process_error + 'd process_record)"
  ps_complete :: "('s, 'd, 'f) process_transition"
  ps_fail :: "string \<Rightarrow> ('s, 'd, 'f) process_transition"
  ps_kill :: "('s, 'd, 'f) process_transition"
  ps_get :: "'s \<Rightarrow> resource_scope \<Rightarrow> process_id \<Rightarrow> ('d, 'f) process_error + 'd process_record option"
  ps_records_for_scope :: "'s \<Rightarrow> resource_scope \<Rightarrow> ('d, 'f) process_error + 'd process_record list"

section \<open>The in-memory process store\<close>

type_synonym 'd process_map = "(scope_key, 'd process_record) hmap"

definition pm_update_status ::
    "'d process_map \<Rightarrow> resource_scope \<Rightarrow> process_id \<Rightarrow> process_status \<Rightarrow> string option
      \<Rightarrow> 'd process_map \<times> (('d, 'f) process_error + 'd process_record)" where
  "pm_update_status m sc i to error_kind =
     (case hget m (process_key sc i) of
        None \<Rightarrow> (m, Err (UnknownProcess i))
      | Some record \<Rightarrow>
          (case ensure_status_transition i (pr_status record) to of
             Inl e \<Rightarrow> (m, Err e)
           | Inr _ \<Rightarrow>
               (let record' = record \<lparr> pr_status := to, pr_error_kind := error_kind \<rparr>
                in (hput (process_key sc i) record' m, Ok record'))))"

definition started_record :: "('d, 'v) process_start \<Rightarrow> 'd process_record" where
  "started_record s =
     \<lparr> pr_process_id = st_process_id s, pr_parent_process_id = st_parent_process_id s,
       pr_invocation_id = st_invocation_id s, pr_scope = st_scope s,
       pr_authenticated_actor_user_id = st_authenticated_actor_user_id s,
       pr_extension_id = st_extension_id s, pr_capability_id = st_capability_id s,
       pr_runtime = st_runtime s, pr_status = PsRunning, pr_grants = st_grants s,
       pr_mounts = st_mounts s, pr_estimated_resources = st_estimated_resources s,
       pr_resource_reservation_id = st_resource_reservation_id s, pr_error_kind = None \<rparr>"

definition pm_start ::
    "'d process_map \<Rightarrow> ('d, 'v) process_start
      \<Rightarrow> 'd process_map \<times> (('d, 'f) process_error + 'd process_record)" where
  "pm_start m s =
     (let record = started_record s; key = process_key (pr_scope record) (pr_process_id record) in
      if hcontains m key then (m, Err (ProcessAlreadyExists (pr_process_id record)))
      else (hput key record m, Ok record))"

definition pm_complete ::
    "'d process_map \<Rightarrow> resource_scope \<Rightarrow> process_id
      \<Rightarrow> 'd process_map \<times> (('d, 'f) process_error + 'd process_record)" where
  "pm_complete m sc i = pm_update_status m sc i PsCompleted None"

definition pm_fail ::
    "'d process_map \<Rightarrow> resource_scope \<Rightarrow> process_id \<Rightarrow> string
      \<Rightarrow> 'd process_map \<times> (('d, 'f) process_error + 'd process_record)" where
  "pm_fail m sc i error_kind = pm_update_status m sc i PsFailed (Some (sanitize_error_kind error_kind))"

definition pm_kill ::
    "'d process_map \<Rightarrow> resource_scope \<Rightarrow> process_id
      \<Rightarrow> 'd process_map \<times> (('d, 'f) process_error + 'd process_record)" where
  "pm_kill m sc i = pm_update_status m sc i PsKilled None"

definition pm_get ::
    "'d process_map \<Rightarrow> resource_scope \<Rightarrow> process_id \<Rightarrow> ('d, 'f) process_error + 'd process_record option" where
  "pm_get m sc i = Ok (hget m (process_key sc i))"

definition pm_records_for_scope ::
    "'d process_map \<Rightarrow> resource_scope \<Rightarrow> ('d, 'f) process_error + 'd process_record list" where
  "pm_records_for_scope m sc =
     Ok (sort_key pr_process_id (filter (\<lambda>r. same_scope_owner (pr_scope r) sc) (hvalues m)))"

definition memory_process_store :: "('d process_map, 'd, 'f, 'v) process_store_ops" where
  "memory_process_store =
     \<lparr> ps_start = (\<lambda>_. pm_start), ps_complete = (\<lambda>_. pm_complete),
       ps_fail = (\<lambda>kind _ m sc i. pm_fail m sc i kind), ps_kill = (\<lambda>_. pm_kill), ps_get = pm_get,
       ps_records_for_scope = pm_records_for_scope \<rparr>"

section \<open>The in-memory result store\<close>

type_synonym 'v result_map = "(scope_key, 'v process_result_record) hmap"

definition rm_store_result ::
    "'v result_map \<Rightarrow> resource_scope \<Rightarrow> process_id \<Rightarrow> process_status \<Rightarrow> 'v option \<Rightarrow> string option
      \<Rightarrow> 'v result_map \<times> 'v process_result_record" where
  "rm_store_result m sc i status output error_kind =
     (let record = \<lparr> rr_process_id = i, rr_scope = sc, rr_status = status, rr_output = output,
                     rr_output_ref = None, rr_error_kind = error_kind \<rparr>
      in (hput (process_key sc i) record m, record))"

definition rm_complete :: "'v result_map \<Rightarrow> resource_scope \<Rightarrow> process_id \<Rightarrow> 'v \<Rightarrow> 'v result_map \<times> 'v process_result_record" where
  "rm_complete m sc i output = rm_store_result m sc i PsCompleted (Some output) None"

definition rm_fail :: "'v result_map \<Rightarrow> resource_scope \<Rightarrow> process_id \<Rightarrow> string \<Rightarrow> 'v result_map \<times> 'v process_result_record" where
  "rm_fail m sc i error_kind = rm_store_result m sc i PsFailed None (Some (sanitize_error_kind error_kind))"

definition rm_kill :: "'v result_map \<Rightarrow> resource_scope \<Rightarrow> process_id \<Rightarrow> 'v result_map \<times> 'v process_result_record" where
  "rm_kill m sc i = rm_store_result m sc i PsKilled None None"

definition rm_get :: "'v result_map \<Rightarrow> resource_scope \<Rightarrow> process_id \<Rightarrow> 'v process_result_record option" where
  "rm_get m sc i = hget m (process_key sc i)"

definition rm_output :: "'v result_map \<Rightarrow> resource_scope \<Rightarrow> process_id \<Rightarrow> 'v option" where
  "rm_output m sc i = Option.bind (rm_get m sc i) rr_output"

section \<open>The life cycle of a process\<close>

datatype ('d, 'v) process_op =
    PoStart "('d, 'v) process_start"
  | PoComplete resource_scope process_id
  | PoFail resource_scope process_id string
  | PoKill resource_scope process_id

datatype ('d, 'f) process_resp =
    PrStarted "('d, 'f) process_error + 'd process_record"
  | PrClosed resource_scope process_id "('d, 'f) process_error + 'd process_record"

fun process_exec ::
    "('s, 'd, 'f, 'v) process_store_ops \<Rightarrow> 's \<Rightarrow> ambient \<times> ('d, 'v) process_op \<Rightarrow> 's \<times> ('d, 'f) process_resp" where
  "process_exec ops s (x, PoStart start) = (let (s', r) = ps_start ops x s start in (s', PrStarted r))"
| "process_exec ops s (x, PoComplete sc i) = (let (s', r) = ps_complete ops x s sc i in (s', PrClosed sc i r))"
| "process_exec ops s (x, PoFail sc i kind) = (let (s', r) = ps_fail ops kind x s sc i in (s', PrClosed sc i r))"
| "process_exec ops s (x, PoKill sc i) = (let (s', r) = ps_kill ops x s sc i in (s', PrClosed sc i r))"

definition process_opens :: "('d, 'f) process_resp \<Rightarrow> scope_key option" where
  "process_opens r =
     (case r of PrStarted (Inr rec) \<Rightarrow> Some (process_key (pr_scope rec) (pr_process_id rec)) | _ \<Rightarrow> None)"

definition process_closes :: "('d, 'f) process_resp \<Rightarrow> scope_key option" where
  "process_closes r = (case r of PrClosed sc i (Inr rec) \<Rightarrow> Some (process_key sc i) | _ \<Rightarrow> None)"

definition process_status_of :: "'d process_map \<Rightarrow> scope_key \<Rightarrow> process_status option" where
  "process_status_of m k = map_option pr_status (hget m k)"

lemma started_record_simps [simp]:
  "pr_status (started_record s) = PsRunning" "pr_scope (started_record s) = st_scope s"
  "pr_process_id (started_record s) = st_process_id s"
  "pr_resource_reservation_id (started_record s) = st_resource_reservation_id s"
  by (simp_all add: started_record_def)

lemma process_key_iff: "process_key sc i = process_key sc' j \<longleftrightarrow> same_scope_owner sc sc' \<and> i = j"
  by (auto simp: process_key_def same_scope_owner_def)

text \<open>Every transition of the in-memory store is one update of a running record.\<close>

lemma pm_update_cases:
  assumes "pm_update_status m sc i to kind = (m', r)"
  obtains (ok) rec where "hget m (process_key sc i) = Some rec" "pr_status rec = PsRunning"
      "r = Ok (rec \<lparr> pr_status := to, pr_error_kind := kind \<rparr>)"
      "m' = hput (process_key sc i) (rec \<lparr> pr_status := to, pr_error_kind := kind \<rparr>) m"
  | (unknown) "hget m (process_key sc i) = None" "r = Err (UnknownProcess i)" "m' = m"
  | (closed) rec where "hget m (process_key sc i) = Some rec" "pr_status rec \<noteq> PsRunning"
      "r = Err (InvalidTransition i (pr_status rec) to)" "m' = m"
  using assms
  by (auto simp: pm_update_status_def ensure_status_transition_def Let_def split: option.splits if_splits)

lemma pm_start_free:
  "hget m (process_key (st_scope s) (st_process_id s)) = None \<Longrightarrow>
   pm_start m s = (hput (process_key (st_scope s) (st_process_id s)) (started_record s) m, Ok (started_record s))"
  by (simp add: pm_start_def Let_def hcontains_def)

lemma pm_start_known:
  "hget m (process_key (st_scope s) (st_process_id s)) = Some r \<Longrightarrow>
   pm_start m s = (m, Err (ProcessAlreadyExists (st_process_id s)))"
  by (simp add: pm_start_def Let_def hcontains_def)

lemma pm_update_running:
  "hget m (process_key sc i) = Some r \<Longrightarrow> pr_status r = PsRunning \<Longrightarrow>
   pm_update_status m sc i to kind
   = (hput (process_key sc i) (r \<lparr> pr_status := to, pr_error_kind := kind \<rparr>) m,
      Ok (r \<lparr> pr_status := to, pr_error_kind := kind \<rparr>))"
  by (simp add: pm_update_status_def ensure_status_transition_def Let_def)

lemmas pm_transition_defs = pm_complete_def pm_fail_def pm_kill_def

lemma pm_start_cases:
  assumes "pm_start m s = (m', r)"
  obtains (ok) "hget m (process_key (st_scope s) (st_process_id s)) = None" "r = Ok (started_record s)"
      "m' = hput (process_key (st_scope s) (st_process_id s)) (started_record s) m"
  | (known) rec where "hget m (process_key (st_scope s) (st_process_id s)) = Some rec"
      "r = Err (ProcessAlreadyExists (st_process_id s))" "m' = m"
  using assms by (auto simp: pm_start_def Let_def hcontains_def split: if_splits)

lemma memory_process_step:
  assumes "process_exec memory_process_store m op = (m', r)"
  shows "(\<exists>k. process_opens r = Some k \<and> process_closes r = None \<and> process_status_of m k = None
             \<and> process_status_of m' = (process_status_of m)(k \<mapsto> PsRunning))
     \<or> (\<exists>k st. process_opens r = None \<and> process_closes r = Some k \<and> st \<noteq> PsRunning
             \<and> process_status_of m k = Some PsRunning \<and> process_status_of m' = (process_status_of m)(k \<mapsto> st))
     \<or> (process_opens r = None \<and> process_closes r = None \<and> m' = m)"
proof -
  have upd: ?thesis
    if step: "(let (s, q) = pm_update_status m sc i to kind in (s, PrClosed sc i q)) = (m', r)"
      and to: "to \<noteq> PsRunning" for sc i to kind
  proof -
    obtain q where q: "pm_update_status m sc i to kind = (m', q)" "r = PrClosed sc i q"
      using step by (auto split: prod.splits)
    show ?thesis
      using q(1) by (cases rule: pm_update_cases)
        (use q(2) to in \<open>auto simp: process_opens_def process_closes_def process_status_of_def hmap_simps fun_eq_iff\<close>)
  qed
  obtain x a where op: "op = (x, a)" by (cases op)
  show ?thesis
  proof (cases a)
    case (PoStart s)
    then obtain q where q: "pm_start m s = (m', q)" and r: "r = PrStarted q"
      using assms op by (auto simp: memory_process_store_def split: prod.splits)
    show ?thesis
      using q by (cases rule: pm_start_cases)
        (use r in \<open>auto simp: process_opens_def process_closes_def process_status_of_def hmap_simps fun_eq_iff\<close>)
  next
    case (PoComplete sc i)
    show ?thesis
      by (rule upd [of sc i PsCompleted None])
         (use assms op PoComplete in \<open>simp_all add: memory_process_store_def pm_transition_defs\<close>)
  next
    case (PoFail sc i kind)
    show ?thesis
      by (rule upd [of sc i PsFailed "Some (sanitize_error_kind kind)"])
         (use assms op PoFail in \<open>simp_all add: memory_process_store_def pm_transition_defs\<close>)
  next
    case (PoKill sc i)
    show ?thesis
      by (rule upd [of sc i PsKilled None])
         (use assms op PoKill in \<open>simp_all add: memory_process_store_def pm_transition_defs\<close>)
  qed
qed

interpretation mem_processes: lifecycle_protocol
  "\<lambda>_. True" PsRunning process_status_of "process_exec memory_process_store" process_opens process_closes
proof
  fix m m' :: "'d process_map" and x r i j
  assume e: "process_exec memory_process_store m x = (m', r)"
  show "process_opens r = Some i \<Longrightarrow>
      process_status_of m i = None \<and> process_status_of m' i = Some PsRunning"
    using memory_process_step [OF e] by auto
  show "process_closes r = Some i \<Longrightarrow> process_status_of m i = Some PsRunning
      \<and> (\<exists>st. st \<noteq> PsRunning \<and> process_status_of m' i = Some st)"
    using memory_process_step [OF e] by auto
  show "status_advances PsRunning (process_status_of m j) (process_status_of m' j)"
    using memory_process_step [OF e] by (elim disjE exE conjE) (simp_all add: status_advances_def)
qed simp

end
