(* ===== verification/Process_Wrappers.thy ===== *)
theory Process_Wrappers
  imports Process_Store Sample_Host
begin

text \<open>
  Decorators of process stores (\<open>ironclaw_processes/src/wrappers.rs\<close>): the store that emits an event
  for every transition, and the store that holds a resource reservation for every running process.
  Each takes the operations of the store it wraps, and the second those of a resource governor, and
  gives operations of the same interface. The guard that releases a reservation when the inner store
  panics is not modelled: nothing of the model panics.
\<close>

section \<open>The store that emits events\<close>

text \<open>The sink is any state with an emission that may fail; its reply is dropped.\<close>

definition emit_best_effort ::
    "('k \<Rightarrow> runtime_event \<Rightarrow> 'k \<times> ('e + unit)) \<Rightarrow> 'k \<Rightarrow> runtime_event \<Rightarrow> 'k" where
  "emit_best_effort emit sink event = fst (emit sink event)"

definition eventing_reply ::
    "('k \<Rightarrow> runtime_event \<Rightarrow> 'k \<times> ('e + unit)) \<Rightarrow> ('d process_record \<Rightarrow> runtime_event) \<Rightarrow> 'k
      \<Rightarrow> 's \<times> (('d, 'f) process_error + 'd process_record)
      \<Rightarrow> ('s \<times> 'k) \<times> (('d, 'f) process_error + 'd process_record)" where
  "eventing_reply emit event_of sink answer =
     (case answer of
        (s, Inl e) \<Rightarrow> ((s, sink), Inl e)
      | (s, Inr record) \<Rightarrow> ((s, emit_best_effort emit sink (event_of record)), Ok record))"

definition started_event :: "ambient \<Rightarrow> 'd process_record \<Rightarrow> runtime_event" where
  "started_event x record =
     process_started (amb_event_id x, amb_later x) (pr_scope record) (pr_capability_id record)
       (pr_extension_id record) (pr_runtime record) (pr_process_id record)"

definition completed_event :: "ambient \<Rightarrow> 'd process_record \<Rightarrow> runtime_event" where
  "completed_event x record =
     process_completed (amb_event_id x, amb_later x) (pr_scope record) (pr_capability_id record)
       (pr_extension_id record) (pr_runtime record) (pr_process_id record)"

definition failed_event :: "ambient \<Rightarrow> 'd process_record \<Rightarrow> runtime_event" where
  "failed_event x record =
     process_failed (amb_event_id x, amb_later x) (pr_scope record) (pr_capability_id record)
       (pr_extension_id record) (pr_runtime record) (pr_process_id record)
       (unwrap_or (pr_error_kind record) ''Unknown'')"

definition killed_event :: "ambient \<Rightarrow> 'd process_record \<Rightarrow> runtime_event" where
  "killed_event x record =
     process_killed (amb_event_id x, amb_later x) (pr_scope record) (pr_capability_id record)
       (pr_extension_id record) (pr_runtime record) (pr_process_id record)"

definition eventing_store ::
    "('s, 'd, 'f, 'v) process_store_ops \<Rightarrow> ('k \<Rightarrow> runtime_event \<Rightarrow> 'k \<times> ('e + unit))
      \<Rightarrow> ('s \<times> 'k, 'd, 'f, 'v) process_store_ops" where
  "eventing_store inner emit =
     \<lparr> ps_start = (\<lambda>x (s, sink) start.
         eventing_reply emit (started_event x) sink (ps_start inner x s start)),
       ps_complete = (\<lambda>x (s, sink) sc i.
         eventing_reply emit (completed_event x) sink (ps_complete inner x s sc i)),
       ps_fail = (\<lambda>kind x (s, sink) sc i.
         eventing_reply emit (failed_event x) sink (ps_fail inner kind x s sc i)),
       ps_kill = (\<lambda>x (s, sink) sc i.
         eventing_reply emit (killed_event x) sink (ps_kill inner x s sc i)),
       ps_get = (\<lambda>(s, sink). ps_get inner s),
       ps_records_for_scope = (\<lambda>(s, sink). ps_records_for_scope inner s) \<rparr>"

section \<open>Resource governors\<close>

record ('g, 'd, 'f) governor_ops =
  gv_reserve :: "ambient \<Rightarrow> 'g \<Rightarrow> resource_scope \<Rightarrow> 'd resource_estimate
      \<Rightarrow> 'g \<times> (('d, 'f) resource_error + 'd resource_reservation)"
  gv_reconcile :: "instant \<Rightarrow> 'g \<Rightarrow> reservation_id \<Rightarrow> 'd resource_usage
      \<Rightarrow> 'g \<times> (('d, 'f) resource_error + 'd resource_receipt)"
  gv_release :: "instant \<Rightarrow> 'g \<Rightarrow> reservation_id \<Rightarrow> 'g \<times> (('d, 'f) resource_error + 'd resource_receipt)"

definition governor_reserve ::
    "('d::linorder, 'f) host_ops \<Rightarrow> ambient \<Rightarrow> ('d, 'f) mem_governor \<Rightarrow> resource_scope \<Rightarrow> 'd resource_estimate
      \<Rightarrow> ('d, 'f) mem_governor \<times> (('d, 'f) resource_error + 'd resource_reservation)" where
  "governor_reserve h x g sc est =
     (let (g', r) = mem_reserve h g sc est (amb_reservation_id x) (amb_now x)
      in (g', case r of Inl e \<Rightarrow> Inl e | Inr outcome \<Rightarrow> Ok (out_reservation outcome)))"

definition memory_governor_ops ::
    "('d::linorder, 'f) host_ops \<Rightarrow> (('d, 'f) mem_governor, 'd, 'f) governor_ops" where
  "memory_governor_ops h =
     \<lparr> gv_reserve = governor_reserve h,
       gv_reconcile = (\<lambda>now g i u. mem_reconcile h g i u now),
       gv_release = (\<lambda>now g i. mem_release h g i now) \<rparr>"

definition usage_default :: "('d, 'f) host_ops \<Rightarrow> 'd resource_usage" where
  "usage_default h =
     \<lparr> use_usd = dec_zero h, use_input_tokens = 0, use_output_tokens = 0, use_wall_clock_ms = 0,
       use_output_bytes = 0, use_network_egress_bytes = 0, use_process_count = 0 \<rparr>"

section \<open>The store that holds reservations\<close>

record ('s, 'g) managed_state =
  mg_inner :: 's
  mg_governor :: 'g
  mg_owned :: "(scope_key, reservation_id) hmap"

definition record_owned_reservation ::
    "('s, 'g) managed_state \<Rightarrow> resource_scope \<Rightarrow> process_id \<Rightarrow> reservation_id \<Rightarrow> ('s, 'g) managed_state" where
  "record_owned_reservation mg sc i rid = mg \<lparr> mg_owned := hput (process_key sc i) rid (mg_owned mg) \<rparr>"

definition take_owned_reservation ::
    "('s, 'g) managed_state \<Rightarrow> resource_scope \<Rightarrow> process_id \<Rightarrow> reservation_id option
      \<Rightarrow> ('s, 'g) managed_state \<times> (('d, 'f) process_error + reservation_id)" where
  "take_owned_reservation mg sc i recorded =
     (case hget (mg_owned mg) (process_key sc i) of
        None \<Rightarrow> (mg, Err (ResourceReservationNotOwned i recorded))
      | Some rid \<Rightarrow>
          (let mg1 = mg \<lparr> mg_owned := hdel (process_key sc i) (mg_owned mg) \<rparr> in
           if Some rid \<noteq> recorded
           then (mg1 \<lparr> mg_owned := hput (process_key sc i) rid (mg_owned mg1) \<rparr>,
                 Err (ResourceReservationMismatch i rid recorded))
           else (mg1, Ok rid)))"

definition release_reservation ::
    "('g, 'd, 'f) governor_ops \<Rightarrow> instant \<Rightarrow> ('s, 'g) managed_state \<Rightarrow> reservation_id
      \<Rightarrow> ('s, 'g) managed_state \<times> (('d, 'f) resource_error + unit)" where
  "release_reservation gov now mg rid =
     (let (g, r) = gv_release gov now (mg_governor mg) rid
      in (mg \<lparr> mg_governor := g \<rparr>, case r of Inl e \<Rightarrow> Inl e | Inr _ \<Rightarrow> Ok ()))"

definition reconcile_reservation ::
    "('g, 'd, 'f) governor_ops \<Rightarrow> 'd resource_usage \<Rightarrow> instant \<Rightarrow> ('s, 'g) managed_state \<Rightarrow> reservation_id
      \<Rightarrow> ('s, 'g) managed_state \<times> (('d, 'f) resource_error + unit)" where
  "reconcile_reservation gov completion_usage now mg rid =
     (let (g, r) = gv_reconcile gov now (mg_governor mg) rid completion_usage
      in (mg \<lparr> mg_governor := g \<rparr>, case r of Inl e \<Rightarrow> Inl e | Inr _ \<Rightarrow> Ok ()))"

text \<open>Giving the reservation back after an error: the error, or both errors.\<close>

definition after_error ::
    "('s, 'g) managed_state \<times> (('d, 'f) resource_error + unit) \<Rightarrow> ('d, 'f) process_error
      \<Rightarrow> ('s, 'g) managed_state \<times> (('d, 'f) process_error + 'd process_record)" where
  "after_error finished original =
     (case finished of
        (mg, Inr _) \<Rightarrow> (mg, Err original)
      | (mg, Inl cleanup) \<Rightarrow> (mg, Err (ResourceCleanupFailed original cleanup)))"

definition managed_start ::
    "('s, 'd, 'f, 'v) process_store_ops \<Rightarrow> ('g, 'd, 'f) governor_ops \<Rightarrow> ambient \<Rightarrow> ('s, 'g) managed_state
      \<Rightarrow> ('d, 'v) process_start \<Rightarrow> ('s, 'g) managed_state \<times> (('d, 'f) process_error + 'd process_record)" where
  "managed_start inner gov x mg start =
     (case st_resource_reservation_id start of
        Some rid \<Rightarrow> (mg, Err (ResourceReservationAlreadyAssigned (st_process_id start) rid))
      | None \<Rightarrow>
          (case gv_reserve gov x (mg_governor mg) (st_scope start) (st_estimated_resources start) of
             (g1, Inl e) \<Rightarrow> (mg \<lparr> mg_governor := g1 \<rparr>, Err (PeResource e))
           | (g1, Inr reservation) \<Rightarrow>
               (let rid = rsv_id reservation;
                    (s1, answer) = ps_start inner x (mg_inner mg) (start \<lparr> st_resource_reservation_id := Some rid \<rparr>);
                    mg1 = mg \<lparr> mg_governor := g1, mg_inner := s1 \<rparr>
                in case answer of
                     Inr record \<Rightarrow>
                       if pr_resource_reservation_id record = Some rid
                       then (record_owned_reservation mg1 (pr_scope record) (pr_process_id record) rid, Ok record)
                       else after_error (release_reservation gov (amb_later x) mg1 rid)
                              (ResourceReservationMismatch (pr_process_id record) rid
                                 (pr_resource_reservation_id record))
                   | Inl e \<Rightarrow> after_error (release_reservation gov (amb_later x) mg1 rid) e)))"

text \<open>The three terminal transitions share their course: look the process up, take its reservation,
  make the transition, settle the reservation.\<close>

definition managed_close ::
    "('s, 'd, 'f, 'v) process_store_ops
      \<Rightarrow> ('s \<Rightarrow> resource_scope \<Rightarrow> process_id \<Rightarrow> 's \<times> (('d, 'f) process_error + 'd process_record))
      \<Rightarrow> (('s, 'g) managed_state \<Rightarrow> reservation_id \<Rightarrow> ('s, 'g) managed_state \<times> (('d, 'f) resource_error + unit))
      \<Rightarrow> ('s, 'g) managed_state \<Rightarrow> resource_scope \<Rightarrow> process_id
      \<Rightarrow> ('s, 'g) managed_state \<times> (('d, 'f) process_error + 'd process_record)" where
  "managed_close inner transition settle mg sc i =
     (case ps_get inner (mg_inner mg) sc i of
        Inl e \<Rightarrow> (mg, Err e)
      | Inr None \<Rightarrow> (mg, Err (UnknownProcess i))
      | Inr (Some current) \<Rightarrow>
          (case take_owned_reservation mg sc i (pr_resource_reservation_id current) of
             (mg1, Inl e) \<Rightarrow> (mg1, Err e)
           | (mg1, Inr rid) \<Rightarrow>
               (let (s1, answer) = transition (mg_inner mg1) sc i; mg2 = mg1 \<lparr> mg_inner := s1 \<rparr> in
                case answer of
                  Inl e \<Rightarrow> (record_owned_reservation mg2 sc i rid, Err e)
                | Inr record \<Rightarrow>
                    if pr_resource_reservation_id record \<noteq> Some rid
                    then after_error (settle mg2 rid)
                           (ResourceReservationMismatch (pr_process_id record) rid
                              (pr_resource_reservation_id record))
                    else (case settle mg2 rid of
                            (mg3, Inl e) \<Rightarrow> (mg3, Err (PeResource e))
                          | (mg3, Inr _) \<Rightarrow> (mg3, Ok record)))))"

definition managed_complete ::
    "('s, 'd, 'f, 'v) process_store_ops \<Rightarrow> ('g, 'd, 'f) governor_ops \<Rightarrow> 'd resource_usage
      \<Rightarrow> (('s, 'g) managed_state, 'd, 'f) process_transition" where
  "managed_complete inner gov usage x mg sc i =
     managed_close inner (ps_complete inner x) (reconcile_reservation gov usage (amb_later x)) mg sc i"

definition managed_fail ::
    "('s, 'd, 'f, 'v) process_store_ops \<Rightarrow> ('g, 'd, 'f) governor_ops \<Rightarrow> string
      \<Rightarrow> (('s, 'g) managed_state, 'd, 'f) process_transition" where
  "managed_fail inner gov kind x mg sc i =
     managed_close inner (ps_fail inner kind x) (release_reservation gov (amb_later x)) mg sc i"

definition managed_kill ::
    "('s, 'd, 'f, 'v) process_store_ops \<Rightarrow> ('g, 'd, 'f) governor_ops
      \<Rightarrow> (('s, 'g) managed_state, 'd, 'f) process_transition" where
  "managed_kill inner gov x mg sc i =
     managed_close inner (ps_kill inner x) (release_reservation gov (amb_later x)) mg sc i"

definition managed_store ::
    "('s, 'd, 'f, 'v) process_store_ops \<Rightarrow> ('g, 'd, 'f) governor_ops \<Rightarrow> 'd resource_usage
      \<Rightarrow> (('s, 'g) managed_state, 'd, 'f, 'v) process_store_ops" where
  "managed_store inner gov usage =
     \<lparr> ps_start = managed_start inner gov, ps_complete = managed_complete inner gov usage,
       ps_fail = managed_fail inner gov, ps_kill = managed_kill inner gov,
       ps_get = (\<lambda>mg. ps_get inner (mg_inner mg)),
       ps_records_for_scope = (\<lambda>mg. ps_records_for_scope inner (mg_inner mg)) \<rparr>"

definition managed_new :: "'s \<Rightarrow> 'g \<Rightarrow> ('s, 'g) managed_state" where
  "managed_new inner gov = \<lparr> mg_inner = inner, mg_governor = gov, mg_owned = [] \<rparr>"

section \<open>Reservations follow processes\<close>

definition settled_as :: "process_status \<Rightarrow> reservation_status" where
  "settled_as s = (case s of PsRunning \<Rightarrow> Active | PsCompleted \<Rightarrow> Reconciled | _ \<Rightarrow> Released)"

lemma settled_as_running [simp]: "settled_as PsRunning = Active"
  by (simp add: settled_as_def)

text \<open>The store owns the reservation of every running process and of no other; the reservation of a
  process is in the state that fits its status; no two processes share one.\<close>

definition managed_ok ::
    "('g \<Rightarrow> reservation_id \<Rightarrow> reservation_status option) \<Rightarrow> ('d process_map, 'g) managed_state \<Rightarrow> bool" where
  "managed_ok status_of mg \<longleftrightarrow>
     (\<forall>k. hget (mg_owned mg) k = (case hget (mg_inner mg) k of
         Some r \<Rightarrow> if pr_status r = PsRunning then pr_resource_reservation_id r else None | None \<Rightarrow> None))
   \<and> (\<forall>k r. hget (mg_inner mg) k = Some r \<longrightarrow>
         (\<exists>rid. pr_resource_reservation_id r = Some rid
            \<and> status_of (mg_governor mg) rid = Some (settled_as (pr_status r))))
   \<and> (\<forall>k k' r r'. hget (mg_inner mg) k = Some r \<longrightarrow> hget (mg_inner mg) k' = Some r' \<longrightarrow>
         pr_resource_reservation_id r = pr_resource_reservation_id r' \<longrightarrow> k = k')"

lemma managed_okD:
  assumes "managed_ok status_of mg"
  shows "hget (mg_owned mg) k = (case hget (mg_inner mg) k of
         Some r \<Rightarrow> if pr_status r = PsRunning then pr_resource_reservation_id r else None | None \<Rightarrow> None)"
    and "hget (mg_inner mg) k = Some r \<Longrightarrow> \<exists>rid. pr_resource_reservation_id r = Some rid
            \<and> status_of (mg_governor mg) rid = Some (settled_as (pr_status r))"
    and "hget (mg_inner mg) k = Some r \<Longrightarrow> hget (mg_inner mg) k' = Some r' \<Longrightarrow>
         pr_resource_reservation_id r = pr_resource_reservation_id r' \<Longrightarrow> k = k'"
  using assms by (simp_all add: managed_ok_def)

text \<open>The invariant after the record of one key and its reservation changed together.\<close>

lemma managed_ok_update:
  assumes ok: "managed_ok status_of mg"
    and rid: "pr_resource_reservation_id r = Some rid" "status_of g rid = Some (settled_as (pr_status r))"
    and frame: "\<And>q. q \<noteq> rid \<Longrightarrow> status_of g q = status_of (mg_governor mg) q"
    and fresh: "\<And>k' r'. hget (mg_inner mg) k' = Some r' \<Longrightarrow> k' \<noteq> k \<Longrightarrow> pr_resource_reservation_id r' \<noteq> Some rid"
    and owned: "hget owned = (hget (mg_owned mg))(k := (if pr_status r = PsRunning then Some rid else None))"
  shows "managed_ok status_of \<lparr> mg_inner = hput k r (mg_inner mg), mg_governor = g, mg_owned = owned \<rparr>"
proof -
  have "\<exists>q. pr_resource_reservation_id r' = Some q \<and> status_of g q = Some (settled_as (pr_status r'))"
    if "hget (mg_inner mg) k' = Some r'" "k' \<noteq> k" for k' r'
    using managed_okD(2) [OF ok that(1)] fresh [OF that] frame by auto
  then show ?thesis
    using managed_okD(1) [OF ok] managed_okD(3) [OF ok] rid fresh owned
    by (simp add: managed_ok_def hmap_simps) metis
qed

lemma managed_ok_governor:
  assumes ok: "managed_ok status_of mg"
    and frame: "\<And>q. status_of (mg_governor mg) q \<noteq> None \<Longrightarrow> status_of g q = status_of (mg_governor mg) q"
  shows "managed_ok status_of (mg \<lparr> mg_governor := g \<rparr>)"
proof -
  have "\<exists>q. pr_resource_reservation_id r = Some q \<and> status_of g q = Some (settled_as (pr_status r))"
    if "hget (mg_inner mg) k = Some r" for k r
    using managed_okD(2) [OF ok that] frame by auto
  then show ?thesis using managed_okD(1) [OF ok] managed_okD(3) [OF ok] by (simp add: managed_ok_def)
qed

lemma memory_transitions:
  "ps_complete memory_process_store x = (\<lambda>m sc i. pm_update_status m sc i PsCompleted None)"
  "ps_fail memory_process_store kind x
     = (\<lambda>m sc i. pm_update_status m sc i PsFailed (Some (sanitize_error_kind kind)))"
  "ps_kill memory_process_store x = (\<lambda>m sc i. pm_update_status m sc i PsKilled None)"
  by (simp_all add: memory_process_store_def pm_transition_defs fun_eq_iff)

text \<open>Closing a process again finds no reservation, before the inner store could refuse the transition.\<close>

lemma managed_kill_again:
  assumes "managed_ok status_of mg" and "hget (mg_inner mg) (process_key sc i) = Some r" and "pr_status r \<noteq> PsRunning"
  shows "managed_kill memory_process_store gov x mg sc i
    = (mg, Err (ResourceReservationNotOwned i (pr_resource_reservation_id r)))"
  using assms
  by (simp add: managed_kill_def managed_close_def memory_process_store_def pm_get_def take_owned_reservation_def
      managed_okD(1))

text \<open>What the store needs of a governor: a reservation it grants was unknown and is active, an active
  reservation can be settled, and nothing else changes.\<close>

locale reservation_governor =
  fixes gov :: "('g, 'd, 'f) governor_ops"
    and status_of :: "'g \<Rightarrow> reservation_id \<Rightarrow> reservation_status option"
    and usage :: "'d resource_usage"
  assumes reserve_Ok: "gv_reserve gov x g sc est = (g', Inr rsv) \<Longrightarrow>
      status_of g (rsv_id rsv) = None \<and> status_of g' = (status_of g)(rsv_id rsv \<mapsto> Active)"
    and reserve_Err: "gv_reserve gov x g sc est = (g', Inl e) \<Longrightarrow> status_of g' = status_of g"
    and reconcile_active: "status_of g i = Some Active \<Longrightarrow>
      \<exists>g' rcp. gv_reconcile gov t g i usage = (g', Ok rcp) \<and> status_of g' = (status_of g)(i \<mapsto> Reconciled)"
    and release_active: "status_of g i = Some Active \<Longrightarrow>
      \<exists>g' rcp. gv_release gov t g i = (g', Ok rcp) \<and> status_of g' = (status_of g)(i \<mapsto> Released)"
begin

lemma settle_active:
  assumes "status_of (mg_governor mg) i = Some Active"
  shows "\<exists>g. release_reservation gov t mg i = (mg \<lparr> mg_governor := g \<rparr>, Ok ())
      \<and> status_of g = (status_of (mg_governor mg))(i \<mapsto> Released)"
    and "\<exists>g. reconcile_reservation gov usage t mg i = (mg \<lparr> mg_governor := g \<rparr>, Ok ())
      \<and> status_of g = (status_of (mg_governor mg))(i \<mapsto> Reconciled)"
  using release_active [OF assms, of t] reconcile_active [OF assms, of t]
  by (auto simp: release_reservation_def reconcile_reservation_def)

lemma start_keeps:
  assumes ok: "managed_ok status_of mg"
  shows "managed_ok status_of (fst (managed_start memory_process_store gov x mg start))"
    (is "managed_ok _ (fst ?starting)")
proof (cases "st_resource_reservation_id start")
  case None
  obtain g1 res where rs: "gv_reserve gov x (mg_governor mg) (st_scope start) (st_estimated_resources start) = (g1, res)"
    by fastforce
  show ?thesis
  proof (cases res)
    case (Inl e)
    then show ?thesis
      using managed_ok_governor [OF ok, of g1] None rs reserve_Err [OF rs [unfolded Inl]]
      by (simp add: managed_start_def)
  next
    case (Inr rsv)
    note granted = reserve_Ok [OF rs [unfolded Inr]]
    let ?k = "process_key (st_scope start) (st_process_id start)"
    let ?start = "start \<lparr> st_resource_reservation_id := Some (rsv_id rsv) \<rparr>"
    have fresh: "hget (mg_inner mg) k = Some r \<Longrightarrow> pr_resource_reservation_id r \<noteq> Some (rsv_id rsv)" for k r
      using managed_okD(2) [OF ok, of k r] granted by auto
    show ?thesis
    proof (cases "hget (mg_inner mg) ?k")
      case free: None
      have "fst ?starting
          = mg \<lparr> mg_governor := g1, mg_inner := hput ?k (started_record ?start) (mg_inner mg),
                 mg_owned := hput ?k (rsv_id rsv) (mg_owned mg) \<rparr>"
        using None rs Inr free
        by (simp add: managed_start_def memory_process_store_def pm_start_free record_owned_reservation_def Let_def)
      moreover have "managed_ok status_of \<lparr> mg_inner = hput ?k (started_record ?start) (mg_inner mg),
          mg_governor = g1, mg_owned = hput ?k (rsv_id rsv) (mg_owned mg) \<rparr>"
        by (rule managed_ok_update [OF ok, of _ "rsv_id rsv"]) (use granted fresh in \<open>auto simp: hmap_simps\<close>)
      ultimately show ?thesis by (cases mg) simp
    next
      case (Some r)
      let ?mg1 = "mg \<lparr> mg_governor := g1, mg_inner := mg_inner mg \<rparr>"
      obtain g where rel: "release_reservation gov (amb_later x) ?mg1 (rsv_id rsv) = (?mg1 \<lparr> mg_governor := g \<rparr>, Ok ())"
        and st: "status_of g = (status_of g1)(rsv_id rsv \<mapsto> Released)"
        using settle_active(1) [of ?mg1 "rsv_id rsv" "amb_later x"] granted by auto
      then have "fst ?starting = mg \<lparr> mg_governor := g \<rparr>"
        using None rs Inr Some
        by (simp add: managed_start_def memory_process_store_def pm_start_known after_error_def Let_def)
      moreover have "managed_ok status_of (mg \<lparr> mg_governor := g \<rparr>)"
        by (rule managed_ok_governor [OF ok]) (use granted st in auto)
      ultimately show ?thesis by simp
    qed
  qed
qed (use ok in \<open>simp add: managed_start_def\<close>)

lemma close_keeps:
  assumes ok: "managed_ok status_of mg" and to: "to \<noteq> PsRunning"
    and settles: "\<And>mg rid. status_of (mg_governor mg) rid = Some Active \<Longrightarrow>
      \<exists>g. settle mg rid = (mg \<lparr> mg_governor := g \<rparr>, Ok ())
        \<and> status_of g = (status_of (mg_governor mg))(rid \<mapsto> settled_as to)"
  shows "managed_ok status_of (fst (managed_close memory_process_store
      (\<lambda>m sc i. pm_update_status m sc i to kind) settle mg sc i))" (is "managed_ok _ (fst ?closing)")
proof -
  let ?k = "process_key sc i"
  consider (unknown) "hget (mg_inner mg) ?k = None"
    | (closed) r where "hget (mg_inner mg) ?k = Some r" "pr_status r \<noteq> PsRunning"
    | (running) r rid where "hget (mg_inner mg) ?k = Some r" "pr_status r = PsRunning"
        "pr_resource_reservation_id r = Some rid" "hget (mg_owned mg) ?k = Some rid"
        "status_of (mg_governor mg) rid = Some Active"
  proof (cases "hget (mg_inner mg) ?k")
    case (Some r)
    then obtain rid where "pr_resource_reservation_id r = Some rid"
        "status_of (mg_governor mg) rid = Some (settled_as (pr_status r))"
      using managed_okD(2) [OF ok Some] by blast
    moreover have "hget (mg_owned mg) ?k = (if pr_status r = PsRunning then pr_resource_reservation_id r else None)"
      using managed_okD(1) [OF ok, of ?k] Some by simp
    ultimately show ?thesis
      using that(2,3) Some by (cases "pr_status r = PsRunning") (auto simp: settled_as_def)
  qed (rule that(1))
  then show ?thesis
  proof cases
    case unknown
    then show ?thesis using ok by (simp add: managed_close_def memory_process_store_def pm_get_def)
  next
    case (closed r)
    then have "hget (mg_owned mg) ?k = None" using managed_okD(1) [OF ok, of ?k] by simp
    then show ?thesis
      using ok closed by (simp add: managed_close_def memory_process_store_def pm_get_def take_owned_reservation_def)
  next
    case (running r rid)
    let ?r = "r \<lparr> pr_status := to, pr_error_kind := kind \<rparr>"
    let ?mg = "mg \<lparr> mg_owned := hdel ?k (mg_owned mg), mg_inner := hput ?k ?r (mg_inner mg) \<rparr>"
    obtain g where g: "settle ?mg rid = (?mg \<lparr> mg_governor := g \<rparr>, Ok ())"
        "status_of g = (status_of (mg_governor mg))(rid \<mapsto> settled_as to)"
      using settles [of ?mg rid] running(5) by auto
    have "fst ?closing = ?mg \<lparr> mg_governor := g \<rparr>"
      using running g
      by (simp add: pm_update_running managed_close_def memory_process_store_def pm_get_def take_owned_reservation_def Let_def)
    moreover have "pr_resource_reservation_id r' \<noteq> Some rid" if "hget (mg_inner mg) k = Some r'" "k \<noteq> ?k" for k r'
      using managed_okD(3) [OF ok that(1) running(1)] that(2) running(3) by auto
    then have "managed_ok status_of \<lparr> mg_inner = hput ?k ?r (mg_inner mg), mg_governor = g,
        mg_owned = hdel ?k (mg_owned mg) \<rparr>"
      by (intro managed_ok_update [OF ok, of _ rid]) (use running to g(2) in \<open>auto simp: hmap_simps\<close>)
    ultimately show ?thesis by (cases mg) simp
  qed
qed

lemma managed_ok_step:
  assumes "managed_ok status_of mg"
  shows "managed_ok status_of (fst (process_exec (managed_store memory_process_store gov usage) mg op))"
proof -
  obtain x a where op: "op = (x, a)" by (cases op)
  note keep = close_keeps [OF assms]
  show ?thesis
  proof (cases a)
    case (PoStart start)
    then show ?thesis
      using start_keeps [OF assms, of x start] op by (simp add: managed_store_def split_def Let_def)
  next
    case (PoComplete sc i)
    have "managed_ok status_of (fst (managed_close memory_process_store (\<lambda>m sc i. pm_update_status m sc i PsCompleted None)
        (reconcile_reservation gov usage (amb_later x)) mg sc i))"
      by (rule keep) (use settle_active(2) in \<open>auto simp: settled_as_def\<close>)
    then show ?thesis
      using PoComplete op by (simp add: managed_store_def managed_complete_def split_def Let_def memory_transitions)
  next
    case (PoFail sc i kind)
    have "managed_ok status_of (fst (managed_close memory_process_store
        (\<lambda>m sc i. pm_update_status m sc i PsFailed (Some (sanitize_error_kind kind)))
        (release_reservation gov (amb_later x)) mg sc i))"
      by (rule keep) (use settle_active(1) in \<open>auto simp: settled_as_def\<close>)
    then show ?thesis
      using PoFail op by (simp add: managed_store_def managed_fail_def split_def Let_def memory_transitions)
  next
    case (PoKill sc i)
    have "managed_ok status_of (fst (managed_close memory_process_store (\<lambda>m sc i. pm_update_status m sc i PsKilled None)
        (release_reservation gov (amb_later x)) mg sc i))"
      by (rule keep) (use settle_active(1) in \<open>auto simp: settled_as_def\<close>)
    then show ?thesis
      using PoKill op by (simp add: managed_store_def managed_kill_def split_def Let_def memory_transitions)
  qed
qed

lemma managed_ok_run:
  "managed_ok status_of mg \<Longrightarrow>
   managed_ok status_of (fst (run_ops (process_exec (managed_store memory_process_store gov usage)) mg ops))"
  by (rule run_ops_invariant [where I = "managed_ok status_of"]) (simp_all add: managed_ok_step)

end

lemma memory_close_active:
  assumes "state_status st i = Some Active"
  shows "\<exists>st' rcp. release_in_state h st i now = (st', Ok rcp)"
    and "\<exists>st' rcp. reconcile_in_state h st i (usage_default h) now = (st', Ok rcp)"
  using assms
  by (auto simp: state_status_def release_in_state_def reconcile_in_state_def validate_usage_def
      usage_default_def Let_def)

interpretation memory_governor: reservation_governor
  "memory_governor_ops h" "\<lambda>g. state_status (gov_state g)" "usage_default h"
  for h :: "('d::linorder, 'f) host_ops"
proof
  fix x and g g' :: "('d, 'f) mem_governor" and sc est rsv e i t
  show "state_status (gov_state g) (rsv_id rsv) = None
      \<and> state_status (gov_state g') = (state_status (gov_state g))(rsv_id rsv \<mapsto> Active)"
    if "gv_reserve (memory_governor_ops h) x g sc est = (g', Inr rsv)"
    using that reserve_status [of h "gov_state g" sc est]
    by (auto simp: memory_governor_ops_def governor_reserve_def mem_reserve_def split: prod.splits sum.splits)
  show "state_status (gov_state g') = state_status (gov_state g)"
    if "gv_reserve (memory_governor_ops h) x g sc est = (g', Inl e)"
    using that reserve_Err(3) [of h "gov_state g" sc est, THEN state_status_cong]
    by (auto simp: memory_governor_ops_def governor_reserve_def mem_reserve_def split: prod.splits sum.splits)
  assume a: "state_status (gov_state g) i = Some Active"
  show "\<exists>g' rcp. gv_reconcile (memory_governor_ops h) t g i (usage_default h) = (g', Ok rcp)
      \<and> state_status (gov_state g') = (state_status (gov_state g))(i \<mapsto> Reconciled)"
    using memory_close_active(2) [OF a, of h t] reconcile_status [of h "gov_state g" i "usage_default h" t]
    by (auto simp: memory_governor_ops_def mem_reconcile_def)
  show "\<exists>g' rcp. gv_release (memory_governor_ops h) t g i = (g', Ok rcp)
      \<and> state_status (gov_state g') = (state_status (gov_state g))(i \<mapsto> Released)"
    using memory_close_active(1) [OF a, of h t] release_status [of h "gov_state g" i t]
    by (auto simp: memory_governor_ops_def mem_release_def)
qed

lemma managed_ok_new: "managed_ok status_of (managed_new [] g)"
  by (simp add: managed_ok_def managed_new_def)

text \<open>(C28) Over any calls of the resource-managed process store, with the in-memory store and governor,
  every process has a reservation of its own, which is active exactly while the process runs,
  reconciled when it completed and released when it failed or was killed; the store owns exactly the
  reservations of the running processes.\<close>

theorem process_reservations_exact:
  assumes "fst (run_ops (process_exec (managed_store memory_process_store (memory_governor_ops h) (usage_default h)))
      (managed_new [] g) ops) = mg"
  shows "hget (mg_owned mg) k = (case hget (mg_inner mg) k of
         Some r \<Rightarrow> if pr_status r = PsRunning then pr_resource_reservation_id r else None | None \<Rightarrow> None)
    \<and> (hget (mg_inner mg) k = Some r \<longrightarrow>
        (\<exists>rid. pr_resource_reservation_id r = Some rid
          \<and> state_status (gov_state (mg_governor mg)) rid = Some (settled_as (pr_status r))
          \<and> (\<forall>k' r'. hget (mg_inner mg) k' = Some r' \<and> pr_resource_reservation_id r' = Some rid \<longrightarrow> k' = k)))"
proof -
  have ok: "managed_ok (\<lambda>g. state_status (gov_state g)) mg"
    using memory_governor.managed_ok_run [OF managed_ok_new, of h g ops] assms by simp
  show ?thesis
  proof (intro conjI impI)
    assume r: "hget (mg_inner mg) k = Some r"
    obtain rid where "pr_resource_reservation_id r = Some rid"
        "state_status (gov_state (mg_governor mg)) rid = Some (settled_as (pr_status r))"
      using managed_okD(2) [OF ok r] by auto
    then show "\<exists>rid. pr_resource_reservation_id r = Some rid
          \<and> state_status (gov_state (mg_governor mg)) rid = Some (settled_as (pr_status r))
          \<and> (\<forall>k' r'. hget (mg_inner mg) k' = Some r' \<and> pr_resource_reservation_id r' = Some rid \<longrightarrow> k' = k)"
      using managed_okD(3) [OF ok _ r] by auto
  qed (rule managed_okD(1) [OF ok])
qed

definition sample_process :: "(int, unit) process_start" where
  "sample_process =
     \<lparr> st_process_id = 5, st_parent_process_id = None, st_invocation_id = 1, st_scope = sample_scope,
       st_authenticated_actor_user_id = None, st_extension_id = ''shell'', st_capability_id = ''shell.run'',
       st_runtime = RtScript, st_grants = [], st_mounts = [], st_estimated_resources = sample_estimate 1,
       st_resource_reservation_id = None, st_input = () \<rparr>"

definition sample_ambient :: "nat \<Rightarrow> ambient" where
  "sample_ambient n =
     \<lparr> amb_now = int n, amb_later = int n, amb_reservation_id = 100 + n, amb_event_id = 200 + n \<rparr>"

definition sample_managed :: "(int process_map, (int, int) mem_governor) managed_state" where
  "sample_managed =
     fst (run_ops (process_exec (managed_store memory_process_store (memory_governor_ops sample_host)
         (usage_default sample_host))) (managed_new [] mem_new)
       [(sample_ambient 1, PoStart sample_process), (sample_ambient 2, PoKill sample_scope 5)])"

theorem process_reservations_exact_witness:
  "\<exists>r rid. hget (mg_inner sample_managed) (process_key sample_scope 5) = Some r
     \<and> pr_resource_reservation_id r = Some rid
     \<and> state_status (gov_state (mg_governor sample_managed)) rid = Some Released"
proof -
  have "map_option pr_status (hget (mg_inner sample_managed) (process_key sample_scope 5)) = Some PsKilled"
    by (simp add: sample_managed_def managed_new_def managed_store_def managed_start_def managed_kill_def
        managed_close_def memory_process_store_def memory_governor_ops_def governor_reserve_def
        mem_reserve_def mem_release_def pm_start_def pm_get_def pm_kill_def pm_update_status_def
        ensure_status_transition_def record_owned_reservation_def take_owned_reservation_def
        release_reservation_def sample_process_def sample_ambient_def started_record_def
        process_key_def Let_def governor_eval)
  then obtain r where r: "hget (mg_inner sample_managed) (process_key sample_scope 5) = Some r"
      "pr_status r = PsKilled" by auto
  show ?thesis
    using process_reservations_exact [OF sample_managed_def [symmetric], of "process_key sample_scope 5" r] r
    by (auto simp: settled_as_def)
qed

section \<open>Events follow transitions\<close>

fun transition_events :: "ambient \<times> ('d, 'v) process_op \<Rightarrow> ('d, 'f) process_resp \<Rightarrow> runtime_event list" where
  "transition_events (x, PoStart _) (PrStarted (Inr r)) = [started_event x r]"
| "transition_events (x, PoComplete _ _) (PrClosed _ _ (Inr r)) = [completed_event x r]"
| "transition_events (x, PoFail _ _ _) (PrClosed _ _ (Inr r)) = [failed_event x r]"
| "transition_events (x, PoKill _ _) (PrClosed _ _ (Inr r)) = [killed_event x r]"
| "transition_events _ _ = []"

lemma transition_events_redacted: "list_all redacted (transition_events op r)"
  by (induction op r rule: transition_events.induct)
     (auto simp: started_event_def completed_event_def failed_event_def killed_event_def
        intro!: constructed_redacted [THEN conjunct1] constructed.intros)

lemma all_events_redacted: "list_all redacted (concat (map2 transition_events ops rs))"
  using transition_events_redacted by (force simp: list_all_iff)

lemma eventing_step:
  "process_exec (eventing_store inner emit) (s, sink) op
   = ((fst (process_exec inner s op),
       foldl (emit_best_effort emit) sink (transition_events op (snd (process_exec inner s op)))),
      snd (process_exec inner s op))"
proof -
  obtain x a where op: "op = (x, a)" by (cases op)
  show ?thesis
    unfolding op by (cases a) (auto simp: eventing_store_def eventing_reply_def Let_def split: prod.splits sum.splits)
qed

text \<open>(C32) Wrapping a store with events changes neither its states nor its answers, even when the sink
  fails; the sink gets one event for every transition that succeeded, in order, none for one that
  failed, and every event is redacted.\<close>

theorem eventing_transparent:
  "run_ops (process_exec (eventing_store inner emit)) (s, sink) ops
     = ((fst (run_ops (process_exec inner) s ops),
         foldl (emit_best_effort emit) sink
           (concat (map2 transition_events ops (snd (run_ops (process_exec inner) s ops))))),
        snd (run_ops (process_exec inner) s ops))
   \<and> list_all redacted (concat (map2 transition_events ops (snd (run_ops (process_exec inner) s ops))))"
proof -
  have "run_ops (process_exec (eventing_store inner emit)) (s, sink) ops
     = ((fst (run_ops (process_exec inner) s ops),
         foldl (emit_best_effort emit) sink
           (concat (map2 transition_events ops (snd (run_ops (process_exec inner) s ops))))),
        snd (run_ops (process_exec inner) s ops))"
    by (induction ops arbitrary: s sink) (simp_all add: eventing_step split_def Let_def)
  then show ?thesis using all_events_redacted by blast
qed

end
