(* ===== verification/Process_Host.thy ===== *)
theory Process_Host
  imports Process_Wrappers Interleaving
begin

text \<open>
  The process host and the background manager (\<open>ironclaw_processes\<close>: \<open>cancellation.rs\<close>, \<open>host.rs\<close>,
  \<open>services.rs\<close>): cancellation tokens, the queries, kills and waits of the host, and the task that
  the manager spawns for a process. Kills and background tasks run as interleaved tasks over the
  shared stores, one step per call; a call may fail without effect. A wait is a function of what its
  polls read. The executor is an arbitrary outcome that arrives at some step.
\<close>

section \<open>Cancellation\<close>

text \<open>A token is the number of its flag; a clone of a token is the same number.\<close>

record cancellation_registry =
  cr_tokens :: "(scope_key, nat) hmap"
  cr_flags :: "bool list"

definition registry_new :: cancellation_registry where
  "registry_new = \<lparr> cr_tokens = [], cr_flags = [] \<rparr>"

definition token_new :: "cancellation_registry \<Rightarrow> cancellation_registry \<times> nat" where
  "token_new reg = (reg \<lparr> cr_flags := cr_flags reg @ [False] \<rparr>, length (cr_flags reg))"

definition token_cancel :: "cancellation_registry \<Rightarrow> nat \<Rightarrow> cancellation_registry" where
  "token_cancel reg t = reg \<lparr> cr_flags := (cr_flags reg)[t := True] \<rparr>"

definition token_is_cancelled :: "cancellation_registry \<Rightarrow> nat \<Rightarrow> bool" where
  "token_is_cancelled reg t = (t < length (cr_flags reg) \<and> cr_flags reg ! t)"

definition registry_register ::
    "cancellation_registry \<Rightarrow> resource_scope \<Rightarrow> process_id \<Rightarrow> cancellation_registry \<times> nat" where
  "registry_register reg sc i =
     (let (reg1, t) = token_new reg
      in (reg1 \<lparr> cr_tokens := hput (process_key sc i) t (cr_tokens reg1) \<rparr>, t))"

definition registry_cancel ::
    "cancellation_registry \<Rightarrow> resource_scope \<Rightarrow> process_id \<Rightarrow> cancellation_registry \<times> bool" where
  "registry_cancel reg sc i =
     (case hget (cr_tokens reg) (process_key sc i) of
        None \<Rightarrow> (reg, False)
      | Some t \<Rightarrow> (token_cancel (reg \<lparr> cr_tokens := hdel (process_key sc i) (cr_tokens reg) \<rparr>) t, True))"

definition registry_unregister :: "cancellation_registry \<Rightarrow> resource_scope \<Rightarrow> process_id \<Rightarrow> cancellation_registry" where
  "registry_unregister reg sc i = reg \<lparr> cr_tokens := hdel (process_key sc i) (cr_tokens reg) \<rparr>"

section \<open>The shared state\<close>

datatype background_failure_stage =
  StoreLookup | StoreComplete | StoreFail | ResultStoreComplete | ResultStoreFail

record ('d, 'f) background_failure =
  bf_scope :: resource_scope
  bf_process_id :: process_id
  bf_stage :: background_failure_stage
  bf_error :: "('d, 'f) process_error"

text \<open>The stores, the registry and the failures handed to the error handler. The registry and the
  result store are optional, as in the builders.\<close>

record ('d, 'f, 'v) process_world =
  pw_store :: "'d process_map"
  pw_results :: "'v result_map option"
  pw_registry :: "cancellation_registry option"
  pw_failures :: "('d, 'f) background_failure list"

text \<open>The services bundle both.\<close>

definition services_in_memory :: "('d, 'f, 'v) process_world" where
  "services_in_memory =
     \<lparr> pw_store = [], pw_results = Some [], pw_registry = Some registry_new, pw_failures = [] \<rparr>"

definition report_failure ::
    "resource_scope \<Rightarrow> process_id \<Rightarrow> background_failure_stage \<Rightarrow> ('d, 'f) process_error
      \<Rightarrow> ('d, 'f, 'v) process_world \<Rightarrow> ('d, 'f, 'v) process_world" where
  "report_failure sc i stage e w =
     w \<lparr> pw_failures := pw_failures w
         @ [\<lparr> bf_scope = sc, bf_process_id = i, bf_stage = stage, bf_error = e \<rparr>] \<rparr>"

section \<open>Queries\<close>

definition host_status ::
    "('d, 'f, 'v) process_world \<Rightarrow> resource_scope \<Rightarrow> process_id \<Rightarrow> ('d, 'f) process_error + 'd process_record option" where
  "host_status w sc i = pm_get (pw_store w) sc i"

definition host_result ::
    "('d, 'f, 'v) process_world \<Rightarrow> resource_scope \<Rightarrow> process_id
      \<Rightarrow> ('d, 'f) process_error + 'v process_result_record option" where
  "host_result w sc i =
     (case pw_results w of None \<Rightarrow> Err ProcessResultStoreUnavailable | Some m \<Rightarrow> Ok (rm_get m sc i))"

definition host_output ::
    "('d, 'f, 'v) process_world \<Rightarrow> resource_scope \<Rightarrow> process_id \<Rightarrow> ('d, 'f) process_error + 'v option" where
  "host_output w sc i =
     (case pw_results w of None \<Rightarrow> Err ProcessResultStoreUnavailable | Some m \<Rightarrow> Ok (rm_output m sc i))"

section \<open>Waiting\<close>

text \<open>A poll of \<open>await_process\<close> reads the state once; one of \<open>await_result\<close> reads the result in one state
  and the record in a later one. The lists hold the states the polls meet; \<open>None\<close> says that the wait
  goes on after them.\<close>

fun await_process ::
    "resource_scope \<Rightarrow> process_id \<Rightarrow> ('d, 'f, 'v) process_world list \<Rightarrow> (('d, 'f) process_error + process_exit) option" where
  "await_process sc i [] = None"
| "await_process sc i (w # ws) =
     (case host_status w sc i of
        Inl e \<Rightarrow> Some (Err e)
      | Inr None \<Rightarrow> Some (Err (UnknownProcess i))
      | Inr (Some record) \<Rightarrow>
          if process_is_terminal (pr_status record) then Some (Ok (exit_from_terminal record))
          else await_process sc i ws)"

fun await_result_from ::
    "bool \<Rightarrow> resource_scope \<Rightarrow> process_id \<Rightarrow> (('d, 'f, 'v) process_world \<times> ('d, 'f, 'v) process_world) list
      \<Rightarrow> (('d, 'f) process_error + 'v process_result_record) option" where
  "await_result_from seen sc i [] = None"
| "await_result_from seen sc i ((w, w') # ws) =
     (case host_result w sc i of
        Inl e \<Rightarrow> Some (Err e)
      | Inr (Some result) \<Rightarrow> Some (Ok result)
      | Inr None \<Rightarrow>
          (case host_status w' sc i of
             Inl e \<Rightarrow> Some (Err e)
           | Inr None \<Rightarrow> Some (Err (UnknownProcess i))
           | Inr (Some record) \<Rightarrow>
               if process_is_terminal (pr_status record)
               then (if pw_results w' = None \<or> seen then Some (Err (ProcessResultUnavailable i))
                     else await_result_from True sc i ws)
               else await_result_from False sc i ws))"

definition await_result where
  "await_result sc i ws = await_result_from False sc i ws"

section \<open>Subscriptions\<close>

record 'd process_subscription =
  sub_scope :: resource_scope
  sub_process_id :: process_id
  sub_last_status :: "process_status option"
  sub_pending_initial :: "'d process_record option"
  sub_finished :: bool

definition host_subscribe ::
    "('d, 'f, 'v) process_world \<Rightarrow> resource_scope \<Rightarrow> process_id
      \<Rightarrow> ('d, 'f) process_error + 'd process_subscription" where
  "host_subscribe w sc i =
     (case host_status w sc i of
        Inl e \<Rightarrow> Err e
      | Inr None \<Rightarrow> Err (UnknownProcess i)
      | Inr (Some record) \<Rightarrow>
          Ok \<lparr> sub_scope = sc, sub_process_id = i, sub_last_status = Some (pr_status record),
               sub_pending_initial = Some record, sub_finished = False \<rparr>)"

fun subscription_poll ::
    "'d process_subscription \<Rightarrow> ('d, 'f, 'v) process_world list
      \<Rightarrow> 'd process_subscription \<times> (('d, 'f) process_error + 'd process_record option) option" where
  "subscription_poll sub [] = (sub, None)"
| "subscription_poll sub (w # ws) =
     (case host_status w (sub_scope sub) (sub_process_id sub) of
        Inl e \<Rightarrow> (sub, Some (Err e))
      | Inr None \<Rightarrow> (sub, Some (Err (UnknownProcess (sub_process_id sub))))
      | Inr (Some record) \<Rightarrow>
          if Some (pr_status record) \<noteq> sub_last_status sub
          then (sub \<lparr> sub_last_status := Some (pr_status record),
                      sub_finished := (if process_is_terminal (pr_status record) then True else sub_finished sub) \<rparr>,
                Some (Ok (Some record)))
          else subscription_poll sub ws)"

definition subscription_next ::
    "'d process_subscription \<Rightarrow> ('d, 'f, 'v) process_world list
      \<Rightarrow> 'd process_subscription \<times> (('d, 'f) process_error + 'd process_record option) option" where
  "subscription_next sub ws =
     (case sub_pending_initial sub of
        Some record \<Rightarrow>
          (sub \<lparr> sub_pending_initial := None,
                 sub_finished := (if process_is_terminal (pr_status record) then True else sub_finished sub) \<rparr>,
           Some (Ok (Some record)))
      | None \<Rightarrow> if sub_finished sub then (sub, Some (Ok None)) else subscription_poll sub ws)"

section \<open>Kills\<close>

text \<open>The effects of a kill after the status: cancel the token, then write the result record. The first
  argument is the failure of the result store, if it fails.\<close>

definition record_kill_side_effects ::
    "('d, 'f) process_error option \<Rightarrow> ('d, 'f, 'v) process_world \<Rightarrow> 'd process_record
      \<Rightarrow> ('d, 'f, 'v) process_world \<times> (('d, 'f) process_error + unit)" where
  "record_kill_side_effects fault w record =
     (let w1 = w \<lparr> pw_registry := map_option (\<lambda>reg. fst (registry_cancel reg (pr_scope record) (pr_process_id record)))
                                    (pw_registry w) \<rparr>
      in case pw_results w1 of
           None \<Rightarrow> (w1, Ok ())
         | Some m \<Rightarrow>
             (case fault of
                Some e \<Rightarrow> (w1, Err e)
              | None \<Rightarrow> (w1 \<lparr> pw_results := Some (fst (rm_kill m (pr_scope record) (pr_process_id record))) \<rparr>, Ok ())))"

definition host_kill ::
    "('d, 'f) process_error option \<Rightarrow> ('d, 'f, 'v) process_world \<Rightarrow> resource_scope \<Rightarrow> process_id
      \<Rightarrow> ('d, 'f, 'v) process_world \<times> (('d, 'f) process_error + 'd process_record)" where
  "host_kill fault w sc i =
     (case pm_kill (pw_store w) sc i of
        (m, Inr record) \<Rightarrow>
          (case record_kill_side_effects fault (w \<lparr> pw_store := m \<rparr>) record of
             (w1, Inl e) \<Rightarrow> (w1, Err e)
           | (w1, Inr _) \<Rightarrow> (w1, Ok record))
      | (m, Inl error) \<Rightarrow>
          (let w1 = w \<lparr> pw_store := m \<rparr> in
           case (pm_get m sc i :: ('d, 'f) process_error + 'd process_record option) of
             Inr (Some record) \<Rightarrow>
               if pr_status record = PsKilled
               then (case record_kill_side_effects fault w1 record of
                       (w2, Inl e) \<Rightarrow> (w2, Err e)
                     | (w2, Inr _) \<Rightarrow>
                         (w2, case error of InvalidTransition _ _ _ \<Rightarrow> Ok record | _ \<Rightarrow> Err error))
               else (w1, Err error)
           | _ \<Rightarrow> (w1, Err error)))"

section \<open>Background tasks\<close>

datatype 'v execution_outcome = ExecOk 'v | ExecErr string | ExecPanic

record ('d, 'v) process_execution_request =
  xr_process_id :: process_id
  xr_invocation_id :: invocation_id
  xr_scope :: resource_scope
  xr_authenticated_actor_user_id :: "user_id option"
  xr_extension_id :: extension_id
  xr_capability_id :: capability_id
  xr_runtime :: runtime_kind
  xr_estimate :: "'d resource_estimate"
  xr_mounts :: mount_view
  xr_resource_reservation :: "'d resource_reservation option"
  xr_input :: 'v
  xr_cancellation :: "nat option"

definition execution_request :: "'d process_record \<Rightarrow> 'v \<Rightarrow> nat option \<Rightarrow> ('d, 'v) process_execution_request" where
  "execution_request record input token =
     \<lparr> xr_process_id = pr_process_id record, xr_invocation_id = pr_invocation_id record,
       xr_scope = pr_scope record,
       xr_authenticated_actor_user_id = pr_authenticated_actor_user_id record,
       xr_extension_id = pr_extension_id record, xr_capability_id = pr_capability_id record,
       xr_runtime = pr_runtime record, xr_estimate = pr_estimated_resources record,
       xr_mounts = pr_mounts record,
       xr_resource_reservation = map_option (\<lambda>rid. \<lparr> rsv_id = rid, rsv_scope = pr_scope record,
           rsv_estimate = pr_estimated_resources record \<rparr>) (pr_resource_reservation_id record),
       xr_input = input, xr_cancellation = token \<rparr>"

text \<open>The points of a task between its calls: of a spawn and the task it leaves behind, and of a kill.
  A task notes the key of the process it has closed.\<close>

datatype ('d, 'f, 'v) process_task =
    TSpawn "('d, 'v) process_start"
  | TRegister "'d process_record" 'v
  | TExecuting "('d, 'v) process_execution_request"
  | TFinished resource_scope process_id "'v execution_outcome"
  | TPublish resource_scope process_id "'v execution_outcome"
  | TSettle resource_scope process_id "'v execution_outcome"
  | TUnregister resource_scope process_id "scope_key option"
  | TSpawnDone "scope_key option"
  | TSpawnFailed "('d, 'f) process_error"
  | TKill resource_scope process_id
  | TKillLookup resource_scope process_id "('d, 'f) process_error"
  | TKillCancel "'d process_record" "scope_key option" "('d, 'f) process_error + 'd process_record"
  | TKillResult "'d process_record" "scope_key option" "('d, 'f) process_error + 'd process_record"
  | TKillDone "scope_key option" "('d, 'f) process_error + 'd process_record"

text \<open>What a step meets: the failure of its store call, if any, and the outcome of the executor.\<close>

record ('d, 'f, 'v) process_choice =
  ch_fault :: "('d, 'f) process_error option"
  ch_outcome :: "'v execution_outcome"

definition failing :: "('d, 'f) process_error option \<Rightarrow> 's \<Rightarrow> 's \<times> (('d, 'f) process_error + 'a)
    \<Rightarrow> 's \<times> (('d, 'f) process_error + 'a)" where
  "failing fault s call = (case fault of None \<Rightarrow> call | Some e \<Rightarrow> (s, Err e))"

definition failure_kind :: "'v execution_outcome \<Rightarrow> string" where
  "failure_kind oc = (case oc of ExecErr kind \<Rightarrow> sanitize_error_kind kind | _ \<Rightarrow> ''runtime_panic'')"

definition publish_result :: "'v result_map \<Rightarrow> resource_scope \<Rightarrow> process_id \<Rightarrow> 'v execution_outcome \<Rightarrow> 'v result_map" where
  "publish_result m sc i oc =
     (case oc of ExecOk output \<Rightarrow> fst (rm_complete m sc i output) | _ \<Rightarrow> fst (rm_fail m sc i (failure_kind oc)))"

definition publish_stage :: "'v execution_outcome \<Rightarrow> background_failure_stage" where
  "publish_stage oc = (case oc of ExecOk _ \<Rightarrow> ResultStoreComplete | _ \<Rightarrow> ResultStoreFail)"

definition settle_status ::
    "'d process_map \<Rightarrow> resource_scope \<Rightarrow> process_id \<Rightarrow> 'v execution_outcome
      \<Rightarrow> 'd process_map \<times> (('d, 'f) process_error + 'd process_record)" where
  "settle_status m sc i oc =
     (case oc of ExecOk _ \<Rightarrow> pm_complete m sc i | _ \<Rightarrow> pm_fail m sc i (failure_kind oc))"

definition settle_stage :: "'v execution_outcome \<Rightarrow> background_failure_stage" where
  "settle_stage oc = (case oc of ExecOk _ \<Rightarrow> StoreComplete | _ \<Rightarrow> StoreFail)"

fun process_tstep ::
    "('d, 'f, 'v) process_choice \<Rightarrow> ('d, 'f, 'v) process_world \<Rightarrow> ('d, 'f, 'v) process_task
      \<Rightarrow> ('d, 'f, 'v) process_world \<times> ('d, 'f, 'v) process_task" where
  "process_tstep c w (TSpawn start) =
     (case failing (ch_fault c) (pw_store w) (pm_start (pw_store w) start) of
        (m, Inl e) \<Rightarrow> (w \<lparr> pw_store := m \<rparr>, TSpawnFailed e)
      | (m, Inr record) \<Rightarrow> (w \<lparr> pw_store := m \<rparr>, TRegister record (st_input start)))"
| "process_tstep c w (TRegister record input) =
     (case pw_registry w of
        None \<Rightarrow> (w, TExecuting (execution_request record input None))
      | Some reg \<Rightarrow>
          (let (reg', t) = registry_register reg (pr_scope record) (pr_process_id record)
           in (w \<lparr> pw_registry := Some reg' \<rparr>, TExecuting (execution_request record input (Some t)))))"
| "process_tstep c w (TExecuting request) =
     (w, TFinished (xr_scope request) (xr_process_id request) (ch_outcome c))"
| "process_tstep c w (TFinished sc i oc) =
     (case snd (failing (ch_fault c) (pw_store w) (pw_store w, pm_get (pw_store w) sc i)) of
        Inl e \<Rightarrow> (report_failure sc i StoreLookup e w, TUnregister sc i None)
      | Inr None \<Rightarrow> (w, TUnregister sc i None)
      | Inr (Some record) \<Rightarrow>
          (w, if pr_status record = PsRunning then TPublish sc i oc else TUnregister sc i None))"
| "process_tstep c w (TPublish sc i oc) =
     (case pw_results w of
        None \<Rightarrow> (w, TSettle sc i oc)
      | Some m \<Rightarrow>
          (case ch_fault c of
             Some e \<Rightarrow> (report_failure sc i (publish_stage oc) e w, TUnregister sc i None)
           | None \<Rightarrow> (w \<lparr> pw_results := Some (publish_result m sc i oc) \<rparr>, TSettle sc i oc)))"
| "process_tstep c w (TSettle sc i oc) =
     (case failing (ch_fault c) (pw_store w) (settle_status (pw_store w) sc i oc) of
        (m, Inl e) \<Rightarrow> (report_failure sc i (settle_stage oc) e (w \<lparr> pw_store := m \<rparr>), TUnregister sc i None)
      | (m, Inr record) \<Rightarrow> (w \<lparr> pw_store := m \<rparr>, TUnregister sc i (Some (process_key sc i))))"
| "process_tstep c w (TUnregister sc i closed) =
     (w \<lparr> pw_registry := map_option (\<lambda>reg. registry_unregister reg sc i) (pw_registry w) \<rparr>,
      TSpawnDone closed)"
| "process_tstep c w (TKill sc i) =
     (case failing (ch_fault c) (pw_store w) (pm_kill (pw_store w) sc i) of
        (m, Inl e) \<Rightarrow> (w \<lparr> pw_store := m \<rparr>, TKillLookup sc i e)
      | (m, Inr record) \<Rightarrow> (w \<lparr> pw_store := m \<rparr>, TKillCancel record (Some (process_key sc i)) (Ok record)))"
| "process_tstep c w (TKillLookup sc i e) =
     (case snd (failing (ch_fault c) (pw_store w) (pw_store w, pm_get (pw_store w) sc i)) of
        Inr (Some record) \<Rightarrow>
          (w, if pr_status record = PsKilled
              then TKillCancel record None (case e of InvalidTransition _ _ _ \<Rightarrow> Ok record | _ \<Rightarrow> Err e)
              else TKillDone None (Err e))
      | _ \<Rightarrow> (w, TKillDone None (Err e)))"
| "process_tstep c w (TKillCancel record closed reply) =
     (w \<lparr> pw_registry := map_option (\<lambda>reg. fst (registry_cancel reg (pr_scope record) (pr_process_id record)))
            (pw_registry w) \<rparr>, TKillResult record closed reply)"
| "process_tstep c w (TKillResult record closed reply) =
     (case pw_results w of
        None \<Rightarrow> (w, TKillDone closed reply)
      | Some m \<Rightarrow>
          (case ch_fault c of
             Some e \<Rightarrow> (w, TKillDone closed (Err e))
           | None \<Rightarrow> (w \<lparr> pw_results := Some (fst (rm_kill m (pr_scope record) (pr_process_id record))) \<rparr>,
                      TKillDone closed reply)))"
| "process_tstep c w t = (w, t)"

section \<open>Runs\<close>

definition process_starts :: "('d, 'f, 'v) process_task \<Rightarrow> bool" where
  "process_starts t = (case t of TSpawn _ \<Rightarrow> True | TKill _ _ \<Rightarrow> True | _ \<Rightarrow> False)"

abbreviation process_steps ::
    "('d, 'f, 'v) process_world \<times> ('d, 'f, 'v) process_task list
      \<Rightarrow> ('d, 'f, 'v) process_world \<times> ('d, 'f, 'v) process_task list \<Rightarrow> bool" where
  "process_steps \<equiv> system_steps process_tstep (\<lambda>(_ :: unit) w. w) (\<lambda>_. False) process_starts"

definition task_closed :: "('d, 'f, 'v) process_task \<Rightarrow> scope_key option" where
  "task_closed t =
     (case t of TUnregister _ _ k \<Rightarrow> k | TSpawnDone k \<Rightarrow> k | TKillCancel _ k _ \<Rightarrow> k
      | TKillResult _ k _ \<Rightarrow> k | TKillDone k _ \<Rightarrow> k | _ \<Rightarrow> None)"

definition process_closed :: "('d, 'f, 'v) process_world \<Rightarrow> scope_key \<Rightarrow> bool" where
  "process_closed w k = (\<exists>st. process_status_of (pw_store w) k = Some st \<and> st \<noteq> PsRunning)"

definition result_present :: "('d, 'f, 'v) process_world \<Rightarrow> scope_key \<Rightarrow> bool" where
  "result_present w k = (case pw_results w of None \<Rightarrow> True | Some m \<Rightarrow> hget m k \<noteq> None)"

text \<open>What one step does to the process store: nothing, a start, or closing a running process.\<close>

lemma settle_status_update:
  "settle_status m sc i oc
   = pm_update_status m sc i (case oc of ExecOk _ \<Rightarrow> PsCompleted | _ \<Rightarrow> PsFailed)
       (case oc of ExecOk _ \<Rightarrow> None | _ \<Rightarrow> Some (sanitize_error_kind (failure_kind oc)))"
  by (cases oc) (simp_all add: settle_status_def pm_complete_def pm_fail_def)

lemma failing_cases:
  "failing fault s call = (s', r) \<Longrightarrow> (\<exists>e. r = Err e \<and> s' = s) \<or> call = (s', r)"
  by (auto simp: failing_def split: option.splits)

lemma task_closed_simps [simp]:
  "task_closed (TSpawn start) = None" "task_closed (TRegister rec input) = None"
  "task_closed (TExecuting request) = None" "task_closed (TFinished sc i oc) = None"
  "task_closed (TPublish sc i oc) = None" "task_closed (TSettle sc i oc) = None"
  "task_closed (TUnregister sc i k) = k" "task_closed (TSpawnDone k) = k"
  "task_closed (TSpawnFailed e) = None" "task_closed (TKill sc i) = None"
  "task_closed (TKillLookup sc i e) = None" "task_closed (TKillCancel rec k reply) = k"
  "task_closed (TKillResult rec k reply) = k" "task_closed (TKillDone k reply) = k"
  by (simp_all add: task_closed_def)

lemma start_status_of:
  assumes "pm_start m start = (m', r)"
  shows "(\<exists>e. r = Err e \<and> m' = m) \<or> (\<exists>rec k. r = Ok rec \<and> process_status_of m k = None
      \<and> process_status_of m' = (process_status_of m)(k \<mapsto> PsRunning))"
  using assms by (cases rule: pm_start_cases) (auto simp: process_status_of_def hmap_simps fun_eq_iff)

lemma update_status_of:
  assumes "pm_update_status m sc i to kind = (m', r)"
  shows "(\<exists>rec. r = Ok rec \<and> process_status_of m (process_key sc i) = Some PsRunning
        \<and> process_status_of m' = (process_status_of m)(process_key sc i \<mapsto> to))
    \<or> (\<exists>e. r = Err e \<and> m' = m)"
  using assms by (cases rule: pm_update_cases) (auto simp: process_status_of_def hmap_simps fun_eq_iff)

lemma process_step_status:
  assumes "process_tstep c w t = (w', t')"
  shows "pw_store w' = pw_store w \<and> (task_closed t' = None \<or> task_closed t' = task_closed t)
     \<or> (\<exists>k. process_status_of (pw_store w) k = None \<and> task_closed t' = None
          \<and> process_status_of (pw_store w') = (process_status_of (pw_store w))(k \<mapsto> PsRunning))
     \<or> (\<exists>k st. process_status_of (pw_store w) k = Some PsRunning \<and> st \<noteq> PsRunning \<and> task_closed t' = Some k
          \<and> process_status_of (pw_store w') = (process_status_of (pw_store w))(k \<mapsto> st)
          \<and> (st = PsKilled \<or> (\<exists>sc i oc. t = TSettle sc i oc \<and> k = process_key sc i)))"
proof (cases t)
  case (TSpawn start)
  obtain m r where u: "failing (ch_fault c) (pw_store w) (pm_start (pw_store w) start) = (m, r)" by fastforce
  have s: "(\<exists>e. r = Err e \<and> m = pw_store w) \<or> (\<exists>rec k. r = Ok rec \<and> process_status_of (pw_store w) k = None
      \<and> process_status_of m = (process_status_of (pw_store w))(k \<mapsto> PsRunning))"
    using failing_cases [OF u] start_status_of by blast
  from s show ?thesis
  proof (elim disjE exE conjE)
    fix rec k
    assume "r = Ok rec" "process_status_of (pw_store w) k = None"
      "process_status_of m = (process_status_of (pw_store w))(k \<mapsto> PsRunning)"
    then show ?thesis using assms TSpawn u by (intro disjI2 disjI1 exI [of _ k]) auto
  qed (use assms TSpawn u in auto)
next
  case (TSettle sc i oc)
  obtain m r where u: "failing (ch_fault c) (pw_store w) (settle_status (pw_store w) sc i oc) = (m, r)" by fastforce
  let ?to = "case oc of ExecOk _ \<Rightarrow> PsCompleted | _ \<Rightarrow> PsFailed"
  have s: "(\<exists>e. r = Err e \<and> m = pw_store w)
      \<or> (\<exists>rec. r = Ok rec \<and> process_status_of (pw_store w) (process_key sc i) = Some PsRunning
        \<and> process_status_of m = (process_status_of (pw_store w))(process_key sc i \<mapsto> ?to))"
    using failing_cases [OF u] update_status_of unfolding settle_status_update by blast
  have "?to \<noteq> PsRunning" by (cases oc) auto
  with s show ?thesis
  proof (elim disjE exE conjE)
    fix rec
    assume "r = Ok rec" "process_status_of (pw_store w) (process_key sc i) = Some PsRunning"
      "process_status_of m = (process_status_of (pw_store w))(process_key sc i \<mapsto> ?to)" "?to \<noteq> PsRunning"
    then show ?thesis
      using assms TSettle u by (intro disjI2 exI [of _ "process_key sc i"] exI [of _ ?to]) auto
  qed (use assms TSettle u in \<open>auto simp: report_failure_def\<close>)
next
  case (TKill sc i)
  obtain m r where u: "failing (ch_fault c) (pw_store w) (pm_kill (pw_store w) sc i) = (m, r)" by fastforce
  have s: "(\<exists>e. r = Err e \<and> m = pw_store w)
      \<or> (\<exists>rec. r = Ok rec \<and> process_status_of (pw_store w) (process_key sc i) = Some PsRunning
        \<and> process_status_of m = (process_status_of (pw_store w))(process_key sc i \<mapsto> PsKilled))"
    using failing_cases [OF u] update_status_of unfolding pm_kill_def by blast
  then show ?thesis
  proof (elim disjE exE conjE)
    fix rec
    assume "r = Ok rec" "process_status_of (pw_store w) (process_key sc i) = Some PsRunning"
      "process_status_of m = (process_status_of (pw_store w))(process_key sc i \<mapsto> PsKilled)"
    then show ?thesis
      using assms TKill u by (intro disjI2 exI [of _ "process_key sc i"] exI [of _ PsKilled]) auto
  qed (use assms TKill u in auto)
next
  case (TRegister rec input)
  then show ?thesis
    using assms by (auto simp: Let_def split_def split: option.splits)
qed (use assms in \<open>auto simp: report_failure_def failing_def pm_get_def
      split: option.splits sum.splits if_splits\<close>)

lemma process_step_results:
  assumes "process_tstep c w t = (w', t')"
  shows "(pw_results w' = None \<longleftrightarrow> pw_results w = None) \<and> (result_present w k \<longrightarrow> result_present w' k)
    \<and> (t' = TSettle sc i oc \<longrightarrow> result_present w' (process_key sc i))"
  using assms
  by (cases t)
     (auto simp: result_present_def report_failure_def failing_def publish_result_def rm_complete_def
        rm_fail_def rm_kill_def rm_store_result_def Let_def hmap_simps split_def
        split: option.splits sum.splits if_splits prod.splits execution_outcome.splits)

text \<open>The result record of a process that completed or failed is there before its status says so.\<close>

definition results_first :: "('d, 'f, 'v) process_world \<Rightarrow> bool" where
  "results_first w \<longleftrightarrow>
     (\<forall>k. process_status_of (pw_store w) k \<in> {Some PsCompleted, Some PsFailed} \<longrightarrow> result_present w k)"

definition task_published :: "('d, 'f, 'v) process_world \<Rightarrow> ('d, 'f, 'v) process_task \<Rightarrow> bool" where
  "task_published w t = (case t of TSettle sc i _ \<Rightarrow> result_present w (process_key sc i) | _ \<Rightarrow> True)"

definition results_kept :: "('d, 'f, 'v) process_world \<Rightarrow> ('d, 'f, 'v) process_world \<Rightarrow> bool" where
  "results_kept w w' \<longleftrightarrow> (\<forall>k. result_present w k \<longrightarrow> result_present w' k)"

lemma step_results_first:
  assumes "results_first w" and "task_published w t" and "process_tstep c w t = (w', t')"
  shows "results_first w'"
proof -
  have keep: "result_present w k \<Longrightarrow> result_present w' k" for k
    using process_step_results [OF assms(3)] by blast
  show ?thesis
    using process_step_status [OF assms(3)]
  proof (elim disjE exE conjE)
    fix k st
    assume "process_status_of (pw_store w') = (process_status_of (pw_store w))(k \<mapsto> st)" "st = PsKilled"
    then show ?thesis using assms(1) keep by (auto simp: results_first_def)
  next
    fix k st sc i oc
    assume "process_status_of (pw_store w') = (process_status_of (pw_store w))(k \<mapsto> st)"
      "t = TSettle sc i oc" "k = process_key sc i"
    then show ?thesis using assms(1,2) keep by (auto simp: results_first_def task_published_def)
  qed (use assms(1) keep in \<open>auto simp: results_first_def\<close>)
qed

interpretation guarded_processes: guarded_tasks
  process_tstep "\<lambda>(_ :: unit) w. w" "\<lambda>_. False" process_starts results_first task_published results_kept
proof
  fix w w' :: "('d, 'f, 'v) process_world" and t t' :: "('d, 'f, 'v) process_task" and c
  show "process_starts t \<Longrightarrow> task_published w t"
    by (auto simp: process_starts_def task_published_def split: process_task.splits)
  show "results_first w' \<and> task_published w' t' \<and> results_kept w w'"
    if "results_first w" "task_published w t" "process_tstep c w t = (w', t')"
    using step_results_first [OF that] process_step_results [OF that(3)]
    by (auto simp: task_published_def results_kept_def split: process_task.splits)
  show "results_kept w w' \<Longrightarrow> task_published w t \<Longrightarrow> task_published w' t"
    by (auto simp: task_published_def results_kept_def split: process_task.splits)
qed simp

interpretation exclusive_processes: exclusive_tasks
  process_tstep "\<lambda>(_ :: unit) w. w" "\<lambda>_. False" process_starts task_closed process_closed
proof
  fix w w' :: "('d, 'f, 'v) process_world" and t t' :: "('d, 'f, 'v) process_task" and c k
  show "process_starts t \<Longrightarrow> task_closed t = None"
    by (auto simp: process_starts_def split: process_task.splits)
  assume step: "process_tstep c w t = (w', t')"
  show "task_closed t = Some k \<or> \<not> process_closed w k \<and> process_closed w' k" if "task_closed t' = Some k"
    using process_step_status [OF step] that by (elim disjE exE conjE) (auto simp: process_closed_def)
  show "process_closed w k \<Longrightarrow> process_closed w' k"
    using process_step_status [OF step] by (elim disjE exE conjE) (auto simp: process_closed_def)
qed simp

lemma start_results_first [simp]: "results_first services_in_memory"
  by (simp add: results_first_def services_in_memory_def process_status_of_def)

lemma process_steps_advance:
  assumes "process_steps s s'"
  shows "(process_status_of (pw_store (fst s)) k \<noteq> None \<longrightarrow> process_status_of (pw_store (fst s')) k \<noteq> None)
    \<and> (process_closed (fst s) k \<longrightarrow> process_status_of (pw_store (fst s')) k = process_status_of (pw_store (fst s)) k)
    \<and> (pw_results (fst s') = None \<longleftrightarrow> pw_results (fst s) = None) \<and> (result_present (fst s) k \<longrightarrow> result_present (fst s') k)"
  using assms
proof (induction rule: rtranclp_induct)
  case (step y z)
  have "(process_status_of (pw_store (fst y)) k \<noteq> None \<longrightarrow> process_status_of (pw_store (fst z)) k \<noteq> None)
    \<and> (process_closed (fst y) k \<longrightarrow> process_status_of (pw_store (fst z)) k = process_status_of (pw_store (fst y)) k)
    \<and> (pw_results (fst z) = None \<longleftrightarrow> pw_results (fst y) = None) \<and> (result_present (fst y) k \<longrightarrow> result_present (fst z) k)"
    using step(2)
  proof cases
    case (task i ts c w w' t')
    then show ?thesis
      using process_step_status [OF task(4)] process_step_results [OF task(4)]
      by (auto simp: process_closed_def)
  qed auto
  then show ?case using step.IH by (auto simp: process_closed_def)
qed simp

text \<open>A run of a spawn and a kill of the same process, by the numbers of the tasks that take turns.\<close>

definition sample_choice :: "(int, int, unit) process_choice" where
  "sample_choice = \<lparr> ch_fault = None, ch_outcome = ExecOk () \<rparr>"

definition sample_run :: "nat list \<Rightarrow> (int, int, unit) process_world \<times> (int, int, unit) process_task list" where
  "sample_run turns =
     foldl (take_turn process_tstep (\<lambda>(_ :: unit) w. w) (\<lambda>_. False) process_starts) (services_in_memory, [])
       ([TurnSpawn (TSpawn sample_process), TurnSpawn (TKill sample_scope 5)]
        @ map (\<lambda>n. TurnTask n sample_choice) turns)"

lemma sample_run_steps: "process_steps (services_in_memory, []) (sample_run turns)"
  unfolding sample_run_def by (rule schedule_sound)

abbreviation sample_key :: scope_key where
  "sample_key \<equiv> process_key sample_scope 5"

lemmas sample_run_eval =
  sample_run_def services_in_memory_def sample_choice_def sample_process_def sample_scope_def process_starts_def
  failing_def pm_start_def started_record_def pm_get_def pm_kill_def pm_complete_def settle_status_def
  pm_update_status_def ensure_status_transition_def execution_request_def registry_register_def token_new_def
  token_cancel_def token_is_cancelled_def registry_cancel_def registry_unregister_def registry_new_def publish_result_def
  rm_complete_def rm_kill_def rm_store_result_def rm_get_def process_key_def hcontains_def Let_def
  report_failure_def process_status_of_def

lemma sample_run_continues: "process_steps (sample_run xs) (sample_run (xs @ ys))"
proof -
  have "sample_run (xs @ ys) = foldl (take_turn process_tstep (\<lambda>(_ :: unit) w. w) (\<lambda>_. False) process_starts)
      (sample_run xs) (map (\<lambda>n. TurnTask n sample_choice) ys)"
    by (simp add: sample_run_def)
  then show ?thesis using schedule_sound by metis
qed

definition sample_late_result :: "(int, int, unit) process_world \<times> (int, int, unit) process_task list" where
  "sample_late_result = sample_run [0, 0, 0, 0, 1, 1, 1, 0, 0, 0]"

lemma late_result_outcome:
  "process_status_of (pw_store (fst sample_late_result)) sample_key = Some PsKilled
   \<and> map_option rr_status (Option.bind (pw_results (fst sample_late_result)) (\<lambda>m. hget m sample_key)) = Some PsCompleted
   \<and> map task_closed (snd sample_late_result) = [None, Some sample_key]
   \<and> pw_registry (fst sample_late_result) = Some \<lparr> cr_tokens = [], cr_flags = [True] \<rparr>"
  by (simp add: sample_late_result_def sample_run_eval)

text \<open>(C30) However spawned tasks and kills interleave and whichever store calls fail, at most one task
  closes a process, and what it writes is final: the status of a closed process never changes.\<close>

theorem process_closed_once:
  assumes "process_steps (services_in_memory, []) (w, ts)"
    and "i < length ts" and "j < length ts"
    and "task_closed (ts ! i) = Some k" and "task_closed (ts ! j) = Some k"
    and "process_steps (w, ts) (w', ts')"
  shows "i = j \<and> process_closed w k
    \<and> process_status_of (pw_store w') k = process_status_of (pw_store w) k"
proof -
  have once: "won_once task_closed process_closed k (w, ts)"
    by (rule exclusive_processes.won_at_most_once [OF assms(1)]) (simp add: won_once_def)
  then have "i = j \<and> process_closed w k" by (rule won_once_unique [OF _ assms(2-5)])
  then show ?thesis using process_steps_advance [OF assms(6), of k] by simp
qed

theorem process_closed_once_witness:
  "length (snd sample_late_result) = 2 \<and> task_closed (snd sample_late_result ! 0) \<noteq> Some sample_key
   \<and> process_closed (fst sample_late_result) sample_key"
proof -
  have run: "process_steps (services_in_memory, []) (fst sample_late_result, snd sample_late_result)"
    using sample_run_steps by (simp add: sample_late_result_def)
  have m: "map task_closed (snd sample_late_result) = [None, Some sample_key]"
    using late_result_outcome by blast
  then have len: "length (snd sample_late_result) = 2" by (metis length_map length_Cons list.size(3) numeral_2_eq_2)
  have one: "task_closed (snd sample_late_result ! 1) = Some sample_key"
    using m len by (metis One_nat_def nth_Cons_0 nth_Cons_Suc nth_map one_less_numeral_iff semiring_norm(76))
  have "process_closed (fst sample_late_result) sample_key"
    using process_closed_once [OF run _ _ one one rtranclp.rtrancl_refl] len by simp
  moreover have "task_closed (snd sample_late_result ! 0) \<noteq> Some sample_key"
    using process_closed_once [OF run _ _ _ one rtranclp.rtrancl_refl, of 0] len by auto
  ultimately show ?thesis using len by simp
qed

section \<open>Waiting for a result\<close>

text \<open>The polls of a wait during a run: each reads a result in one state and a record in a later one.\<close>

fun polled ::
    "('d, 'f, 'v) process_world \<times> ('d, 'f, 'v) process_task list
      \<Rightarrow> (('d, 'f, 'v) process_world \<times> ('d, 'f, 'v) process_world) list \<Rightarrow> bool" where
  "polled s [] = True"
| "polled s ((w, w') # polls) =
     (\<exists>ts ts'. process_steps s (w, ts) \<and> process_steps (w, ts) (w', ts') \<and> polled (w', ts') polls)"

lemma polled_poll:
  "process_steps s (w, ts) \<Longrightarrow> process_steps (w, ts) (w', ts') \<Longrightarrow> polled (w', ts') polls \<Longrightarrow>
   polled s ((w, w') # polls)"
  by auto

lemma polled_not_killed:
  assumes "polled s polls" and "process_status_of (pw_store (fst s)) k = Some PsKilled" and "polls \<noteq> []"
  shows "process_status_of (pw_store (snd (last polls))) k = Some PsKilled"
  using assms
proof (induction polls arbitrary: s)
  case (Cons p polls)
  obtain w w' where p: "p = (w, w')" by (cases p)
  obtain ts ts' where a: "process_steps s (w, ts)" "process_steps (w, ts) (w', ts')" "polled (w', ts') polls"
    using Cons.prems(1) p by auto
  have "process_status_of (pw_store w') k = Some PsKilled"
    using process_steps_advance [OF a(1), of k] process_steps_advance [OF a(2), of k] Cons.prems(2)
    by (simp add: process_closed_def)
  then show ?case using Cons.IH [OF a(3)] p by (cases polls) auto
qed simp

lemma polled_known:
  assumes "polled s polls" and "process_status_of (pw_store (fst s)) k \<noteq> None" and "p \<in> set polls"
  shows "process_status_of (pw_store (snd p)) k \<noteq> None"
  using assms
proof (induction polls arbitrary: s)
  case (Cons q polls)
  obtain w w' where q: "q = (w, w')" by (cases q)
  obtain ts ts' where a: "process_steps s (w, ts)" "process_steps (w, ts) (w', ts')" "polled (w', ts') polls"
    using Cons.prems(1) q by auto
  have "process_status_of (pw_store w') k \<noteq> None"
    using process_steps_advance [OF a(1), of k] process_steps_advance [OF a(2), of k] Cons.prems(2) by simp
  then show ?case using Cons.IH [OF a(3)] Cons.prems(3) q by auto
qed simp

text \<open>A wait during a run in which the process is not killed: it returns the result, or goes on, and then
  no poll but the last has met a closed process.\<close>

lemma await_result_run:
  assumes "polled s polls" and "results_first (fst s)" and "list_all (task_published (fst s)) (snd s)"
    and "pw_results (fst s) \<noteq> None" and "process_status_of (pw_store (fst s)) (process_key sc i) \<noteq> None"
    and "polls \<noteq> [] \<longrightarrow> process_status_of (pw_store (snd (last polls))) (process_key sc i) \<noteq> Some PsKilled"
    and "seen \<longrightarrow> result_present (fst s) (process_key sc i)"
  shows "case await_result_from seen sc i polls of
      None \<Rightarrow> (polls = [] \<or> \<not> seen) \<and> (\<forall>p\<in>set (butlast polls). \<not> process_closed (snd p) (process_key sc i))
    | Some answer \<Rightarrow> is_ok answer"
  using assms
proof (induction polls arbitrary: s seen)
  case (Cons p polls)
  let ?k = "process_key sc i"
  obtain w w' where p: "p = (w, w')" by (cases p)
  obtain ts ts' where a: "process_steps s (w, ts)" "process_steps (w, ts) (w', ts')" "polled (w', ts') polls"
    using Cons.prems(1) p by auto
  note adv = process_steps_advance [OF a(1), of ?k] process_steps_advance [OF a(2), of ?k]
  have inv: "results_first w' \<and> list_all (task_published w') ts'"
    using guarded_processes.steps_keep [OF a(1) Cons.prems(2,3)] guarded_processes.steps_keep [OF a(2)] by simp
  obtain m where m: "pw_results w = Some m" using adv Cons.prems(4) by auto
  obtain r where r: "hget (pw_store w') ?k = Some r"
    using adv Cons.prems(5) by (auto simp: process_status_of_def)
  have alive: "process_status_of (pw_store w') ?k \<noteq> Some PsKilled"
    using polled_not_killed [OF a(3), of ?k] Cons.prems(6) p by (cases polls) auto
  have closed: "process_closed w' ?k \<longleftrightarrow> process_is_terminal (pr_status r)"
    using r by (auto simp: process_closed_def process_status_of_def process_is_terminal_def)
  have present: "result_present w' ?k" if "process_closed w' ?k"
    using that alive inv by (auto simp: process_closed_def results_first_def) (metis process_status.exhaust)
  have ih: "case await_result_from q sc i polls of
      None \<Rightarrow> (polls = [] \<or> \<not> q) \<and> (\<forall>p\<in>set (butlast polls). \<not> process_closed (snd p) ?k)
    | Some answer \<Rightarrow> is_ok answer" if "q \<longrightarrow> result_present w' ?k" for q
  proof (rule Cons.IH [OF a(3)])
    show "polls \<noteq> [] \<longrightarrow> process_status_of (pw_store (snd (last polls))) ?k \<noteq> Some PsKilled"
      using Cons.prems(6) by (auto split: if_splits)
  qed (use inv adv Cons.prems(4,5) that in auto)
  show ?case
  proof (cases "hget m ?k")
    case (Some res)
    then show ?thesis using p m by (simp add: host_result_def rm_get_def)
  next
    case None
    then have "\<not> seen" using Cons.prems(7) adv m by (auto simp: result_present_def)
    moreover have "pw_results w' \<noteq> None" using adv Cons.prems(4) by auto
    ultimately show ?thesis
      using p m None r closed present ih [of True] ih [of False]
      by (auto simp: host_result_def rm_get_def host_status_def pm_get_def split: option.splits)
  qed
qed simp



lemma await_process_returns:
  assumes "polled s polls" and "process_status_of (pw_store (fst s)) (process_key sc i) \<noteq> None"
    and "p \<in> set polls" and "process_closed (snd p) (process_key sc i)"
  shows "\<exists>e. await_process sc i (map snd polls) = Some (Ok e) \<and> process_is_terminal (px_status e)"
  using assms
proof (induction polls arbitrary: s)
  case (Cons q polls)
  obtain w w' where q: "q = (w, w')" by (cases q)
  obtain ts ts' where a: "process_steps s (w, ts)" "process_steps (w, ts) (w', ts')" "polled (w', ts') polls"
    using Cons.prems(1) q by auto
  have known: "process_status_of (pw_store w') (process_key sc i) \<noteq> None"
    using polled_known [OF Cons.prems(1,2), of q] q by simp
  then obtain r where r: "hget (pw_store w') (process_key sc i) = Some r"
    by (auto simp: process_status_of_def)
  show ?case
  proof (cases "process_is_terminal (pr_status r)")
    case True
    then show ?thesis using q r by (simp add: host_status_def pm_get_def exit_from_terminal_def)
  next
    case False
    then have "\<not> process_closed w' (process_key sc i)"
      using r by (simp add: process_closed_def process_status_of_def process_is_terminal_def)
    then have "p \<in> set polls" using Cons.prems(3,4) q by auto
    then show ?thesis
      using Cons.IH [OF a(3) _ _ Cons.prems(4)] known False q r by (simp add: host_status_def pm_get_def)
  qed
qed simp

section \<open>Kills that race\<close>

definition sample_early_kill :: "(int, int, unit) process_world \<times> (int, int, unit) process_task list" where
  "sample_early_kill = sample_run [0, 1, 1, 1, 0]"

lemma early_kill_outcome:
  "process_status_of (pw_store (fst sample_early_kill)) sample_key = Some PsKilled
   \<and> (\<exists>request reply. snd sample_early_kill = [TExecuting request, TKillDone (Some sample_key) (Ok reply)]
        \<and> xr_cancellation request = Some 0)
   \<and> map_option (\<lambda>reg. token_is_cancelled reg 0) (pw_registry (fst sample_early_kill)) = Some False"
  by (simp add: sample_early_kill_def sample_run_eval)

definition sample_half_kill :: "(int, int, unit) process_world \<times> (int, int, unit) process_task list" where
  "sample_half_kill = sample_run [0, 0, 1]"

lemma half_kill_outcome:
  "process_status_of (pw_store (fst sample_half_kill)) sample_key = Some PsKilled
   \<and> await_result sample_scope 5 [(fst sample_half_kill, fst sample_half_kill), (fst sample_half_kill, fst sample_half_kill)]
     = Some (Err (ProcessResultUnavailable 5))"
  by (simp add: sample_half_kill_def sample_run_eval await_result_def host_result_def host_status_def
      process_is_terminal_def)


text \<open>A kill of a killed process repeats its effects and answers as the first.\<close>

lemma kill_side_effects:
  "pw_store (fst (record_kill_side_effects fault w r)) = pw_store w"
  "snd (record_kill_side_effects None w r) = Ok ()"
  by (auto simp: record_kill_side_effects_def Let_def split: option.splits)

lemma host_kill_killed:
  assumes "hget (pw_store w) (process_key sc i) = Some r" and "pr_status r = PsKilled"
  shows "host_kill None w sc i = (fst (record_kill_side_effects None w r), Ok r)"
  using assms kill_side_effects(2) [of w r]
  by (auto simp: host_kill_def pm_kill_def pm_update_status_def ensure_status_transition_def pm_get_def Let_def
      split: prod.splits sum.splits)

lemma kill_idempotent:
  assumes "host_kill None w sc i = (w1, Ok r)"
  shows "pr_status r = PsKilled \<and> snd (host_kill None w1 sc i) = Ok r
    \<and> pw_store (fst (host_kill None w1 sc i)) = pw_store w1"
proof -
  have killed: "pr_status r = PsKilled \<and> hget (pw_store w1) (process_key sc i) = Some r"
  proof (cases "hget (pw_store w) (process_key sc i)")
    case None
    then show ?thesis
      using assms by (simp add: host_kill_def pm_kill_def pm_update_status_def pm_get_def)
  next
    case (Some q)
    show ?thesis
    proof (cases "pr_status q")
      case PsRunning
      let ?q = "q \<lparr> pr_status := PsKilled, pr_error_kind := None \<rparr>"
      let ?w = "w \<lparr> pw_store := hput (process_key sc i) ?q (pw_store w) \<rparr>"
      have "w1 = fst (record_kill_side_effects None ?w ?q) \<and> r = ?q"
        using assms Some PsRunning kill_side_effects(2) [of ?w ?q]
        by (auto simp: host_kill_def pm_kill_def pm_update_running split: prod.splits)
      then show ?thesis using kill_side_effects(1) [of None ?w ?q] by (simp add: hmap_simps)
    next
      case PsKilled
      then show ?thesis
        using host_kill_killed [OF Some] assms Some kill_side_effects(1) [of None w q] by simp
    qed (use assms Some in \<open>simp_all add: host_kill_def pm_kill_def pm_update_status_def
           ensure_status_transition_def pm_get_def Let_def\<close>)
  qed
  then show ?thesis using host_kill_killed [of w1 sc i r] kill_side_effects(1) by simp
qed

text \<open>The task of a kill that nobody interrupts is the operation.\<close>

lemma kill_task_alone:
  assumes "ch_fault c = None"
  shows "\<exists>k. ((\<lambda>(w, t). process_tstep c w t) ^^ 4) (w, TKill sc i)
      = (fst (host_kill None w sc i), TKillDone k (snd (host_kill None w sc i)))"
proof (cases "hget (pw_store w) (process_key sc i)")
  case None
  then show ?thesis
    using assms by (simp add: eval_nat_numeral host_kill_def failing_def pm_kill_def pm_update_status_def pm_get_def)
next
  case (Some q)
  then show ?thesis
    using assms
    by (cases "pr_status q"; cases "pw_results w")
       (simp_all add: eval_nat_numeral host_kill_def failing_def pm_kill_def pm_update_status_def pm_get_def
          ensure_status_transition_def record_kill_side_effects_def Let_def hmap_simps)
qed

end
