(* ===== verification/Spec2Isabelle.thy ===== *)
theory Spec2Isabelle
  imports Governor_Behaviour Durable_Behaviour Budget_Gate Run_State_Fs Runtime_Policy
    Approval_Resolver Network_Egress Event_Log Process_Host
begin

text \<open>
  A verification development for the kernel crates of IronClaw ("Reborn"), the Rust agent host of
  this repository (\<open>src/ironclaw/crates\<close>). Everything else of the repository (the benchmark harness
  and its data, the earlier monolith, product surfaces, model and tool runtimes) is outside it.

  \<^bold>\<open>The program.\<close> A host serves several tenants and users. Every call carries a resource scope
  (tenant, user and optional agent, project, mission, thread; \<open>ironclaw_host_api\<close>). Before work is
  done, the resource governor (\<open>ironclaw_resources\<close>) reserves the estimated cost against the accounts
  of the scope, from the tenant down to the thread; afterwards the reservation is reconciled with
  the actual usage or released. Durable state lives behind a versioned filesystem with
  compare-and-swap (\<open>ironclaw_filesystem\<close>); a scope sees only what the mount view of its tenant and
  user maps (\<open>ironclaw_reborn_composition\<close>). The run-state and approval stores
  (\<open>ironclaw_run_state\<close>) keep the status of an invocation and the approval requests that block it, in
  memory or on that filesystem through the compare-and-swap helper.

  \<^bold>\<open>The theories.\<close>
  \<^item> \<open>Prelude\<close>: results (\<open>Ok\<close>, \<open>Err\<close>, \<open>rbind\<close>), words with saturating arithmetic, hash maps as
    association lists, sequences of calls (\<open>run_ops\<close>) and the generic lemmas on them.
    \<open>Rust_Strings\<close>: the operations on \<open>str\<close> the source uses, on UTF-8 bytes.
  \<^item> \<open>Host_Scope\<close> (\<open>ids.rs\<close>, \<open>resource.rs\<close>, \<open>error.rs\<close>): identifiers, sentinels, scopes.
    \<open>Host_Paths\<close> (\<open>path.rs\<close>, \<open>mount.rs\<close>): normalization, virtual and scoped paths, mount views.
    \<open>Host_Actions\<close> (\<open>action.rs\<close>, \<open>capability.rs\<close>, \<open>approval.rs\<close>, \<open>scope.rs\<close>, \<open>runtime.rs\<close>): actions,
    approval requests, grants, execution contexts.
  \<^item> \<open>Resource_Types\<close>, \<open>Resource_Checks\<close>, \<open>Resource_Governor\<close> (\<open>ironclaw_resources/src/lib.rs\<close>,
    \<open>period.rs\<close>): accounts, limits, tallies and periods; hard limits and thresholds of one account;
    \<open>set_limit\<close>, \<open>reserve\<close>, \<open>reconcile\<close>, \<open>release\<close> and snapshots on the record \<open>resource_state\<close>.
    \<open>Memory_Governor\<close>: \<open>InMemoryResourceGovernor\<close> with its event sink (\<open>event.rs\<close>).
    \<open>Budget_Gate\<close> (\<open>gate.rs\<close>): budget approval gates.
  \<^item> \<open>Governor_Store\<close>, \<open>Persistent_Governor\<close>: the snapshot wire form, the JSON file store and
    \<open>PersistentResourceGovernor\<close> with its process-local path for unlimited accounts.
  \<^item> \<open>Versioned_Store\<close> (\<open>in_memory.rs\<close>, \<open>record.rs\<close>, \<open>types.rs\<close>, \<open>root.rs\<close>): the in-memory backend.
    \<open>Scoped_Fs\<close> (\<open>scoped.rs\<close>, \<open>ironclaw_reborn_composition/src/lib.rs\<close>): permission checks, resolution
    and the production mount view. \<open>Cas_Update\<close> (\<open>cas.rs\<close>): the read-modify-write helper.
  \<^item> \<open>Run_State\<close>, \<open>Run_State_Fs\<close> (\<open>ironclaw_run_state/src/lib.rs\<close>): both pairs of stores.
  \<^item> \<open>Lifecycle_Protocol\<close>: the interface that a store of records with a life cycle promises, as the
    locale \<open>lifecycle_protocol\<close> (an invariant, how a record becomes known and leaves its active
    state, which answers open and close it), with the lemmas that follow once for all: an identifier
    is opened at most once, closed at most once, and never changes again. It is interpreted on the
    in-memory governor (\<open>mem_gov\<close>), the durable governor under I/O faults (\<open>durable_gov\<close>) and the
    approval store (\<open>mem_approvals\<close>).
  \<^item> \<open>Resource_Ledger\<close>, \<open>Governor_Behaviour\<close>, \<open>Durable_Behaviour\<close> hold the properties of the
    governors, \<open>Sample_Host\<close> a concrete host for the witnesses; the other theories hold the
    properties of their own component at their end.

  \<^bold>\<open>Correspondence.\<close> A struct is a record and an enum a datatype with the constructors of the source,
  prefixed where names would clash; \<open>Result\<close> is a sum, every early return a branch, and an
  operation on \<open>&mut\<close> state or behind a mutex takes the state and returns it with the answer.
  \<open>u64\<close> and \<open>u32\<close> are words of that width; \<open>saturating_add\<close> and \<open>saturating_sub\<close> are written out.
  Strings are lists of UTF-8 bytes, so lengths are byte lengths. UUIDs and instants are numbers.
  A hash map is an association list; results that the source sorts are sorted, and nothing depends
  on iteration order otherwise. Tasks that interleave at an \<open>await\<close> are explicit sequences of
  writes put between the steps of a call (\<open>Cas_Update.interfere\<close>).

  \<^bold>\<open>Parameters.\<close> Code outside the repository is a parameter: decimals, floating point and the
  time-zone calendar (\<open>rust_decimal\<close>, \<open>chrono\<close>) in the record \<open>Resource_Types.host_ops\<close>; JSON text and
  the text of a UUID (\<open>serde_json\<close>, \<open>uuid\<close>) in \<open>Run_State_Fs.store_codec\<close>; what the operating
  system refuses in \<open>Governor_Store.io_faults\<close>. Where a property needs documented behaviour of such
  code, for instance that decoding inverts encoding or that different UUIDs have different texts, it
  is a hypothesis of that property, and the witness has an instance.

  \<^bold>\<open>Bounds.\<close> No definition runs on fuel. The retry loop of the compare-and-swap helper is bounded by
  the 32 attempts of the source (\<open>FILESYSTEM_CAS_RETRIES\<close>), and its two awaits per attempt give 64
  points at which other tasks may write. Its timeout is an optional index of the await at which the
  deadline strikes.

  \<^bold>\<open>What the lemmas show.\<close>
  \<^item> Governor: admission stays within every limit and is characterised exactly; holds form an exact
    ledger; reservations open and close once; refused calls take nothing; a denial beats an approval
    request; periods roll over once; events are emitted in order.
  \<^item> Durable governor: it refines the in-memory one away from I/O faults, is safe under them, and its
    file transactions are atomic. Its process-local path is not safe: two concrete runs show a
    reservation closed twice and a hold counted twice.
  \<^item> Filesystem: paths are canonical, resolution is contained, mount views only attenuate, tenants are
    isolated, a put is a compare-and-swap, and the helper built on it is linearizable. Three concrete
    runs show where the code departs from its documentation: the segment that stands for the system
    scope, the raw-host filter, and a refused deletion that drops a log.
  \<^item> Stores: approvals are resolved once, in memory and, under interference, on the filesystem;
    record paths are valid and injective; run records are consistent and isolated by scope.

  \<^bold>\<open>Not modelled.\<close> Authorization and leases, the approval resolver, runtime policy, trust, network
  policy, processes, and the capability host that joins them are next, in that order; so is the
  journal of the filesystem governor. Queries, indexes and transactions of the filesystem, its SQL
  and disk backends, latency tracing, back-off sleeps, cryptography and everything that talks to a
  network, a model or a terminal are left out.
\<close>

end
